(* ===== verification/Prelude.thy ===== *)
theory Prelude
  imports Main "HOL-Library.AList"
begin

text \<open>
  Shared vocabulary of the development: the Go values that several components use and the
  generic facts about them.

  \<^item> Go's \<open>int\<close> and \<open>int64\<close> are read as \<open>int\<close>; where the code computes with them in Go
    (not in SQL) and a wrap-around could show, the sum is passed through \<open>i64\<close>, the two's
    complement reading of 64 bits.
  \<^item> A Go string is a byte sequence, which is what Isabelle's \<open>string\<close> is (\<open>char\<close> is a
    byte). \<open>to_lower\<close> and \<open>trim_space\<close> do what \<open>strings.ToLower\<close> and
    \<open>strings.TrimSpace\<close> do on ASCII; bytes from 128 on are left alone.
  \<^item> A call that can fail returns \<open>'e + 'a\<close> (\<open>Inl\<close> the error); a run-time panic is \<open>None\<close>
    of an option type.
  \<^item> A Go map that is ranged over or measured is a \<open>gomap\<close>, the list of its entries with distinct
    keys in the order of the iteration, which Go leaves open; a nil map is the empty list.
    Assignment to a key is \<open>AList.update\<close>.
\<close>

named_theorems gomap_simps \<open>rewriting the construction of Go maps\<close>

subsection \<open>64-bit integers\<close>

definition i64 :: "int \<Rightarrow> int" where
  "i64 x = (x + 2 ^ 63) mod 2 ^ 64 - 2 ^ 63"

definition in_i64 :: "int \<Rightarrow> bool" where
  "in_i64 x \<longleftrightarrow> - (2 ^ 63) \<le> x \<and> x < 2 ^ 63"

lemma i64_id [simp]: "in_i64 x \<Longrightarrow> i64 x = x"
  by (simp add: i64_def in_i64_def)

lemma in_i64_i64 [simp, intro]: "in_i64 (i64 x)"
proof -
  have "0 \<le> (x + 2 ^ 63) mod 2 ^ 64" "(x + 2 ^ 63) mod 2 ^ 64 < (2 ^ 64 :: int)"
    by simp_all
  then show ?thesis
    by (simp add: i64_def in_i64_def)
qed

lemma in_i64_between: "in_i64 a \<Longrightarrow> in_i64 b \<Longrightarrow> a \<le> x \<Longrightarrow> x \<le> b \<Longrightarrow> in_i64 x"
  by (simp add: in_i64_def)

lemma in_i64_0 [simp]: "in_i64 0"
  by (simp add: in_i64_def)

lemma in_i64_diff_nonneg: "0 \<le> a \<Longrightarrow> 0 \<le> b \<Longrightarrow> in_i64 a \<Longrightarrow> in_i64 b \<Longrightarrow> in_i64 (a - b)"
  by (simp add: in_i64_def)

subsection \<open>Calls that can fail, in sequence\<close>

definition bindE :: "('e + 'a) \<times> 's \<Rightarrow> ('a \<Rightarrow> 's \<Rightarrow> ('e + 'b) \<times> 's) \<Rightarrow> ('e + 'b) \<times> 's" where
  "bindE m f = (case m of (Inl e, s) \<Rightarrow> (Inl e, s) | (Inr a, s) \<Rightarrow> f a s)"

lemma bindE_simps [simp]: "bindE (Inl e, s) f = (Inl e, s)" "bindE (Inr a, s) f = f a s"
  by (simp_all add: bindE_def)

lemma bindE_result:
  assumes "bindE m f = (r, s')"
  obtains (left) e where "m = (Inl e, s')" and "r = Inl e"
  | (right) a s where "m = (Inr a, s)" and "f a s = (r, s')"
proof (cases m)
  case (Pair q t)
  then show ?thesis using assms left right by (cases q) auto
qed

lemma bindE_InrE:
  assumes "bindE m f = (Inr b, s')"
  obtains a s where "m = (Inr a, s)" and "f a s = (Inr b, s')"
  using assms by (auto elim: bindE_result)

subsection \<open>Strings\<close>

definition lower_char :: "char \<Rightarrow> char" where
  "lower_char c = (if 65 \<le> (of_char c :: nat) \<and> (of_char c :: nat) \<le> 90
                   then char_of ((of_char c :: nat) + 32) else c)"

definition to_lower :: "string \<Rightarrow> string" where
  "to_lower s = map lower_char s"

definition is_space :: "char \<Rightarrow> bool" where
  "is_space c \<longleftrightarrow> (of_char c :: nat) = 32 \<or> 9 \<le> (of_char c :: nat) \<and> (of_char c :: nat) \<le> 13"

definition trim_space :: "string \<Rightarrow> string" where
  "trim_space s = rev (dropWhile is_space (rev (dropWhile is_space s)))"

fun has_prefix :: "'a list \<Rightarrow> 'a list \<Rightarrow> bool" where
  "has_prefix s [] = True"
| "has_prefix [] (p # ps) = False"
| "has_prefix (c # s) (p # ps) = (c = p \<and> has_prefix s ps)"

fun contains_sub :: "'a list \<Rightarrow> 'a list \<Rightarrow> bool" where
  "contains_sub [] p = (p = [])"
| "contains_sub (c # s) p = (has_prefix (c # s) p \<or> contains_sub s p)"

definition has_suffix :: "'a list \<Rightarrow> 'a list \<Rightarrow> bool" where
  "has_suffix s p = has_prefix (rev s) (rev p)"

text \<open>\<open>strings.Split(s, ",")\<close>: the pieces between the separators, always at least one.\<close>

fun split_on :: "'a \<Rightarrow> 'a list \<Rightarrow> 'a list list" where
  "split_on sep [] = [[]]"
| "split_on sep (c # s) =
     (if c = sep then [] # split_on sep s
      else (case split_on sep s of [] \<Rightarrow> [[c]] | p # ps \<Rightarrow> (c # p) # ps))"

lemma split_on_nonempty [simp]: "split_on sep s \<noteq> []"
  by (induction s) (auto split: list.splits)

lemma split_on_notin: "sep \<notin> set s \<Longrightarrow> split_on sep s = [s]"
  by (induction s) auto

lemma split_on_append: "sep \<notin> set a \<Longrightarrow> split_on sep (a @ sep # b) = a # split_on sep b"
  by (induction a) auto

lemma has_prefix_iff: "has_prefix s p \<longleftrightarrow> (\<exists>t. s = p @ t)"
  by (induction s p rule: has_prefix.induct) auto

lemma contains_sub_iff: "contains_sub s p \<longleftrightarrow> (\<exists>a b. s = a @ p @ b)"
proof (induction s)
  case Nil
  then show ?case by simp
next
  case (Cons c s)
  have "(\<exists>a b. c # s = a @ p @ b) \<longleftrightarrow>
        (\<exists>b. c # s = p @ b) \<or> (\<exists>a b. s = a @ p @ b)"
    by (metis append_Cons append_Nil list.exhaust list.inject)
  with Cons.IH show ?case
    by (simp add: has_prefix_iff)
qed

lemma to_lower_idem: "to_lower (to_lower s) = to_lower s"
proof -
  have "lower_char (lower_char c) = lower_char c" for c
    by (auto simp: lower_char_def of_char_of split: if_splits)
  then show ?thesis
    by (simp add: to_lower_def)
qed

subsection \<open>Decimal numerals\<close>

text \<open>\<open>fmt.Sprintf("%d", n)\<close>.\<close>

fun nat_digits :: "nat \<Rightarrow> string" where
  "nat_digits n = (if n < 10 then [char_of (48 + n)]
                   else nat_digits (n div 10) @ [char_of (48 + n mod 10)])"

declare nat_digits.simps [simp del]

definition itoa :: "int \<Rightarrow> string" where
  "itoa n = (if n < 0 then CHR ''-'' # nat_digits (nat (- n)) else nat_digits (nat n))"

definition is_digit :: "char \<Rightarrow> bool" where
  "is_digit c \<longleftrightarrow> 48 \<le> (of_char c :: nat) \<and> (of_char c :: nat) \<le> 57"

lemma nat_digits_set: "\<forall>c \<in> set (nat_digits n). is_digit c"
proof (induction n rule: nat_digits.induct)
  case (1 n)
  have d: "is_digit (char_of (48 + k))" if "k < 10" for k :: nat
    using that by (simp add: is_digit_def of_char_of)
  show ?case
    using 1 d by (subst nat_digits.simps) auto
qed

definition digits_val :: "string \<Rightarrow> nat" where
  "digits_val s = foldl (\<lambda>a c. 10 * a + (of_char c - 48)) 0 s"

lemma digits_val_nat_digits: "digits_val (nat_digits n) = n"
proof (induction n rule: nat_digits.induct)
  case (1 n)
  have c: "(of_char (char_of (48 + k :: nat)) :: nat) - 48 = k" if "k < 10" for k :: nat
    using that by (simp add: of_char_of)
  show ?case
  proof (cases "n < 10")
    case True
    then show ?thesis
      by (subst nat_digits.simps) (simp add: digits_val_def c)
  next
    case False
    with 1 have "digits_val (nat_digits (n div 10)) = n div 10" by simp
    then show ?thesis
      using False c [of "n mod 10"]
      by (subst nat_digits.simps) (simp add: digits_val_def)
  qed
qed

lemma nat_digits_inj: "nat_digits a = nat_digits b \<Longrightarrow> a = b"
  by (metis digits_val_nat_digits)

lemma itoa_inj: "itoa a = itoa b \<Longrightarrow> a = b"
proof -
  assume eq: "itoa a = itoa b"
  have nd: "nat_digits n \<noteq> CHR ''-'' # s" for n s
    using nat_digits_set [of n] by (auto simp: is_digit_def)
  show "a = b"
    using eq nd [of "nat a"] nd [of "nat b"]
    by (auto simp: itoa_def dest!: nat_digits_inj split: if_splits)
       (metis nd)+
qed

lemma itoa_chars: "c \<in> set (itoa n) \<Longrightarrow> is_digit c \<or> c = CHR ''-''"
  using nat_digits_set by (auto simp: itoa_def split: if_splits)

definition atoi :: "string \<Rightarrow> int option" where
  "atoi s =
     (let (neg, ds) = (case s of [] \<Rightarrow> (False, [])
                       | c # t \<Rightarrow> if c = CHR ''-'' then (True, t) else if c = CHR ''+'' then (False, t)
                                 else (False, s));
          v = (if neg then - int (digits_val ds) else int (digits_val ds)) in
      if ds = [] \<or> \<not> list_all is_digit ds \<or> \<not> in_i64 v then None else Some v)"

lemma nat_digits_nonempty [simp]: "nat_digits n \<noteq> []"
  by (subst nat_digits.simps) simp

lemma nat_digits_hd: "nat_digits n = c # t \<Longrightarrow> is_digit c"
  using nat_digits_set [of n] by simp

lemma atoi_itoa: "in_i64 n \<Longrightarrow> atoi (itoa n) = Some n"
proof -
  assume n: "in_i64 n"
  have digits: "list_all is_digit (nat_digits k)" for k
    using nat_digits_set [of k] by (simp add: list_all_iff)
  have sign: "\<not> is_digit (CHR ''-'')" "\<not> is_digit (CHR ''+'')" by (simp_all add: is_digit_def)
  show ?thesis
  proof (cases "n < 0")
    case True
    then show ?thesis using n digits by (simp add: atoi_def itoa_def digits_val_nat_digits)
  next
    case False
    obtain c t where ct: "nat_digits (nat n) = c # t" by (cases "nat_digits (nat n)") simp_all
    with nat_digits_hd sign have "c \<noteq> CHR ''-''" "c \<noteq> CHR ''+''" by blast+
    then show ?thesis
      using False n digits [of "nat n"] digits_val_nat_digits [of "nat n"] ct
      by (simp add: atoi_def itoa_def)
  qed
qed

subsection \<open>Checks and maps built in a loop\<close>

fun first_error :: "(bool \<times> 'e) list \<Rightarrow> 'e option" where
  "first_error [] = None"
| "first_error ((bad, e) # cs) = (if bad then Some e else first_error cs)"

lemma first_error_None: "first_error cs = None \<longleftrightarrow> (\<forall>(bad, e) \<in> set cs. \<not> bad)"
  by (induction cs rule: first_error.induct) auto

type_synonym ('k, 'v) gomap = "('k \<times> 'v) list"

text \<open>
  \<open>for k, v := range m { ...; out[key] = value }\<close>: the body fails, skips the entry or assigns.
\<close>

fun build_map :: "('k \<times> 'v \<Rightarrow> 'e + ('l \<times> 'w) option) \<Rightarrow> ('k, 'v) gomap \<Rightarrow> ('l, 'w) gomap \<Rightarrow>
    'e + ('l, 'w) gomap" where
  "build_map f [] out = Inr out"
| "build_map f (e # es) out =
     (case f e of Inl err \<Rightarrow> Inl err
      | Inr None \<Rightarrow> build_map f es out
      | Inr (Some (k, w)) \<Rightarrow> build_map f es (AList.update k w out))"

text \<open>The first error of a loop over a map or slice.\<close>

fun find_error :: "('a \<Rightarrow> 'e option) \<Rightarrow> 'a list \<Rightarrow> 'e option" where
  "find_error f [] = None"
| "find_error f (x # xs) = (case f x of None \<Rightarrow> find_error f xs | Some e \<Rightarrow> Some e)"

lemma find_error_None: "find_error f xs = None \<longleftrightarrow> (\<forall>x \<in> set xs. f x = None)"
  by (induction xs) (auto split: option.splits)

lemma build_map_distinct:
  "build_map f es out = Inr m \<Longrightarrow> distinct (map fst out) \<Longrightarrow> distinct (map fst m)"
  by (induction es arbitrary: out) (auto split: sum.splits option.splits intro: distinct_update)

lemma update_set_subset: "set (AList.update k w m) \<subseteq> insert (k, w) (set m)"
  by (induction m) auto

lemma build_map_all:
  assumes "build_map f es out = Inr m"
    and "\<And>e k w. e \<in> set es \<Longrightarrow> f e = Inr (Some (k, w)) \<Longrightarrow> P k w"
    and "\<And>k w. (k, w) \<in> set out \<Longrightarrow> P k w"
    and "(k, w) \<in> set m"
  shows "P k w"
  using assms
proof (induction es arbitrary: out)
  case (Cons e es)
  show ?case
  proof (cases "f e")
    case (Inr r)
    show ?thesis
    proof (cases r)
      case None
      then have "build_map f es out = Inr m" using Cons.prems(1) Inr by simp
      then show ?thesis by (rule Cons.IH) (use Cons.prems in auto)
    next
      case (Some kw)
      obtain k' w' where kw: "kw = (k', w')" by (cases kw)
      have new: "P k' w'" using Cons.prems(2) [of e] Inr Some kw by simp
      show ?thesis
      proof (rule Cons.IH)
        show "build_map f es (AList.update k' w' out) = Inr m" using Cons.prems(1) Inr Some kw by simp
        show "(k, w) \<in> set m" by (rule Cons.prems(4))
        fix a b assume "(a, b) \<in> set (AList.update k' w' out)"
        then show "P a b" using update_set_subset [of k' w' out] new Cons.prems(3) by blast
      qed (use Cons.prems(2) in auto)
    qed
  qed (use Cons.prems in simp)
qed simp

lemma update_new: "k \<notin> set (map fst m) \<Longrightarrow> AList.update k w m = m @ [(k, w)]"
  by (induction m) auto

lemma build_map_id:
  "(\<And>k v. (k, v) \<in> set es \<Longrightarrow> f (k, v) = Inr (Some (k, v))) \<Longrightarrow> distinct (map fst (out @ es)) \<Longrightarrow>
   build_map f es out = Inr (out @ es)"
proof (induction es arbitrary: out)
  case (Cons e es)
  obtain k w where e: "e = (k, w)" by (cases e)
  with Cons.prems(2) have "AList.update k w out = out @ [(k, w)]" by (intro update_new) auto
  with Cons.IH [of "out @ [(k, w)]"] Cons.prems e show ?case by simp
qed simp

lemma build_map_keeps: "build_map f es out = Inr m \<Longrightarrow> out \<noteq> [] \<Longrightarrow> m \<noteq> []"
proof (induction es arbitrary: out)
  case (Cons e es)
  have ne: "AList.update k w out \<noteq> []" for k w by (cases out) auto
  show ?case
  proof (cases "\<exists>k w. f e = Inr (Some (k, w))")
    case True
    then obtain k w where "f e = Inr (Some (k, w))" by blast
    with Cons.prems Cons.IH [OF _ ne] show ?thesis by simp
  next
    case False
    with Cons.prems have "build_map f es out = Inr m" by (auto split: sum.splits option.splits)
    then show ?thesis using Cons by blast
  qed
qed simp

lemma build_map_nonempty:
  "es \<noteq> [] \<Longrightarrow> build_map f es out = Inr m \<Longrightarrow> (\<And>e. f e \<noteq> Inr None) \<Longrightarrow> m \<noteq> []"
proof (cases es)
  case (Cons e es')
  have ne: "AList.update k w out \<noteq> []" for k w by (cases out) auto
  assume b: "build_map f es out = Inr m" and "\<And>e. f e \<noteq> Inr None"
  with Cons obtain k w where "f e = Inr (Some (k, w))" by (auto split: sum.splits option.splits)
  with b Cons have "build_map f es' (AList.update k w out) = Inr m" by simp
  then show ?thesis using ne by (rule build_map_keeps)
qed simp

lemma build_map_same:
  assumes "distinct (map fst es)" and "\<And>k v. (k, v) \<in> set es \<Longrightarrow> f (k, v) = Inr (Some (k, v))"
  shows "build_map f es [] = Inr es"
  using build_map_id [of es f "[]"] assms by simp

lemma build_map_copy [gomap_simps]:
  "distinct (map fst es) \<Longrightarrow> build_map (\<lambda>(k, v). Inr (Some (k, v))) es [] = Inr es"
  by (rule build_map_same) simp_all

subsection \<open>Trimming\<close>

lemma dropWhile_idem: "dropWhile P (dropWhile P s) = dropWhile P s"
  by (induction s) auto

lemma dropWhile_id: "(s \<noteq> [] \<Longrightarrow> \<not> P (hd s)) \<Longrightarrow> dropWhile P s = s"
  by (cases s) auto

lemma trim_space_hd: "trim_space s \<noteq> [] \<Longrightarrow> \<not> is_space (hd (trim_space s))"
proof -
  define t where "t = dropWhile is_space s"
  assume "trim_space s \<noteq> []"
  then have ne: "rev (dropWhile is_space (rev t)) \<noteq> []" by (simp add: trim_space_def t_def)
  then obtain x where x: "x \<in> set t" "\<not> is_space x" by (auto simp: dropWhile_eq_Nil_conv)
  then have "t \<noteq> []" by auto
  then have "\<not> is_space (hd t)" unfolding t_def by (rule hd_dropWhile)
  moreover have "t = rev (dropWhile is_space (rev t)) @ rev (takeWhile is_space (rev t))"
    by (metis rev_append rev_rev_ident takeWhile_dropWhile_id)
  ultimately show ?thesis using ne
    by (metis hd_append2 t_def trim_space_def)
qed

lemma trim_space_last: "trim_space s \<noteq> [] \<Longrightarrow> \<not> is_space (last (trim_space s))"
  unfolding trim_space_def by (metis hd_dropWhile last_rev rev_is_Nil_conv)

lemma trim_space_id:
  assumes "s \<noteq> [] \<Longrightarrow> \<not> is_space (hd s)" and "s \<noteq> [] \<Longrightarrow> \<not> is_space (last s)"
  shows "trim_space s = s"
proof -
  have "dropWhile is_space (rev s) = rev s" using assms(2) by (intro dropWhile_id) (simp add: hd_rev)
  moreover have "dropWhile is_space s = s" using assms(1) by (intro dropWhile_id) simp
  ultimately show ?thesis by (simp add: trim_space_def)
qed

lemma trim_space_idem [simp]: "trim_space (trim_space s) = trim_space s"
  by (intro trim_space_id trim_space_hd trim_space_last)

lemma trim_space_Nil [simp]: "trim_space [] = []"
  by (simp add: trim_space_def)

lemma is_space_lower [simp]: "is_space (lower_char c) = is_space c"
  by (auto simp: is_space_def lower_char_def of_char_of)

lemma trim_space_lower: "trim_space (to_lower s) = to_lower (trim_space s)"
proof -
  have "dropWhile is_space (map lower_char t) = map lower_char (dropWhile is_space t)" for t
    by (induction t) auto
  then show ?thesis by (simp add: trim_space_def to_lower_def rev_map)
qed

lemma to_lower_eq_Nil [simp]: "to_lower s = [] \<longleftrightarrow> s = []"
  by (simp add: to_lower_def)

subsection \<open>Lists and maps\<close>

lemma sorted_hd_le: "sorted (x # xs) \<Longrightarrow> y \<in> set (x # xs) \<Longrightarrow> x \<le> y"
  by auto

lemma sorted_snoc: "sorted xs \<Longrightarrow> (\<And>x. x \<in> set xs \<Longrightarrow> x \<le> y) \<Longrightarrow> sorted (xs @ [y])"
  by (simp add: sorted_append)

lemma sorted_le_last: "sorted xs \<Longrightarrow> x \<in> set xs \<Longrightarrow> x \<le> last xs"
  by (induction xs) auto

lemma distinct_map_eqD:
  "distinct (map f xs) \<Longrightarrow> x \<in> set xs \<Longrightarrow> y \<in> set xs \<Longrightarrow> f x = f y \<Longrightarrow> x = y"
  by (auto simp: distinct_map dest: inj_onD)

lemma sum_list_update_key:
  fixes g :: "'a \<Rightarrow> int"
  assumes "distinct (map k xs)" and "x \<in> set xs"
  shows "(\<Sum>y\<leftarrow>map (\<lambda>y. if k y = k x then f y else y) xs. g y) = (\<Sum>y\<leftarrow>xs. g y) + g (f x) - g x"
  using assms
proof (induction xs)
  case (Cons y ys)
  show ?case
  proof (cases "y = x")
    case True
    with Cons.prems have "map (\<lambda>y. if k y = k x then f y else y) ys = ys"
      by (intro map_idI) (auto simp: image_iff)
    with True show ?thesis by simp
  next
    case False
    with Cons.prems have "x \<in> set ys" "k y \<noteq> k x" by (auto simp: image_iff)
    with Cons show ?thesis by simp
  qed
qed simp

lemma ran_update_subset: "ran (m(k \<mapsto> v)) \<subseteq> insert v (ran m)"
  by (auto simp: ran_def)

end
