(* ===== verification/PricingConfig.thy ===== *)
theory PricingConfig
  imports Prelude Complex_Main
begin

text \<open>
  The pricing records of a channel and of an adaptor (\<open>model/channel.go\<close>,
  \<open>relay/adaptor/interface.go\<close>) and what a channel accepts: \<open>SetModelPriceConfigs\<close> normalises and
  validates before it stores. \<open>float64\<close> fields are rationals here, since they are only compared.
  The column \<open>model_configs\<close> holds the table itself instead of its JSON text; fields with
  \<open>omitempty\<close> come back as they were stored. \<open>strings.ToLower\<close> is the ASCII one of the prelude.
\<close>

subsection \<open>Records of a channel\<close>

record tier_local =
  lt_ratio :: rat
  lt_completion_ratio :: rat
  lt_cached_input_ratio :: rat
  lt_cache_write_5m_ratio :: rat
  lt_cache_write_1h_ratio :: rat
  lt_input_token_threshold :: int

record video_local =
  lv_per_second_usd :: rat
  lv_base_resolution :: string
  lv_resolution_multipliers :: "(string, rat) gomap"

record audio_local =
  la_prompt_ratio :: rat
  la_completion_ratio :: rat
  la_prompt_tokens_per_second :: rat
  la_completion_tokens_per_second :: rat
  la_usd_per_second :: rat

record image_local =
  li_price_per_image_usd :: rat
  li_prompt_ratio :: rat
  li_default_size :: string
  li_default_quality :: string
  li_prompt_token_limit :: int
  li_min_images :: int
  li_max_images :: int
  li_size_multipliers :: "(string, rat) gomap"
  li_quality_multipliers :: "(string, rat) gomap"
  li_quality_size_multipliers :: "(string, (string, rat) gomap) gomap"

record embedding_local =
  le_text_token_ratio :: rat
  le_image_token_ratio :: rat
  le_audio_token_ratio :: rat
  le_video_token_ratio :: rat
  le_document_token_ratio :: rat
  le_usd_per_image :: rat
  le_usd_per_audio_second :: rat
  le_usd_per_video_frame :: rat
  le_usd_per_document_page :: rat

record model_config_local =
  lc_ratio :: rat
  lc_completion_ratio :: rat
  lc_cached_input_ratio :: rat
  lc_cache_write_5m_ratio :: rat
  lc_cache_write_1h_ratio :: rat
  lc_tiers :: "tier_local list"
  lc_max_tokens :: int
  lc_video :: "video_local option"
  lc_audio :: "audio_local option"
  lc_image :: "image_local option"
  lc_embedding :: "embedding_local option"

type_synonym price_table = "(string, model_config_local) gomap"

subsection \<open>Keys\<close>

text \<open>\<open>strings.ReplaceAll\<close> of the sign \<open>U+00D7\<close> (bytes C3 97) and of \<open>*\<close> by an \<open>x\<close>.\<close>

fun replace_times :: "string \<Rightarrow> string" where
  "replace_times (c # d # s) =
     (if c = CHR 0xC3 \<and> d = CHR 0x97 then CHR ''x'' # replace_times s
      else c # replace_times (d # s))"
| "replace_times s = s"

definition replace_star :: "string \<Rightarrow> string" where
  "replace_star s = map (\<lambda>c. if c = CHR ''*'' then CHR ''x'' else c) s"

text \<open>\<open>strings.FieldsFunc\<close> at the three separators.\<close>

definition size_fields :: "string \<Rightarrow> string list" where
  "size_fields s = filter (\<lambda>p. p \<noteq> []) (split_on (CHR ''x'') (replace_star (replace_times s)))"

definition normalize_video_resolution_key :: "string \<Rightarrow> string" where
  "normalize_video_resolution_key value =
     (let trimmed = trim_space (to_lower value) in
      if trimmed = [] then []
      else (case size_fields trimmed of
          [w, h] \<Rightarrow>
            (case (atoi w, atoi h) of
               (Some width, Some height) \<Rightarrow>
                 if width \<le> 0 \<or> height \<le> 0 then trimmed
                 else if width < height then itoa height @ ''x'' @ itoa width
                 else itoa width @ ''x'' @ itoa height
             | _ \<Rightarrow> trimmed)
        | _ \<Rightarrow> trimmed))"

definition normalize_image_size_key :: "string \<Rightarrow> string" where
  "normalize_image_size_key value =
     filter (\<lambda>c. c \<noteq> CHR '' '') (replace_star (replace_times (trim_space (to_lower value))))"

definition normalize_image_quality_key :: "string \<Rightarrow> string" where
  "normalize_image_quality_key value = trim_space (to_lower value)"

subsection \<open>Normalisation\<close>

text \<open>The loop over a map of multipliers, the same in every normaliser.\<close>

definition positive_entry ::
  "(string \<Rightarrow> string) \<Rightarrow> string \<Rightarrow> string \<Rightarrow> string \<times> rat \<Rightarrow> string + (string \<times> rat) option" where
  "positive_entry to_key empty_key not_positive e =
     (case e of (raw, value) \<Rightarrow>
        let key = to_key raw in
        if key = [] then Inl empty_key
        else if value \<le> 0 then Inl not_positive
        else Inr (Some (key, value)))"

definition normalize_video_local :: "video_local option \<Rightarrow> string + video_local option" where
  "normalize_video_local cfg =
     (case cfg of None \<Rightarrow> Inr None
      | Some v \<Rightarrow>
         if lv_per_second_usd v < 0 then Inl ''video per_second_usd cannot be negative''
         else
           let base = (if trim_space (lv_base_resolution v) \<noteq> []
                       then normalize_video_resolution_key (lv_base_resolution v) else []) in
           (case build_map (positive_entry normalize_video_resolution_key
                   ''video resolution multiplier key cannot be empty''
                   ''video resolution multiplier must be positive'')
                 (lv_resolution_multipliers v) [] of
              Inl e \<Rightarrow> Inl e
            | Inr m \<Rightarrow> Inr (Some \<lparr>lv_per_second_usd = lv_per_second_usd v, lv_base_resolution = base,
                                 lv_resolution_multipliers = m\<rparr>)))"

definition normalize_audio_local :: "audio_local option \<Rightarrow> string + audio_local option" where
  "normalize_audio_local cfg =
     (case cfg of None \<Rightarrow> Inr None
      | Some a \<Rightarrow>
         (case first_error
            [(la_prompt_ratio a < 0, ''audio prompt_ratio cannot be negative''),
             (la_completion_ratio a < 0, ''audio completion_ratio cannot be negative''),
             (la_prompt_tokens_per_second a < 0, ''audio prompt_tokens_per_second cannot be negative''),
             (la_completion_tokens_per_second a < 0, ''audio completion_tokens_per_second cannot be negative''),
             (la_usd_per_second a < 0, ''audio usd_per_second cannot be negative'')] of
            Some e \<Rightarrow> Inl e
          | None \<Rightarrow> Inr (Some \<lparr>la_prompt_ratio = la_prompt_ratio a,
               la_completion_ratio = la_completion_ratio a,
               la_prompt_tokens_per_second = la_prompt_tokens_per_second a,
               la_completion_tokens_per_second = la_completion_tokens_per_second a,
               la_usd_per_second = la_usd_per_second a\<rparr>)))"

definition image_errors :: "image_local \<Rightarrow> (bool \<times> string) list" where
  "image_errors i =
     [(li_price_per_image_usd i < 0, ''image price_per_image_usd cannot be negative''),
      (li_prompt_ratio i < 0, ''image prompt_ratio cannot be negative''),
      (li_prompt_token_limit i < 0, ''image prompt_token_limit cannot be negative''),
      (li_min_images i < 0, ''image min_images cannot be negative''),
      (li_max_images i < 0, ''image max_images cannot be negative''),
      (li_min_images i > 0 \<and> li_max_images i > 0 \<and> li_min_images i > li_max_images i,
       ''image min_images cannot exceed max_images'')]"

text \<open>The nested map: a quality without sizes is dropped.\<close>

definition quality_entry ::
  "string \<times> (string, rat) gomap \<Rightarrow> string + (string \<times> (string, rat) gomap) option" where
  "quality_entry e =
     (case e of (raw, sizes) \<Rightarrow>
        let key = normalize_image_quality_key raw in
        if key = [] then Inl ''image quality-size multiplier quality cannot be empty''
        else if sizes = [] then Inr None
        else (case build_map (positive_entry normalize_image_size_key
                       ''image quality-size multiplier size cannot be empty''
                       ''image quality-size multiplier must be positive'') sizes [] of
                Inl err \<Rightarrow> Inl err
              | Inr m \<Rightarrow> if m \<noteq> [] then Inr (Some (key, m)) else Inr None))"

definition normalize_image_local :: "image_local option \<Rightarrow> string + image_local option" where
  "normalize_image_local cfg =
     (case cfg of None \<Rightarrow> Inr None
      | Some i \<Rightarrow>
         (case first_error (image_errors i) of Some e \<Rightarrow> Inl e
          | None \<Rightarrow>
             (case build_map (positive_entry normalize_image_size_key
                     ''image size multiplier key cannot be empty''
                     ''image size multiplier must be positive'') (li_size_multipliers i) [] of
                Inl e \<Rightarrow> Inl e
              | Inr sizes \<Rightarrow>
             (case build_map (positive_entry normalize_image_quality_key
                     ''image quality multiplier key cannot be empty''
                     ''image quality multiplier must be positive'') (li_quality_multipliers i) [] of
                Inl e \<Rightarrow> Inl e
              | Inr qualities \<Rightarrow>
             (case build_map quality_entry (li_quality_size_multipliers i) [] of
                Inl e \<Rightarrow> Inl e
              | Inr nested \<Rightarrow>
                 Inr (Some \<lparr>li_price_per_image_usd = li_price_per_image_usd i,
                   li_prompt_ratio = li_prompt_ratio i,
                   li_default_size = (let t = trim_space (li_default_size i) in
                      if t \<noteq> [] then normalize_image_size_key t else []),
                   li_default_quality = (let t = trim_space (li_default_quality i) in
                      if t \<noteq> [] then normalize_image_quality_key t else []),
                   li_prompt_token_limit = li_prompt_token_limit i,
                   li_min_images = li_min_images i,
                   li_max_images = li_max_images i,
                   li_size_multipliers = sizes,
                   li_quality_multipliers = qualities,
                   li_quality_size_multipliers = nested\<rparr>))))))"

text \<open>The embedding prices are not among the fields that \<open>normalizeModelConfigLocal\<close> copies.\<close>

definition normalize_model_config_local :: "model_config_local \<Rightarrow> string + model_config_local" where
  "normalize_model_config_local cfg =
     (case normalize_video_local (lc_video cfg) of Inl e \<Rightarrow> Inl e
      | Inr video \<Rightarrow>
     (case normalize_audio_local (lc_audio cfg) of Inl e \<Rightarrow> Inl e
      | Inr audio \<Rightarrow>
     (case normalize_image_local (lc_image cfg) of Inl e \<Rightarrow> Inl e
      | Inr img \<Rightarrow>
         Inr \<lparr>lc_ratio = lc_ratio cfg,
           lc_completion_ratio = lc_completion_ratio cfg,
           lc_cached_input_ratio = lc_cached_input_ratio cfg,
           lc_cache_write_5m_ratio = lc_cache_write_5m_ratio cfg,
           lc_cache_write_1h_ratio = lc_cache_write_1h_ratio cfg,
           lc_tiers = lc_tiers cfg,
           lc_max_tokens = lc_max_tokens cfg,
           lc_video = video, lc_audio = audio, lc_image = img,
           lc_embedding = None\<rparr>)))"

subsection \<open>Validation\<close>

definition has_video_data :: "video_local option \<Rightarrow> bool" where
  "has_video_data cfg =
     (case cfg of None \<Rightarrow> False
      | Some v \<Rightarrow> lv_per_second_usd v > 0 \<or> length (lv_resolution_multipliers v) > 0)"

definition has_audio_data :: "audio_local option \<Rightarrow> bool" where
  "has_audio_data cfg =
     (case cfg of None \<Rightarrow> False
      | Some a \<Rightarrow> la_prompt_ratio a \<noteq> 0 \<or> la_completion_ratio a \<noteq> 0 \<or> la_prompt_tokens_per_second a \<noteq> 0 \<or>
         la_completion_tokens_per_second a \<noteq> 0 \<or> la_usd_per_second a \<noteq> 0)"

definition has_image_data :: "image_local option \<Rightarrow> bool" where
  "has_image_data cfg =
     (case cfg of None \<Rightarrow> False
      | Some i \<Rightarrow> li_price_per_image_usd i > 0 \<or> li_prompt_ratio i > 0 \<or> li_prompt_token_limit i > 0 \<or>
         li_min_images i > 0 \<or> li_max_images i > 0 \<or>
         length (li_size_multipliers i) > 0 \<or> length (li_quality_multipliers i) > 0 \<or>
         length (li_quality_size_multipliers i) > 0)"

definition multiplier_error :: "string \<Rightarrow> string \<Rightarrow> string \<times> rat \<Rightarrow> string option" where
  "multiplier_error empty_key not_positive e =
     first_error [(trim_space (fst e) = [], empty_key), (snd e \<le> 0, not_positive)]"

definition validate_video_local :: "video_local option \<Rightarrow> string + bool" where
  "validate_video_local cfg =
     (case cfg of None \<Rightarrow> Inr False
      | Some v \<Rightarrow>
         if lv_per_second_usd v < 0 then Inl ''video per_second_usd cannot be negative''
         else (case find_error (multiplier_error ''video resolution multiplier key cannot be empty''
                      ''video resolution multiplier must be positive'') (lv_resolution_multipliers v) of
                 Some e \<Rightarrow> Inl e
               | None \<Rightarrow> Inr (has_video_data cfg)))"

definition validate_audio_local :: "audio_local option \<Rightarrow> string + bool" where
  "validate_audio_local cfg =
     (case cfg of None \<Rightarrow> Inr False
      | Some a \<Rightarrow>
         (case first_error
            [(la_prompt_ratio a < 0, ''audio prompt_ratio cannot be negative''),
             (la_completion_ratio a < 0, ''audio completion_ratio cannot be negative''),
             (la_prompt_tokens_per_second a < 0, ''audio prompt_tokens_per_second cannot be negative''),
             (la_completion_tokens_per_second a < 0, ''audio completion_tokens_per_second cannot be negative''),
             (la_usd_per_second a < 0, ''audio usd_per_second cannot be negative'')] of
            Some e \<Rightarrow> Inl e
          | None \<Rightarrow> Inr (has_audio_data cfg)))"

definition quality_error :: "string \<times> (string, rat) gomap \<Rightarrow> string option" where
  "quality_error e =
     (if trim_space (fst e) = [] then Some ''image quality-size multiplier quality cannot be empty''
      else find_error (multiplier_error ''image quality-size multiplier size cannot be empty''
             ''image quality-size multiplier must be positive'') (snd e))"

definition validate_image_local :: "image_local option \<Rightarrow> string + bool" where
  "validate_image_local cfg =
     (case cfg of None \<Rightarrow> Inr False
      | Some i \<Rightarrow>
         (case first_error (image_errors i) of Some e \<Rightarrow> Inl e
          | None \<Rightarrow>
         (case find_error (multiplier_error ''image size multiplier key cannot be empty''
                 ''image size multiplier must be positive'') (li_size_multipliers i) of Some e \<Rightarrow> Inl e
          | None \<Rightarrow>
         (case find_error (multiplier_error ''image quality multiplier key cannot be empty''
                 ''image quality multiplier must be positive'') (li_quality_multipliers i) of Some e \<Rightarrow> Inl e
          | None \<Rightarrow>
         (case find_error quality_error (li_quality_size_multipliers i) of Some e \<Rightarrow> Inl e
          | None \<Rightarrow> Inr (has_image_data cfg))))))"

definition tier_error :: "tier_local \<Rightarrow> string option" where
  "tier_error t = first_error
     [(lt_input_token_threshold t < 0, ''negative input_token_threshold''),
      (lt_ratio t < 0, ''negative tier ratio''),
      (lt_completion_ratio t < 0, ''negative tier completion ratio''),
      (lt_cache_write_5m_ratio t < 0, ''negative tier cache_write_5m_ratio''),
      (lt_cache_write_1h_ratio t < 0, ''negative tier cache_write_1h_ratio'')]"

definition config_error :: "string \<times> model_config_local \<Rightarrow> string option" where
  "config_error e =
     (case e of (name, c) \<Rightarrow>
        (case first_error
           [(name = [], ''empty model name found''),
            (lc_ratio c < 0, ''negative ratio''),
            (lc_completion_ratio c < 0, ''negative completion ratio''),
            (lc_cache_write_5m_ratio c < 0, ''negative cache_write_5m_ratio''),
            (lc_cache_write_1h_ratio c < 0, ''negative cache_write_1h_ratio'')] of
           Some err \<Rightarrow> Some err
         | None \<Rightarrow>
        (case find_error tier_error (lc_tiers c) of Some err \<Rightarrow> Some err
         | None \<Rightarrow>
           if lc_max_tokens c < 0 then Some ''negative MaxTokens''
           else
        (case validate_video_local (lc_video c) of Inl err \<Rightarrow> Some err
         | Inr video_data \<Rightarrow>
        (case validate_audio_local (lc_audio c) of Inl err \<Rightarrow> Some err
         | Inr audio_data \<Rightarrow>
        (case validate_image_local (lc_image c) of Inl err \<Rightarrow> Some err
         | Inr image_data \<Rightarrow>
           if lc_ratio c = 0 \<and> lc_completion_ratio c = 0 \<and> lc_cached_input_ratio c = 0 \<and>
              lc_cache_write_5m_ratio c = 0 \<and> lc_cache_write_1h_ratio c = 0 \<and>
              length (lc_tiers c) = 0 \<and> lc_max_tokens c = 0 \<and>
              \<not> video_data \<and> \<not> audio_data \<and> \<not> image_data
           then Some ''no meaningful configuration data'' else None))))))"

definition validate_model_price_configs :: "price_table \<Rightarrow> string option" where
  "validate_model_price_configs configs = find_error config_error configs"

subsection \<open>Storing and reading\<close>

text \<open>\<open>None\<close> stands for the column \<open>model_configs\<close> being null.\<close>

definition clean_entry ::
  "string \<times> model_config_local \<Rightarrow> string + (string \<times> model_config_local) option" where
  "clean_entry e =
     (case e of (raw, cfg) \<Rightarrow>
        let name = trim_space raw in
        if name = [] then Inl ''model name cannot be empty''
        else (case normalize_model_config_local cfg of Inl err \<Rightarrow> Inl err
              | Inr c \<Rightarrow> Inr (Some (name, c))))"

definition set_model_price_configs ::
  "price_table \<Rightarrow> price_table option \<Rightarrow> string option \<times> price_table option" where
  "set_model_price_configs configs column =
     (if length configs = 0 then (None, None)
      else (case build_map clean_entry configs [] of
              Inl e \<Rightarrow> (Some e, column)
            | Inr cleaned \<Rightarrow>
               (case validate_model_price_configs cleaned of
                  Some e \<Rightarrow> (Some e, column)
                | None \<Rightarrow> (None, Some cleaned))))"

definition get_model_price_configs :: "price_table option \<Rightarrow> price_table" where
  "get_model_price_configs column = (case column of None \<Rightarrow> [] | Some m \<Rightarrow> m)"

definition get_model_price_config :: "price_table option \<Rightarrow> string \<Rightarrow> model_config_local option" where
  "get_model_price_config column name = map_of (get_model_price_configs column) name"

definition get_model_ratio_from_configs :: "price_table option \<Rightarrow> (string, rat) gomap" where
  "get_model_ratio_from_configs column =
     map (\<lambda>(name, c). (name, lc_ratio c))
       (filter (\<lambda>(name, c). lc_ratio c \<noteq> 0) (get_model_price_configs column))"

definition get_completion_ratio_from_configs :: "price_table option \<Rightarrow> (string, rat) gomap" where
  "get_completion_ratio_from_configs column =
     map (\<lambda>(name, c). (name, lc_completion_ratio c))
       (filter (\<lambda>(name, c). lc_completion_ratio c \<noteq> 0) (get_model_price_configs column))"

subsection \<open>Normal keys\<close>

lemma replace_times_id: "CHR 0xC3 \<notin> set s \<Longrightarrow> replace_times s = s"
  by (induction s rule: replace_times.induct) auto

lemma replace_times_set: "set (replace_times s) \<subseteq> insert (CHR ''x'') (set s)"
  by (induction s rule: replace_times.induct) auto

lemma replace_star_id: "CHR ''*'' \<notin> set s \<Longrightarrow> replace_star s = s"
  unfolding replace_star_def by (rule map_idI) auto

lemma replace_star_idem: "replace_star (replace_star s) = replace_star s"
  by (simp add: replace_star_def)

lemma trim_lower_idem: "trim_space (to_lower (trim_space (to_lower s))) = trim_space (to_lower s)"
  by (simp add: trim_space_lower to_lower_idem)

lemma normalize_image_quality_key_idem:
  "normalize_image_quality_key (normalize_image_quality_key s) = normalize_image_quality_key s"
  by (simp add: normalize_image_quality_key_def trim_lower_idem)

lemma digit_simps: "is_digit c \<Longrightarrow> c \<noteq> CHR ''x'' \<and> c \<noteq> CHR ''*'' \<and> c \<noteq> CHR 0xC3 \<and> \<not> is_space c \<and> lower_char c = c"
  by (auto simp: is_digit_def is_space_def lower_char_def)

lemma itoa_digits: "0 \<le> n \<Longrightarrow> c \<in> set (itoa n) \<Longrightarrow> is_digit c"
  using nat_digits_set by (simp add: itoa_def)

lemma itoa_nonempty [simp]: "itoa n \<noteq> []"
  by (simp add: itoa_def)

lemma resolution_key_text:
  assumes "0 < h" and "h \<le> w"
  shows "to_lower (itoa w @ ''x'' @ itoa h) = itoa w @ ''x'' @ itoa h" (is "to_lower ?r = _")
    and "trim_space (itoa w @ ''x'' @ itoa h) = itoa w @ ''x'' @ itoa h"
    and "size_fields (itoa w @ ''x'' @ itoa h) = [itoa w, itoa h]"
proof -
  have d: "c \<in> set (itoa w) \<Longrightarrow> is_digit c" "c \<in> set (itoa h) \<Longrightarrow> is_digit c" for c
    using assms itoa_digits [of w c] itoa_digits [of h c] by simp_all
  show "to_lower ?r = ?r"
    unfolding to_lower_def by (rule map_idI) (auto dest!: d digit_simps simp: lower_char_def)
  have hd: "\<not> is_space (hd ?r)"
    using d(1) [of "hd (itoa w)"] digit_simps by (simp add: hd_append)
  have lst: "\<not> is_space (last ?r)"
    using d(2) [of "last (itoa h)"] digit_simps by simp
  show "trim_space ?r = ?r" using hd lst by (intro trim_space_id)
  have "CHR 0xC3 \<notin> set ?r" "CHR ''*'' \<notin> set ?r" "CHR ''x'' \<notin> set (itoa w)" "CHR ''x'' \<notin> set (itoa h)"
    by (auto dest!: d digit_simps)
  then show "size_fields ?r = [itoa w, itoa h]"
    by (simp add: size_fields_def replace_times_id replace_star_id split_on_append split_on_notin)
qed

lemma resolution_key_fixed:
  assumes "0 < h" and "h \<le> w" and "in_i64 w"
  shows "normalize_video_resolution_key (itoa w @ ''x'' @ itoa h) = itoa w @ ''x'' @ itoa h"
proof -
  have "in_i64 h" using assms by (auto simp: in_i64_def)
  then show ?thesis
    using assms resolution_key_text [OF assms(1,2)]
    by (simp add: normalize_video_resolution_key_def atoi_itoa)
qed

lemma atoi_in_i64: "atoi s = Some n \<Longrightarrow> in_i64 n"
  by (auto simp: atoi_def Let_def split: list.splits if_splits)

lemma normalize_video_resolution_key_cases:
  obtains "normalize_video_resolution_key s = trim_space (to_lower s)"
  | w h where "0 < h" "h \<le> w" "in_i64 w" "normalize_video_resolution_key s = itoa w @ ''x'' @ itoa h"
proof (cases "normalize_video_resolution_key s = trim_space (to_lower s)")
  case False
  then obtain a b where f: "size_fields (trim_space (to_lower s)) = [a, b]"
    by (auto simp: normalize_video_resolution_key_def Let_def split: list.splits if_splits)
  with False obtain w h where wh: "atoi a = Some w" "atoi b = Some h" "0 < w" "0 < h"
    by (auto simp: normalize_video_resolution_key_def Let_def split: option.splits if_splits)
  with False f have r: "normalize_video_resolution_key s =
      (if w < h then itoa h @ ''x'' @ itoa w else itoa w @ ''x'' @ itoa h)"
    by (auto simp: normalize_video_resolution_key_def Let_def)
  show thesis
  proof (cases "w < h")
    case True
    with wh r atoi_in_i64 show thesis by (intro that(2) [of w h]) auto
  next
    case False
    with wh r atoi_in_i64 show thesis by (intro that(2) [of h w]) auto
  qed
qed

lemma trim_resolution_key:
  "trim_space (normalize_video_resolution_key s) = normalize_video_resolution_key s"
  by (cases s rule: normalize_video_resolution_key_cases) (simp_all only: trim_space_idem resolution_key_text)

lemma normalize_video_resolution_key_idem:
  "normalize_video_resolution_key (normalize_video_resolution_key s) = normalize_video_resolution_key s"
proof (cases s rule: normalize_video_resolution_key_cases)
  case 1
  have "normalize_video_resolution_key (trim_space (to_lower s)) = normalize_video_resolution_key s"
    by (simp add: normalize_video_resolution_key_def trim_lower_idem)
  with 1 show ?thesis by simp
qed (simp only: resolution_key_fixed)

definition ascii :: "string \<Rightarrow> bool" where
  "ascii s \<longleftrightarrow> (\<forall>c \<in> set s. (of_char c :: nat) < 128)"

lemma ascii_plain: "ascii s \<Longrightarrow> CHR 0xC3 \<notin> set s"
  by (auto simp: ascii_def)

lemma ascii_to_lower: "ascii s \<Longrightarrow> ascii (to_lower s)"
  by (auto simp: ascii_def to_lower_def lower_char_def of_char_of)

lemma trim_space_set: "set (trim_space s) \<subseteq> set s"
  unfolding trim_space_def by (metis order.trans set_dropWhileD set_rev subsetI)

lemma ascii_trim: "ascii s \<Longrightarrow> ascii (trim_space s)"
  using trim_space_set by (auto simp: ascii_def)

lemma normalize_image_size_key_idem:
  assumes "ascii s"
  shows "normalize_image_size_key (normalize_image_size_key s) = normalize_image_size_key s"
proof -
  define t where "t = trim_space (to_lower s)"
  have c3: "CHR 0xC3 \<notin> set t" using assms by (auto simp: t_def intro!: ascii_plain ascii_trim ascii_to_lower)
  define r where "r = filter (\<lambda>c. c \<noteq> CHR '' '') (replace_star t)"
  have n: "normalize_image_size_key s = r"
    using c3 by (simp add: normalize_image_size_key_def r_def flip: t_def) (simp add: replace_times_id)
  have "to_lower t = t" by (simp add: t_def to_lower_idem flip: trim_space_lower)
  then have low: "\<forall>c \<in> set t. lower_char c = c" unfolding to_lower_def by (metis map_eq_conv map_ident)
  then have lr: "to_lower r = r"
    unfolding to_lower_def by (intro map_idI) (auto simp: r_def replace_star_def lower_char_def split: if_splits)
  have "trim_space r = r"
  proof (rule trim_space_id)
    assume ne: "r \<noteq> []"
    then have t: "t \<noteq> []" by (auto simp: r_def replace_star_def)
    have h: "\<not> is_space (hd t)" using trim_space_hd t unfolding t_def by blast
    have l: "\<not> is_space (last t)" using trim_space_last t unfolding t_def by blast
    obtain c u where cu: "t = c # u" using t by (cases t) auto
    show "\<not> is_space (hd r)" using h cu by (auto simp: r_def replace_star_def is_space_def)
    obtain v d where vd: "t = v @ [d]" using t by (cases t rule: rev_cases) auto
    show "\<not> is_space (last r)" using l vd by (auto simp: r_def replace_star_def is_space_def)
  qed
  moreover have "CHR 0xC3 \<notin> set r" using c3 by (auto simp: r_def replace_star_def split: if_splits)
  moreover have "replace_star r = r" by (intro replace_star_id) (auto simp: r_def replace_star_def split: if_splits)
  ultimately have "normalize_image_size_key r = filter (\<lambda>c. c \<noteq> CHR '' '') r"
    by (simp add: normalize_image_size_key_def lr replace_times_id)
  then show ?thesis by (simp add: n) (simp add: r_def)
qed

subsection \<open>Normalising twice\<close>

definition fixed_multipliers :: "(string \<Rightarrow> string) \<Rightarrow> (string, rat) gomap \<Rightarrow> bool" where
  "fixed_multipliers to_key m \<longleftrightarrow>
     distinct (map fst m) \<and> (\<forall>(k, v) \<in> set m. k \<noteq> [] \<and> 0 < v \<and> to_key k = k)"

lemma positive_entry_Inr:
  "positive_entry to_key a b e = Inr r \<longleftrightarrow>
     to_key (fst e) \<noteq> [] \<and> 0 < snd e \<and> r = Some (to_key (fst e), snd e)"
  by (cases e) (auto simp: positive_entry_def Let_def)

lemma build_multipliers_fixed:
  assumes "build_map (positive_entry to_key a b) es [] = Inr m"
    and "\<And>k v. (k, v) \<in> set es \<Longrightarrow> to_key (to_key k) = to_key k"
  shows "fixed_multipliers to_key m"
proof -
  have "k \<noteq> [] \<and> 0 < v \<and> to_key k = k" if "(k, v) \<in> set m" for k v
    by (rule build_map_all [OF assms(1), where P = "\<lambda>k v. k \<noteq> [] \<and> 0 < v \<and> to_key k = k"])
      (use that assms(2) in \<open>auto simp: positive_entry_Inr\<close>)
  moreover have "distinct (map fst m)" by (rule build_map_distinct [OF assms(1)]) simp
  ultimately show ?thesis unfolding fixed_multipliers_def by blast
qed

lemma fixed_multipliers_again:
  "fixed_multipliers to_key m \<Longrightarrow> build_map (positive_entry to_key a b) m [] = Inr m"
  by (rule build_map_same) (auto simp: fixed_multipliers_def positive_entry_Inr)

lemma normalize_video_again:
  assumes "normalize_video_local v = Inr w"
  shows "normalize_video_local w = Inr w"
proof (cases v)
  case (Some x)
  define base where "base = (if trim_space (lv_base_resolution x) \<noteq> []
    then normalize_video_resolution_key (lv_base_resolution x) else [])"
  from assms Some obtain m where m: "build_map (positive_entry normalize_video_resolution_key
      ''video resolution multiplier key cannot be empty'' ''video resolution multiplier must be positive'')
      (lv_resolution_multipliers x) [] = Inr m" and pos: "\<not> lv_per_second_usd x < 0"
    and w: "w = Some \<lparr>lv_per_second_usd = lv_per_second_usd x, lv_base_resolution = base, lv_resolution_multipliers = m\<rparr>"
    by (auto simp: normalize_video_local_def base_def Let_def split: sum.splits if_splits)
  from m have f: "fixed_multipliers normalize_video_resolution_key m"
    by (rule build_multipliers_fixed) (rule normalize_video_resolution_key_idem)
  have "trim_space base = base" "base = [] \<or> normalize_video_resolution_key base = base"
    by (simp_all add: base_def trim_resolution_key normalize_video_resolution_key_idem)
  with f pos w show ?thesis
    by (auto simp: normalize_video_local_def Let_def fixed_multipliers_again)
qed (use assms in \<open>simp add: normalize_video_local_def\<close>)

lemma normalize_audio_again: "normalize_audio_local v = Inr w \<Longrightarrow> normalize_audio_local w = Inr w"
  by (auto simp: normalize_audio_local_def split: option.splits if_splits)

definition ascii_sizes :: "image_local option \<Rightarrow> bool" where
  "ascii_sizes img \<longleftrightarrow>
     (case img of None \<Rightarrow> True
      | Some i \<Rightarrow> ascii (li_default_size i) \<and> (\<forall>(k, v) \<in> set (li_size_multipliers i). ascii k) \<and>
                 (\<forall>(q, sizes) \<in> set (li_quality_size_multipliers i). \<forall>(k, v) \<in> set sizes. ascii k))"

definition fixed_nested :: "(string, (string, rat) gomap) gomap \<Rightarrow> bool" where
  "fixed_nested n \<longleftrightarrow> distinct (map fst n) \<and>
     (\<forall>(q, sizes) \<in> set n. q \<noteq> [] \<and> normalize_image_quality_key q = q \<and> sizes \<noteq> [] \<and>
        fixed_multipliers normalize_image_size_key sizes)"

lemma build_nested_fixed:
  assumes "build_map quality_entry es [] = Inr n"
    and "\<forall>(q, sizes) \<in> set es. \<forall>(k, v) \<in> set sizes. ascii k"
  shows "fixed_nested n"
proof -
  have "q \<noteq> [] \<and> normalize_image_quality_key q = q \<and> sizes \<noteq> [] \<and>
        fixed_multipliers normalize_image_size_key sizes" if "(q, sizes) \<in> set n" for q sizes
  proof (rule build_map_all [OF assms(1), where P = "\<lambda>q sizes. q \<noteq> [] \<and>
      normalize_image_quality_key q = q \<and> sizes \<noteq> [] \<and> fixed_multipliers normalize_image_size_key sizes"])
    fix e k w assume e: "e \<in> set es" and r: "quality_entry e = Inr (Some (k, w))"
    obtain raw sizes' where raw: "e = (raw, sizes')" by (cases e)
    with r have b: "build_map (positive_entry normalize_image_size_key
        ''image quality-size multiplier size cannot be empty''
        ''image quality-size multiplier must be positive'') sizes' [] = Inr w"
      and k: "k = normalize_image_quality_key raw" "k \<noteq> []" "w \<noteq> []"
      by (auto simp: quality_entry_def Let_def split: sum.splits if_splits)
    from b have "fixed_multipliers normalize_image_size_key w"
      by (rule build_multipliers_fixed) (use assms(2) e raw normalize_image_size_key_idem in blast)
    with k show "k \<noteq> [] \<and> normalize_image_quality_key k = k \<and> w \<noteq> [] \<and>
        fixed_multipliers normalize_image_size_key w"
      by (simp add: normalize_image_quality_key_idem)
  qed (use that in auto)
  moreover have "distinct (map fst n)" by (rule build_map_distinct [OF assms(1)]) simp
  ultimately show ?thesis unfolding fixed_nested_def by blast
qed

lemma fixed_nested_again:
  assumes "fixed_nested n"
  shows "build_map quality_entry n [] = Inr n"
proof (rule build_map_same)
  show "distinct (map fst n)" using assms by (simp add: fixed_nested_def)
  fix q sizes assume "(q, sizes) \<in> set n"
  with assms have "q \<noteq> []" "normalize_image_quality_key q = q" "sizes \<noteq> []"
    "fixed_multipliers normalize_image_size_key sizes"
    by (auto simp: fixed_nested_def)
  then show "quality_entry (q, sizes) = Inr (Some (q, sizes))"
    by (simp add: quality_entry_def Let_def fixed_multipliers_again)
qed

lemma trim_image_keys:
  "trim_space (normalize_image_quality_key s) = normalize_image_quality_key s"
  by (simp add: normalize_image_quality_key_def)

lemma normalize_default_quality:
  "(let t = trim_space q in if t \<noteq> [] then normalize_image_quality_key t else []) = d \<Longrightarrow>
   (let t = trim_space d in if t \<noteq> [] then normalize_image_quality_key t else []) = d"
  by (auto simp: Let_def trim_image_keys normalize_image_quality_key_idem)

lemma normalize_size_trim: "normalize_image_size_key (trim_space s) = normalize_image_size_key s"
  by (simp add: normalize_image_size_key_def flip: trim_space_lower)

lemma normalize_default_size:
  assumes "ascii s"
    and "(let t = trim_space s in if t \<noteq> [] then normalize_image_size_key t else []) = d"
  shows "(let t = trim_space d in if t \<noteq> [] then normalize_image_size_key t else []) = d"
proof (cases "trim_space s = []")
  case False
  with assms have d: "d = normalize_image_size_key s" by (auto simp: Let_def normalize_size_trim)
  have fix_d: "normalize_image_size_key d = d"
    using normalize_image_size_key_idem [OF assms(1)] by (simp add: d)
  have "trim_space d = [] \<Longrightarrow> d = []"
    using fix_d normalize_size_trim [of d] by (simp add: normalize_image_size_key_def to_lower_def replace_star_def)
  with fix_d show ?thesis by (auto simp: Let_def normalize_size_trim)
qed (use assms in \<open>auto simp: Let_def\<close>)

lemma normalize_image_again:
  assumes "normalize_image_local v = Inr w" and "ascii_sizes v"
  shows "normalize_image_local w = Inr w"
proof (cases v)
  case (Some i)
  from assms(1) Some obtain sizes qualities nested where
    e: "first_error (image_errors i) = None" and
    m1: "build_map (positive_entry normalize_image_size_key ''image size multiplier key cannot be empty''
           ''image size multiplier must be positive'') (li_size_multipliers i) [] = Inr sizes" and
    m2: "build_map (positive_entry normalize_image_quality_key ''image quality multiplier key cannot be empty''
           ''image quality multiplier must be positive'') (li_quality_multipliers i) [] = Inr qualities" and
    m3: "build_map quality_entry (li_quality_size_multipliers i) [] = Inr nested" and
    w: "w = Some \<lparr>li_price_per_image_usd = li_price_per_image_usd i, li_prompt_ratio = li_prompt_ratio i,
          li_default_size = (let t = trim_space (li_default_size i) in
             if t \<noteq> [] then normalize_image_size_key t else []),
          li_default_quality = (let t = trim_space (li_default_quality i) in
             if t \<noteq> [] then normalize_image_quality_key t else []),
          li_prompt_token_limit = li_prompt_token_limit i, li_min_images = li_min_images i,
          li_max_images = li_max_images i, li_size_multipliers = sizes,
          li_quality_multipliers = qualities, li_quality_size_multipliers = nested\<rparr>"
    by (auto simp: normalize_image_local_def split: sum.splits option.splits)
  from assms(2) Some have asc: "ascii (li_default_size i)" "\<forall>(k, v) \<in> set (li_size_multipliers i). ascii k"
    "\<forall>(q, sizes) \<in> set (li_quality_size_multipliers i). \<forall>(k, v) \<in> set sizes. ascii k"
    by (simp_all add: ascii_sizes_def)
  have "fixed_multipliers normalize_image_size_key sizes"
    using m1 by (rule build_multipliers_fixed) (use asc(2) normalize_image_size_key_idem in blast)
  moreover have "fixed_multipliers normalize_image_quality_key qualities"
    using m2 by (rule build_multipliers_fixed) (rule normalize_image_quality_key_idem)
  moreover have "fixed_nested nested" using m3 asc(3) by (rule build_nested_fixed)
  moreover have "first_error (image_errors (the w)) = None" using e by (simp add: w image_errors_def)
  ultimately show ?thesis
    using normalize_default_size [OF asc(1) refl] normalize_default_quality [OF refl, of "li_default_quality i"]
    by (simp add: normalize_image_local_def w fixed_multipliers_again fixed_nested_again)
qed (use assms in \<open>simp add: normalize_image_local_def\<close>)

lemma normalize_model_config_again:
  assumes "normalize_model_config_local c = Inr d" and "ascii_sizes (lc_image c)"
  shows "normalize_model_config_local d = Inr d"
proof -
  from assms(1) obtain v a i where
    n: "normalize_video_local (lc_video c) = Inr v" "normalize_audio_local (lc_audio c) = Inr a"
      "normalize_image_local (lc_image c) = Inr i" and
    d: "lc_video d = v" "lc_audio d = a" "lc_image d = i" "lc_embedding d = None"
    by (auto simp: normalize_model_config_local_def split: sum.splits)
  show ?thesis
    using normalize_video_again [OF n(1)] normalize_audio_again [OF n(2)]
      normalize_image_again [OF n(3) assms(2)] d
    by (simp add: normalize_model_config_local_def)
qed

subsection \<open>What a channel stores\<close>

definition positive_multipliers :: "(string, rat) gomap \<Rightarrow> bool" where
  "positive_multipliers m \<longleftrightarrow> distinct (map fst m) \<and> (\<forall>(k, v) \<in> set m. trim_space k \<noteq> [] \<and> 0 < v)"

definition valid_tier :: "tier_local \<Rightarrow> bool" where
  "valid_tier t \<longleftrightarrow> 0 \<le> lt_input_token_threshold t \<and> 0 \<le> lt_ratio t \<and> 0 \<le> lt_completion_ratio t \<and>
     0 \<le> lt_cache_write_5m_ratio t \<and> 0 \<le> lt_cache_write_1h_ratio t"

definition valid_config :: "model_config_local \<Rightarrow> bool" where
  "valid_config c \<longleftrightarrow>
     0 \<le> lc_ratio c \<and> 0 \<le> lc_completion_ratio c \<and> 0 \<le> lc_cache_write_5m_ratio c \<and>
     0 \<le> lc_cache_write_1h_ratio c \<and> 0 \<le> lc_max_tokens c \<and> (\<forall>t \<in> set (lc_tiers c). valid_tier t) \<and>
     (\<forall>v \<in> set_option (lc_video c). 0 \<le> lv_per_second_usd v \<and>
        positive_multipliers (lv_resolution_multipliers v)) \<and>
     (\<forall>i \<in> set_option (lc_image c). 0 \<le> li_price_per_image_usd i \<and> 0 \<le> li_prompt_ratio i \<and>
        (0 < li_max_images i \<longrightarrow> li_min_images i \<le> li_max_images i) \<and>
        positive_multipliers (li_size_multipliers i) \<and> positive_multipliers (li_quality_multipliers i)) \<and>
     lc_embedding c = None"

lemma multiplier_error_None:
  "find_error (multiplier_error a b) m = None \<longleftrightarrow> (\<forall>(k, v) \<in> set m. trim_space k \<noteq> [] \<and> 0 < v)"
  by (auto simp: find_error_None multiplier_error_def not_le)

lemma validated_video:
  "validate_video_local v = Inr d \<Longrightarrow> x \<in> set_option v \<Longrightarrow>
   0 \<le> lv_per_second_usd x \<and> (\<forall>(k, r) \<in> set (lv_resolution_multipliers x). trim_space k \<noteq> [] \<and> 0 < r)"
  by (cases v) (auto simp: validate_video_local_def multiplier_error_None split: option.splits if_splits)

lemma validated_image:
  "validate_image_local v = Inr d \<Longrightarrow> x \<in> set_option v \<Longrightarrow>
   0 \<le> li_price_per_image_usd x \<and> 0 \<le> li_prompt_ratio x \<and>
   (0 < li_max_images x \<longrightarrow> li_min_images x \<le> li_max_images x) \<and>
   (\<forall>(k, r) \<in> set (li_size_multipliers x). trim_space k \<noteq> [] \<and> 0 < r) \<and>
   (\<forall>(k, r) \<in> set (li_quality_multipliers x). trim_space k \<noteq> [] \<and> 0 < r)"
  by (cases v) (auto simp: validate_image_local_def multiplier_error_None image_errors_def not_less
      split: option.splits if_splits)

lemma normalized_video_distinct:
  assumes "normalize_video_local v = Inr w" and "x \<in> set_option w"
  shows "distinct (map fst (lv_resolution_multipliers x))"
proof -
  from assms obtain y where y: "build_map (positive_entry normalize_video_resolution_key
      ''video resolution multiplier key cannot be empty'' ''video resolution multiplier must be positive'')
      y [] = Inr (lv_resolution_multipliers x)"
    by (auto simp: normalize_video_local_def Let_def split: option.splits sum.splits if_splits)
  show ?thesis by (rule build_map_distinct [OF y]) simp
qed

lemma normalized_image_distinct:
  assumes "normalize_image_local v = Inr w" and "x \<in> set_option w"
  shows "distinct (map fst (li_size_multipliers x)) \<and> distinct (map fst (li_quality_multipliers x))"
proof -
  from assms obtain y z where
    y: "build_map (positive_entry normalize_image_size_key ''image size multiplier key cannot be empty''
          ''image size multiplier must be positive'') y [] = Inr (li_size_multipliers x)" and
    z: "build_map (positive_entry normalize_image_quality_key ''image quality multiplier key cannot be empty''
          ''image quality multiplier must be positive'') z [] = Inr (li_quality_multipliers x)"
    by (auto simp: normalize_image_local_def split: option.splits sum.splits)
  show ?thesis using build_map_distinct [OF y] build_map_distinct [OF z] by simp
qed

lemma normalized_parts:
  assumes "normalize_model_config_local c = Inr d"
  shows "normalize_video_local (lc_video c) = Inr (lc_video d)"
    and "normalize_audio_local (lc_audio c) = Inr (lc_audio d)"
    and "normalize_image_local (lc_image c) = Inr (lc_image d)"
    and "lc_embedding d = None"
  using assms by (auto simp: normalize_model_config_local_def split: sum.splits)

lemma validated_config:
  assumes "config_error (n, d) = None" and "normalize_model_config_local c = Inr d"
  shows "n \<noteq> [] \<and> valid_config d"
proof -
  from assms(1) obtain vd ad imd where
    num: "n \<noteq> []" "0 \<le> lc_ratio d" "0 \<le> lc_completion_ratio d" "0 \<le> lc_cache_write_5m_ratio d"
      "0 \<le> lc_cache_write_1h_ratio d" "0 \<le> lc_max_tokens d" and
    tiers: "find_error tier_error (lc_tiers d) = None" and
    media: "validate_video_local (lc_video d) = Inr vd" "validate_image_local (lc_image d) = Inr imd"
    by (auto simp: config_error_def not_less split: option.splits sum.splits if_splits)
  note parts = normalized_parts [OF assms(2)]
  from tiers have "\<forall>t \<in> set (lc_tiers d). valid_tier t"
    by (auto simp: find_error_None tier_error_def valid_tier_def not_less split: if_splits)
  moreover have "\<forall>v \<in> set_option (lc_video d). 0 \<le> lv_per_second_usd v \<and>
      positive_multipliers (lv_resolution_multipliers v)"
    using validated_video [OF media(1)] normalized_video_distinct [OF parts(1)]
    by (simp add: positive_multipliers_def)
  moreover have "\<forall>i \<in> set_option (lc_image d). 0 \<le> li_price_per_image_usd i \<and> 0 \<le> li_prompt_ratio i \<and>
      (0 < li_max_images i \<longrightarrow> li_min_images i \<le> li_max_images i) \<and>
      positive_multipliers (li_size_multipliers i) \<and> positive_multipliers (li_quality_multipliers i)"
    using validated_image [OF media(2)] normalized_image_distinct [OF parts(3)]
    by (simp add: positive_multipliers_def)
  ultimately show ?thesis using num parts(4) by (simp add: valid_config_def)
qed

lemma set_stored_cases:
  assumes "set_model_price_configs cfgs column = (err, Some m)"
  obtains e where "column = Some m" "err = Some e"
  | "err = None" "build_map clean_entry cfgs [] = Inr m" "find_error config_error m = None"
proof (cases err)
  case None
  with assms show thesis
    by (intro that(2)) (auto simp: set_model_price_configs_def validate_model_price_configs_def
        split: sum.splits option.splits if_splits)
next
  case (Some e)
  with assms show thesis
    by (intro that(1)) (auto simp: set_model_price_configs_def split: sum.splits option.splits if_splits)
qed

lemma clean_entry_Inr:
  "clean_entry e = Inr (Some (n, d)) \<Longrightarrow>
   n = trim_space (fst e) \<and> n \<noteq> [] \<and> normalize_model_config_local (snd e) = Inr d"
  by (auto simp: clean_entry_def Let_def split: sum.splits if_splits prod.splits)

lemma clean_entry_assigns: "clean_entry e \<noteq> Inr None"
  by (auto simp: clean_entry_def Let_def split: sum.splits prod.splits)

lemma cleaned_entries:
  assumes "build_map clean_entry cfgs [] = Inr m" and "(n, d) \<in> set m"
  shows "trim_space n = n \<and> n \<noteq> [] \<and> (\<exists>raw c. (raw, c) \<in> set cfgs \<and> normalize_model_config_local c = Inr d)"
proof (rule build_map_all [OF assms(1), where P = "\<lambda>n d. trim_space n = n \<and> n \<noteq> [] \<and>
        (\<exists>raw c. (raw, c) \<in> set cfgs \<and> normalize_model_config_local c = Inr d)"])
  fix e n d assume e: "e \<in> set cfgs" "clean_entry e = Inr (Some (n, d))"
  from clean_entry_Inr [OF e(2)] e(1)
  show "trim_space n = n \<and> n \<noteq> [] \<and> (\<exists>raw c. (raw, c) \<in> set cfgs \<and> normalize_model_config_local c = Inr d)"
    by (cases e) auto
qed (use assms(2) in simp_all)

definition valid_prices :: "price_table \<Rightarrow> bool" where
  "valid_prices m \<longleftrightarrow> distinct (map fst m) \<and>
     (\<forall>(n, c) \<in> set m. n \<noteq> [] \<and> trim_space n = n \<and> valid_config c)"

lemma set_valid:
  assumes "set_model_price_configs cfgs column = (err, Some m)" and "\<And>t. column = Some t \<Longrightarrow> valid_prices t"
  shows "valid_prices m"
  using assms(1)
proof (cases rule: set_stored_cases)
  case 2
  have "distinct (map fst m)" by (rule build_map_distinct [OF 2(2)]) simp
  moreover have "n \<noteq> [] \<and> trim_space n = n \<and> valid_config d" if "(n, d) \<in> set m" for n d
  proof -
    from cleaned_entries [OF 2(2) that] obtain c where "trim_space n = n" "normalize_model_config_local c = Inr d"
      by auto
    moreover have "config_error (n, d) = None" using 2(3) that by (simp add: find_error_None)
    ultimately show ?thesis using validated_config by blast
  qed
  ultimately show ?thesis unfolding valid_prices_def by blast
qed (use assms(2) in simp)

definition store_all :: "price_table list \<Rightarrow> price_table option \<Rightarrow> price_table option" where
  "store_all updates column = fold (\<lambda>cfgs col. snd (set_model_price_configs cfgs col)) updates column"


definition plain_config :: model_config_local where
  "plain_config = \<lparr>lc_ratio = 1, lc_completion_ratio = 4, lc_cached_input_ratio = 0, lc_cache_write_5m_ratio = 0,
     lc_cache_write_1h_ratio = 0, lc_tiers = [], lc_max_tokens = 0, lc_video = None, lc_audio = None,
     lc_image = None, lc_embedding = None\<rparr>"

definition video_prices :: "(string, rat) gomap \<Rightarrow> model_config_local" where
  "video_prices m = plain_config\<lparr>lc_video := Some \<lparr>lv_per_second_usd = 1, lv_base_resolution = ''2x1'',
     lv_resolution_multipliers = m\<rparr>\<rparr>"

lemmas config_examples = plain_config_def video_prices_def

lemma example_stored:
  "set_model_price_configs [('' m'', video_prices [(''1x2'', 2)])] None =
     (None, Some [(''m'', video_prices [(''2x1'', 2)])])"
  by code_simp

lemma example_refused:
  "set_model_price_configs [(''m'', plain_config\<lparr>lc_completion_ratio := - 1\<rparr>)] column =
     (Some ''negative completion ratio'', column)"
  by code_simp


text \<open>
  C16. Reading the stored prices of a channel and storing them again changes nothing, for a table whose
  image size keys are ASCII: normalising is idempotent on model names, on resolution, size and quality
  keys and on every map.
\<close>

theorem store_read_store:
  assumes "set_model_price_configs cfgs column = (None, Some m)"
    and "\<forall>(n, c) \<in> set cfgs. ascii_sizes (lc_image c)"
  shows "set_model_price_configs (get_model_price_configs (Some m)) other = (None, Some m)"
  using assms(1)
proof (cases rule: set_stored_cases)
  case 2
  have "distinct (map fst m)" by (rule build_map_distinct [OF 2(2)]) simp
  then have "build_map clean_entry m [] = Inr m"
  proof (rule build_map_same)
    fix n d assume "(n, d) \<in> set m"
    from cleaned_entries [OF 2(2) this] obtain raw c where
      n: "trim_space n = n" "n \<noteq> []" and c: "(raw, c) \<in> set cfgs" "normalize_model_config_local c = Inr d" by auto
    from c(1) assms(2) have "ascii_sizes (lc_image c)" by auto
    with c(2) have "normalize_model_config_local d = Inr d" by (rule normalize_model_config_again)
    with n show "clean_entry (n, d) = Inr (Some (n, d))" by (simp add: clean_entry_def)
  qed
  moreover have "cfgs \<noteq> []" using assms(1) by (auto simp: set_model_price_configs_def)
  then have "m \<noteq> []" using 2(2) clean_entry_assigns by (rule build_map_nonempty)
  ultimately show ?thesis
    using 2(3) by (simp add: set_model_price_configs_def get_model_price_configs_def validate_model_price_configs_def)
qed simp

lemma store_read_store_witness:
  "set_model_price_configs (get_model_price_configs (Some [(''m'', video_prices [(''2x1'', 2)])])) None =
     (None, Some [(''m'', video_prices [(''2x1'', 2)])])"
  by (rule store_read_store [OF example_stored]) (simp_all add: config_examples ascii_sizes_def)

definition embedding_prices :: embedding_local where
  "embedding_prices = \<lparr>le_text_token_ratio = 1, le_image_token_ratio = 2, le_audio_token_ratio = 0,
     le_video_token_ratio = 0, le_document_token_ratio = 0, le_usd_per_image = 0, le_usd_per_audio_second = 0,
     le_usd_per_video_frame = 0, le_usd_per_document_page = 0\<rparr>"

text \<open>
  The embedding prices an administrator submits for a channel are never stored, although
  \<open>convertLocalModelConfig\<close> would read them: \<open>normalizeModelConfigLocal\<close> leaves the field out. A model
  with embedding prices and nothing else is refused as having no meaningful configuration.
\<close>

theorem embedding_prices_dropped:
  "set_model_price_configs [(''m'', plain_config\<lparr>lc_embedding := Some embedding_prices\<rparr>)] column =
     (None, Some [(''m'', plain_config)]) \<and>
   set_model_price_configs [(''m'', plain_config\<lparr>lc_ratio := 0, lc_completion_ratio := 0,
       lc_embedding := Some embedding_prices\<rparr>)] column =
     (Some ''no meaningful configuration data'', column)"
proof -
  have "set_model_price_configs [(''m'', plain_config\<lparr>lc_embedding := Some embedding_prices\<rparr>)] column =
     (None, Some [(''m'', plain_config)])" by code_simp
  moreover have "set_model_price_configs [(''m'', plain_config\<lparr>lc_ratio := 0, lc_completion_ratio := 0,
       lc_embedding := Some embedding_prices\<rparr>)] column =
     (Some ''no meaningful configuration data'', column)" by code_simp
  ultimately show ?thesis by simp
qed

text \<open>
  Two spellings of one resolution in a submitted price table are merged, and which multiplier
  survives depends on the order in which Go iterates over the map, which the language leaves open: the
  same request can store either price.
\<close>

theorem resolution_order_decides:
  "set_model_price_configs [(''m'', video_prices [(''1x2'', 2), (''2x1'', 3)])] column =
     (None, Some [(''m'', video_prices [(''2x1'', 3)])]) \<and>
   set_model_price_configs [(''m'', video_prices [(''2x1'', 3), (''1x2'', 2)])] column =
     (None, Some [(''m'', video_prices [(''2x1'', 2)])])"
proof -
  have "set_model_price_configs [(''m'', video_prices [(''1x2'', 2), (''2x1'', 3)])] column =
     (None, Some [(''m'', video_prices [(''2x1'', 3)])])" by code_simp
  moreover have "set_model_price_configs [(''m'', video_prices [(''2x1'', 3), (''1x2'', 2)])] column =
     (None, Some [(''m'', video_prices [(''2x1'', 2)])])" by code_simp
  ultimately show ?thesis by simp
qed

end
