(* ===== verification/Float64.thy ===== *)
theory Float64
  imports Complex_Main
begin

text \<open>
  Go's \<open>float64\<close> arithmetic as rationals rounded to the nearest binary64 number, ties to
  even. A value of type \<open>rat\<close> stands for the float; \<open>f64\<close> is applied after each operation,
  the way amd64 evaluates it (no fused multiply-add). Infinities and NaN do not occur: the
  exponent is not bounded above, which differs from the hardware only beyond \<open>2 ^ 1024\<close>.

  \<open>float_rounding\<close> states what the price computations rely on.
\<close>

text \<open>The number of binary digits of an integer, zero for a negative one.\<close>

fun bits :: "int \<Rightarrow> nat" where
  "bits n = (if n \<le> 0 then 0 else Suc (bits (n div 2)))"

declare bits.simps [simp del]

text \<open>The exponent of the leading bit of a positive rational.\<close>

definition lead_exp :: "rat \<Rightarrow> int" where
  "lead_exp x = (if 1 \<le> x then int (bits \<lfloor>x\<rfloor>) - 1 else - int (bits (\<lceil>1 / x\<rceil> - 1)))"

definition round_half_even :: "rat \<Rightarrow> int" where
  "round_half_even y = (let f = \<lfloor>y\<rfloor>; d = y - of_int f
     in if d < 1 / 2 then f else if d > 1 / 2 then f + 1 else if even f then f else f + 1)"

text \<open>The exponent of the last of 53 bits, at least that of the subnormal numbers.\<close>

definition ulp_exp :: "rat \<Rightarrow> int" where
  "ulp_exp x = max (lead_exp x - 52) (- 1074)"

definition f64_pos :: "rat \<Rightarrow> rat" where
  "f64_pos x = (let u = 2 powi (ulp_exp x) in of_int (round_half_even (x / u)) * u)"

definition f64 :: "rat \<Rightarrow> rat" where
  "f64 x = (if x = 0 then 0 else if x < 0 then - f64_pos (- x) else f64_pos x)"

definition fadd :: "rat \<Rightarrow> rat \<Rightarrow> rat" where "fadd x y = f64 (x + y)"
definition fsub :: "rat \<Rightarrow> rat \<Rightarrow> rat" where "fsub x y = f64 (x - y)"
definition fmul :: "rat \<Rightarrow> rat \<Rightarrow> rat" where "fmul x y = f64 (x * y)"
definition fdiv :: "rat \<Rightarrow> rat \<Rightarrow> rat" where "fdiv x y = f64 (x / y)"
definition of_go_int :: "int \<Rightarrow> rat" where "of_go_int n = f64 (of_int n)"

lemmas float_ops = fadd_def fsub_def fmul_def fdiv_def of_go_int_def

subsection \<open>Exponents\<close>

lemma bits_numeral [simp]:
  "bits 0 = 0" "bits 1 = 1"
  "bits (numeral (num.Bit0 k)) = Suc (bits (numeral k))"
  "bits (numeral (num.Bit1 k)) = Suc (bits (numeral k))"
proof -
  show "bits 0 = 0" "bits 1 = 1" by (simp_all add: bits.simps)
  have "numeral (num.Bit0 k) div 2 = (numeral k :: int)" "numeral (num.Bit1 k) div 2 = (numeral k :: int)"
    by simp_all
  then show "bits (numeral (num.Bit0 k)) = Suc (bits (numeral k))"
    "bits (numeral (num.Bit1 k)) = Suc (bits (numeral k))"
    by (subst bits.simps, simp)+
qed

lemma bits_bounds: "0 < n \<Longrightarrow> 2 ^ (bits n - 1) \<le> n \<and> n < 2 ^ bits n \<and> 0 < bits n"
proof (induction n rule: bits.induct)
  case (1 n)
  have step: "bits n = Suc (bits (n div 2))" using 1 by (subst bits.simps) simp
  have half: "n = 2 * (n div 2) + n mod 2" "0 \<le> n mod 2" "n mod 2 < 2" by simp_all
  show ?case
  proof (cases "n div 2 \<le> 0")
    case True
    with 1 half have "n = 1" by linarith
    moreover have "bits 1 = 1" by (simp add: bits.simps)
    ultimately show ?thesis by simp
  next
    case False
    with 1 have ih: "2 ^ (bits (n div 2) - 1) \<le> n div 2" "n div 2 < 2 ^ bits (n div 2)"
      "0 < bits (n div 2)" by auto
    from ih(3) have "(2 :: int) ^ bits (n div 2) = 2 * 2 ^ (bits (n div 2) - 1)"
      by (cases "bits (n div 2)") auto
    then have "2 ^ bits (n div 2) \<le> n" "n < 2 * 2 ^ bits (n div 2)" using ih half by linarith+
    then show ?thesis unfolding step by simp
  qed
qed

lemma bits_bounds_rat:
  assumes "0 < p"
  shows "2 powi (int (bits p) - 1) \<le> (of_int p :: rat)"
    and "(of_int p :: rat) + 1 \<le> 2 powi int (bits p)"
proof -
  from bits_bounds [OF assms] have b: "2 ^ (bits p - 1) \<le> p" "p + 1 \<le> 2 ^ bits p" "0 < bits p"
    by auto
  have "(2 :: rat) powi (int (bits p) - 1) = of_int (2 ^ (bits p - 1))"
    using b(3) by (simp add: power_int_def nat_diff_distrib')
  then show "2 powi (int (bits p) - 1) \<le> (of_int p :: rat)"
    using b(1) by (simp only: of_int_le_iff)
  have "(of_int (p + 1) :: rat) \<le> of_int (2 ^ bits p)" using b(2) by (simp only: of_int_le_iff)
  then show "(of_int p :: rat) + 1 \<le> 2 powi int (bits p)" by (simp add: power_int_def)
qed

lemma lead_exp_bounds:
  assumes "0 < x"
  shows "2 powi (lead_exp x) \<le> x \<and> x < 2 powi (lead_exp x + 1)"
proof (cases "1 \<le> x")
  case True
  then have "0 < \<lfloor>x\<rfloor>" by simp
  from bits_bounds_rat [OF this] True show ?thesis
    using floor_correct [of x] by (auto simp: lead_exp_def intro: order_trans)
next
  case False
  define m where "m = \<lceil>1 / x\<rceil> - 1"
  have "1 < 1 / x" using False assms by (simp add: less_divide_eq)
  then have m: "0 < m" by (simp add: m_def less_ceiling_iff)
  have c: "of_int m < 1 / x" "1 / x \<le> of_int m + 1"
    using ceiling_correct [of "1 / x"] by (auto simp: m_def)
  with bits_bounds_rat [OF m] have b: "2 powi (int (bits m) - 1) < 1 / x" "1 / x \<le> 2 powi int (bits m)"
    by linarith+
  have inv: "(2 :: rat) powi (- k) = 1 / 2 powi k" for k by (simp add: power_int_minus field_simps)
  have pos: "0 < (2 :: rat) powi k" for k by simp
  have "x < 2 powi (- (int (bits m) - 1))"
    unfolding inv using b(1) assms pos [of "int (bits m) - 1"] by (simp add: field_simps)
  moreover have "2 powi (- int (bits m)) \<le> x"
    unfolding inv using b(2) assms pos [of "int (bits m)"] by (simp add: field_simps)
  ultimately show ?thesis using False by (simp add: lead_exp_def m_def)
qed

lemma lead_exp_mono:
  assumes "0 < x" and "x \<le> y"
  shows "lead_exp x \<le> lead_exp y"
proof (rule ccontr)
  assume "\<not> lead_exp x \<le> lead_exp y"
  then have "(2 :: rat) powi (lead_exp y + 1) \<le> 2 powi (lead_exp x)" by (intro power_int_increasing) auto
  with lead_exp_bounds [of x] lead_exp_bounds [of y] assms show False by auto
qed

subsection \<open>Rounding to an integer\<close>

lemma round_half_even_int [simp]: "round_half_even (of_int n) = n"
  by (simp add: round_half_even_def)

lemma round_half_even_near: "\<lfloor>y\<rfloor> \<le> round_half_even y \<and> round_half_even y \<le> \<lfloor>y\<rfloor> + 1"
  by (simp add: round_half_even_def Let_def)

lemma round_half_even_mono: "x \<le> y \<Longrightarrow> round_half_even x \<le> round_half_even y"
proof -
  assume xy: "x \<le> y"
  then have f: "\<lfloor>x\<rfloor> \<le> \<lfloor>y\<rfloor>" by (rule floor_mono)
  show ?thesis
  proof (cases "\<lfloor>x\<rfloor> = \<lfloor>y\<rfloor>")
    case True
    with xy show ?thesis by (auto simp: round_half_even_def Let_def)
  next
    case False
    with f have "\<lfloor>x\<rfloor> + 1 \<le> \<lfloor>y\<rfloor>" by simp
    with round_half_even_near [of x] round_half_even_near [of y] show ?thesis by linarith
  qed
qed

subsection \<open>Rounding to a binary64 number\<close>

lemma f64_0 [simp]: "f64 0 = 0"
  by (simp add: f64_def)

lemma f64_pos_scale: "0 < x \<Longrightarrow> f64_pos x = of_int (round_half_even (x / 2 powi (ulp_exp x))) * 2 powi (ulp_exp x)"
  by (simp add: f64_pos_def Let_def)

lemma round_half_even_le_int: "y \<le> of_int n \<Longrightarrow> round_half_even y \<le> n"
  using round_half_even_mono [of y "of_int n"] by simp

lemma round_half_even_ge_int: "of_int n \<le> y \<Longrightarrow> n \<le> round_half_even y"
  using round_half_even_mono [of "of_int n" y] by simp

lemma f64_pos_nonneg: "0 < x \<Longrightarrow> 0 \<le> f64_pos x"
  using round_half_even_ge_int [of 0 "x / 2 powi (ulp_exp x)"] by (simp add: f64_pos_scale)

text \<open>A multiple of the last bit's weight above or below the operand bounds the result.\<close>

lemma f64_pos_le_multiple:
  "0 < x \<Longrightarrow> x \<le> of_int n * 2 powi (ulp_exp x) \<Longrightarrow> f64_pos x \<le> of_int n * 2 powi (ulp_exp x)"
  using round_half_even_le_int [of "x / 2 powi (ulp_exp x)" n]
  by (simp add: f64_pos_scale divide_le_eq)

lemma f64_pos_ge_multiple:
  "0 < x \<Longrightarrow> of_int n * 2 powi (ulp_exp x) \<le> x \<Longrightarrow> of_int n * 2 powi (ulp_exp x) \<le> f64_pos x"
  using round_half_even_ge_int [of n "x / 2 powi (ulp_exp x)"]
  by (simp add: f64_pos_scale le_divide_eq)

lemma powi_split:
  assumes "a \<le> b"
  shows "(2 :: rat) powi b = of_int (2 ^ nat (b - a)) * 2 powi a"
proof -
  have "(2 :: rat) powi b = 2 powi ((b - a) + a)" by simp
  also have "\<dots> = 2 powi (b - a) * 2 powi a" by (rule power_int_add) simp
  also have "(2 :: rat) powi (b - a) = 2 ^ nat (b - a)" using assms by (simp add: power_int_def)
  finally show ?thesis by simp
qed

lemma ulp_exp_mono: "0 < x \<Longrightarrow> x \<le> y \<Longrightarrow> ulp_exp x \<le> ulp_exp y"
  using lead_exp_mono [of x y] by (auto simp: ulp_exp_def)

lemma f64_pos_mono:
  assumes "0 < x" and "x \<le> y"
  shows "f64_pos x \<le> f64_pos y"
proof (cases "ulp_exp x = ulp_exp y")
  case True
  have "x / 2 powi (ulp_exp y) \<le> y / 2 powi (ulp_exp y)"
    using assms(2) by (intro divide_right_mono) auto
  then show ?thesis
    using assms True by (simp add: f64_pos_scale round_half_even_mono)
next
  case False
  with ulp_exp_mono [OF assms] have lt: "ulp_exp x < ulp_exp y" by simp
  then have e: "ulp_exp y = lead_exp y - 52" and le: "lead_exp x < lead_exp y"
    by (auto simp: ulp_exp_def)
  have below: "ulp_exp x \<le> lead_exp y" using lt e by simp
  have y0: "0 < y" using assms by simp
  have "x \<le> 2 powi (lead_exp x + 1)" using lead_exp_bounds [OF assms(1)] by simp
  also have "\<dots> \<le> 2 powi (lead_exp y)" using le by (intro power_int_increasing) auto
  finally have "f64_pos x \<le> 2 powi (lead_exp y)"
    using f64_pos_le_multiple [OF assms(1), of "2 ^ nat (lead_exp y - ulp_exp x)"] powi_split [OF below]
    by simp
  also have "2 powi (lead_exp y) \<le> f64_pos y"
    using f64_pos_ge_multiple [OF y0, of "2 ^ nat (lead_exp y - ulp_exp y)"]
      powi_split [of "ulp_exp y" "lead_exp y"] lead_exp_bounds [OF y0] e by simp
  finally show ?thesis .
qed

lemma f64_nonneg: "0 \<le> x \<Longrightarrow> 0 \<le> f64 x"
  using f64_pos_nonneg [of x] by (auto simp: f64_def)

lemma f64_nonpos: "x \<le> 0 \<Longrightarrow> f64 x \<le> 0"
  using f64_pos_nonneg [of "- x"] by (auto simp: f64_def)

lemma f64_mono: "x \<le> y \<Longrightarrow> f64 x \<le> f64 y"
proof -
  assume xy: "x \<le> y"
  consider "0 < x" | "x \<le> 0" "0 \<le> y" | "y < 0" by linarith
  then show ?thesis
  proof cases
    case 1
    with xy f64_pos_mono [of x y] show ?thesis by (simp add: f64_def)
  next
    case 2
    with f64_nonpos [of x] f64_nonneg [of y] show ?thesis by linarith
  next
    case 3
    with xy f64_pos_mono [of "- y" "- x"] show ?thesis by (simp add: f64_def)
  qed
qed

text \<open>Integers of at most 53 bits are floats.\<close>

lemma f64_pos_int:
  assumes "0 < n" and "n < 2 ^ 53"
  shows "f64_pos (of_int n) = of_int n"
proof (cases "lead_exp (of_int n) \<le> 52")
  case True
  then have u: "ulp_exp (of_int n) \<le> 0" by (simp add: ulp_exp_def)
  from powi_split [OF u] have "(1 :: rat) = of_int (2 ^ nat (- ulp_exp (of_int n))) * 2 powi (ulp_exp (of_int n))"
    by simp
  then have "(of_int n :: rat) = of_int (n * 2 ^ nat (- ulp_exp (of_int n))) * 2 powi (ulp_exp (of_int n))"
    by (metis mult.assoc mult.right_neutral of_int_mult)
  then show ?thesis
    using assms(1) f64_pos_le_multiple [of "of_int n"] f64_pos_ge_multiple [of "of_int n"]
    by (metis antisym of_int_0_less_iff order_refl)
next
  case False
  have "2 powi (lead_exp (of_int n)) \<le> (of_int n :: rat)" using lead_exp_bounds [of "of_int n"] assms by simp
  moreover have "(2 :: rat) powi 53 \<le> 2 powi (lead_exp (of_int n))" using False by (intro power_int_increasing) auto
  moreover have "(of_int n :: rat) < of_int (2 ^ 53)" using assms(2) by (simp only: of_int_less_iff)
  moreover have "(2 :: rat) powi 53 = of_int (2 ^ 53)" by (simp add: power_int_def)
  ultimately show ?thesis by linarith
qed

lemma f64_of_int: "\<bar>n\<bar> < 2 ^ 53 \<Longrightarrow> f64 (of_int n) = of_int n"
  using f64_pos_int [of n] f64_pos_int [of "- n"] by (auto simp: f64_def)

lemma f64_numeral: "numeral n < (2 ^ 53 :: int) \<Longrightarrow> f64 (numeral n) = numeral n"
  and f64_one: "f64 1 = 1"
  using f64_of_int [of "numeral n"] f64_of_int [of 1] by simp_all

text \<open>Evaluation on a concrete operand.\<close>

lemma rat_floor_numeral:
  "\<lfloor>(numeral a :: rat) / numeral b\<rfloor> = numeral a div numeral b"
  "\<lfloor>- (numeral a :: rat) / numeral b\<rfloor> = - numeral a div numeral b"
  using floor_divide_of_int_eq [of "numeral a" "numeral b", where ?'a = rat]
    floor_divide_of_int_eq [of "- numeral a" "numeral b", where ?'a = rat] by simp_all

lemma rat_ceiling_numeral:
  "\<lceil>(numeral a :: rat) / numeral b\<rceil> = - (- numeral a div numeral b)"
  "\<lceil>- ((numeral a :: rat) / numeral b)\<rceil> = - (numeral a div numeral b)"
  using rat_floor_numeral [of a b] by (simp_all add: ceiling_def)

lemmas f64_eval = f64_def f64_pos_def ulp_exp_def lead_exp_def round_half_even_def
  rat_floor_numeral rat_ceiling_numeral power_int_def power_one_over Let_def

lemma f64_seven_hundredths: "f64 (7 / 100) = 1261007895663739 / 18014398509481984"
  by (simp add: f64_eval)

subsection \<open>The interface of the price computations\<close>

locale float_rounding =
  fixes rnd :: "rat \<Rightarrow> rat"
  assumes rnd_mono: "x \<le> y \<Longrightarrow> rnd x \<le> rnd y"
    and rnd_int: "\<bar>n\<bar> < 2 ^ 53 \<Longrightarrow> rnd (of_int n) = of_int n"
begin

lemma rnd_zero: "rnd 0 = 0"
  using rnd_int [of 0] by simp

lemma rnd_one: "rnd 1 = 1"
  using rnd_int [of 1] by simp

lemma rnd_ge_int: "of_int n \<le> x \<Longrightarrow> \<bar>n\<bar> < 2 ^ 53 \<Longrightarrow> of_int n \<le> rnd x"
  using rnd_mono [of "of_int n" x] rnd_int [of n] by simp

lemma rnd_nonneg: "0 \<le> x \<Longrightarrow> 0 \<le> rnd x"
  using rnd_ge_int [of 0 x] by simp

lemma add_mono: "a \<le> c \<Longrightarrow> b \<le> d \<Longrightarrow> rnd (a + b) \<le> rnd (c + d)"
  by (rule rnd_mono) simp

lemma mult_mono_left: "a \<le> b \<Longrightarrow> 0 \<le> c \<Longrightarrow> rnd (a * c) \<le> rnd (b * c)"
  by (rule rnd_mono) (rule mult_right_mono)

lemma ceil_mono: "a \<le> b \<Longrightarrow> \<lceil>rnd a\<rceil> \<le> \<lceil>rnd b\<rceil>"
  by (rule ceiling_mono) (rule rnd_mono)

end

interpretation binary64: float_rounding f64
  by unfold_locales (auto intro: f64_mono f64_of_int)

end
