(* ===== verification/Pricing.thy ===== *)
theory Pricing
  imports PricingConfig Float64
begin

text \<open>
  Price resolution: \<open>relay/adaptor/interface.go\<close> (the records an adaptor publishes),
  \<open>relay/pricing/global.go\<close> (the global fallback table merged from the contributing adaptors, the layered
  lookups, the tiers) and \<open>relay/pricing/resolver.go\<close> (configurations and media prices by layer).

  An adaptor is an interface value: the record \<open>provider\<close> holds the three pricing methods the code calls.
  \<open>gpm\<close> is the package variable \<open>globalPricingManager\<close>; each exported function takes its mutex for its
  whole body, so it is one step on that state. The clones of the source are copies of values here.
\<close>

subsection \<open>Records of an adaptor\<close>

record model_ratio_tier =
  t_ratio :: rat
  t_completion_ratio :: rat
  t_cached_input_ratio :: rat
  t_cache_write_5m_ratio :: rat
  t_cache_write_1h_ratio :: rat
  t_input_token_threshold :: int

record video_pricing =
  v_per_second_usd :: rat
  v_base_resolution :: string
  v_resolution_multipliers :: "(string, rat) gomap"

record audio_pricing =
  a_prompt_ratio :: rat
  a_completion_ratio :: rat
  a_prompt_tokens_per_second :: rat
  a_completion_tokens_per_second :: rat
  a_usd_per_second :: rat

record image_pricing =
  i_price_per_image_usd :: rat
  i_prompt_ratio :: rat
  i_default_size :: string
  i_default_quality :: string
  i_prompt_token_limit :: int
  i_min_images :: int
  i_max_images :: int
  i_size_multipliers :: "(string, rat) gomap"
  i_quality_multipliers :: "(string, rat) gomap"
  i_quality_size_multipliers :: "(string, (string, rat) gomap) gomap"

record embedding_pricing =
  text_token_ratio :: rat
  image_token_ratio :: rat
  audio_token_ratio :: rat
  video_token_ratio :: rat
  document_token_ratio :: rat
  usd_per_image :: rat
  usd_per_audio_second :: rat
  usd_per_video_frame :: rat
  usd_per_document_page :: rat

record model_config =
  c_ratio :: rat
  c_completion_ratio :: rat
  c_cached_input_ratio :: rat
  c_cache_write_5m_ratio :: rat
  c_cache_write_1h_ratio :: rat
  c_tiers :: "model_ratio_tier list"
  c_max_tokens :: int
  c_video :: "video_pricing option"
  c_audio :: "audio_pricing option"
  c_image :: "image_pricing option"
  c_embedding :: "embedding_pricing option"

definition empty_config :: model_config where
  "empty_config = \<lparr>c_ratio = 0, c_completion_ratio = 0, c_cached_input_ratio = 0, c_cache_write_5m_ratio = 0,
     c_cache_write_1h_ratio = 0, c_tiers = [], c_max_tokens = 0, c_video = None, c_audio = None,
     c_image = None, c_embedding = None\<rparr>"

definition embedding_has_data :: "embedding_pricing option \<Rightarrow> bool" where
  "embedding_has_data cfg =
     (case cfg of None \<Rightarrow> False
      | Some e \<Rightarrow> text_token_ratio e \<noteq> 0 \<or> image_token_ratio e \<noteq> 0 \<or> audio_token_ratio e \<noteq> 0 \<or>
         video_token_ratio e \<noteq> 0 \<or> document_token_ratio e \<noteq> 0 \<or> usd_per_image e \<noteq> 0 \<or>
         usd_per_audio_second e \<noteq> 0 \<or> usd_per_video_frame e \<noteq> 0 \<or> usd_per_document_page e \<noteq> 0)"

definition video_has_data :: "video_pricing option \<Rightarrow> bool" where
  "video_has_data cfg =
     (case cfg of None \<Rightarrow> False
      | Some v \<Rightarrow> if v_per_second_usd v > 0 then True else length (v_resolution_multipliers v) > 0)"

definition audio_has_data :: "audio_pricing option \<Rightarrow> bool" where
  "audio_has_data cfg =
     (case cfg of None \<Rightarrow> False
      | Some a \<Rightarrow> a_prompt_ratio a \<noteq> 0 \<or> a_completion_ratio a \<noteq> 0 \<or> a_prompt_tokens_per_second a \<noteq> 0 \<or>
         a_completion_tokens_per_second a \<noteq> 0 \<or> a_usd_per_second a \<noteq> 0)"

definition image_has_data :: "image_pricing option \<Rightarrow> bool" where
  "image_has_data cfg =
     (case cfg of None \<Rightarrow> False
      | Some i \<Rightarrow>
         if i_price_per_image_usd i > 0 \<or> i_prompt_ratio i > 0 \<or> i_prompt_token_limit i > 0 \<or>
            i_min_images i > 0 \<or> i_max_images i > 0 then True
         else length (i_size_multipliers i) > 0 \<or> length (i_quality_multipliers i) > 0 \<or>
              length (i_quality_size_multipliers i) > 0)"

text \<open>The same text as \<open>normalizeVideoResolutionKey\<close> in \<open>model/channel.go\<close>.\<close>

definition normalize_resolution_key :: "string \<Rightarrow> string" where
  "normalize_resolution_key value =
     (let trimmed = trim_space (to_lower value) in
      if trimmed = [] then []
      else (case size_fields trimmed of
          [w, h] \<Rightarrow>
            (case (atoi w, atoi h) of
               (Some width, Some height) \<Rightarrow>
                 if width \<le> 0 \<or> height \<le> 0 then trimmed
                 else if width < height then itoa height @ ''x'' @ itoa width
                 else itoa width @ ''x'' @ itoa height
             | _ \<Rightarrow> trimmed)
        | _ \<Rightarrow> trimmed))"

definition positive_multiplier :: "(string, rat) gomap \<Rightarrow> string \<Rightarrow> rat option" where
  "positive_multiplier m key =
     (if key \<noteq> [] \<and> length m > 0
      then (case map_of m key of Some r \<Rightarrow> if r > 0 then Some r else None | None \<Rightarrow> None) else None)"

definition effective_multiplier :: "video_pricing option \<Rightarrow> string \<Rightarrow> rat" where
  "effective_multiplier cfg resolution =
     (case cfg of None \<Rightarrow> 1
      | Some v \<Rightarrow>
         let normalized = normalize_resolution_key resolution;
             trimmed = trim_space (to_lower resolution) in
         (case positive_multiplier (v_resolution_multipliers v) normalized of Some r \<Rightarrow> r
          | None \<Rightarrow>
         (case positive_multiplier (v_resolution_multipliers v) trimmed of Some r \<Rightarrow> r
          | None \<Rightarrow>
            if v_base_resolution v \<noteq> [] \<and> normalize_resolution_key (v_base_resolution v) \<noteq> [] \<and>
               normalize_resolution_key (v_base_resolution v) = normalized then 1
            else 1)))"

text \<open>\<open>adaptor.Adaptor\<close>, as far as prices go; \<open>default_pricing_methods\<close> is \<open>DefaultPricingMethods\<close>.\<close>

record provider =
  get_default_model_pricing :: "(string, model_config) gomap"
  get_model_ratio :: "string \<Rightarrow> rat"
  get_completion_ratio :: "string \<Rightarrow> rat"

text \<open>\<open>2.5 * billingratio.MilliTokensUsd\<close>, a constant expression.\<close>

definition fallback_ratio :: rat where
  "fallback_ratio = 5 / 4"

definition default_pricing_methods :: provider where
  "default_pricing_methods = \<lparr>get_default_model_pricing = [], get_model_ratio = (\<lambda>_. fallback_ratio),
     get_completion_ratio = (\<lambda>_. 1)\<rparr>"

subsection \<open>Copies of a channel's records\<close>

definition convert_tier :: "tier_local \<Rightarrow> model_ratio_tier" where
  "convert_tier t = \<lparr>t_ratio = lt_ratio t, t_completion_ratio = lt_completion_ratio t,
     t_cached_input_ratio = lt_cached_input_ratio t, t_cache_write_5m_ratio = lt_cache_write_5m_ratio t,
     t_cache_write_1h_ratio = lt_cache_write_1h_ratio t,
     t_input_token_threshold = lt_input_token_threshold t\<rparr>"

definition convert_local_video :: "video_local option \<Rightarrow> video_pricing option" where
  "convert_local_video = map_option (\<lambda>v. \<lparr>v_per_second_usd = lv_per_second_usd v,
     v_base_resolution = lv_base_resolution v, v_resolution_multipliers = lv_resolution_multipliers v\<rparr>)"

definition convert_local_audio :: "audio_local option \<Rightarrow> audio_pricing option" where
  "convert_local_audio = map_option (\<lambda>a. \<lparr>a_prompt_ratio = la_prompt_ratio a,
     a_completion_ratio = la_completion_ratio a, a_prompt_tokens_per_second = la_prompt_tokens_per_second a,
     a_completion_tokens_per_second = la_completion_tokens_per_second a,
     a_usd_per_second = la_usd_per_second a\<rparr>)"

definition convert_local_image :: "image_local option \<Rightarrow> image_pricing option" where
  "convert_local_image = map_option (\<lambda>i. \<lparr>i_price_per_image_usd = li_price_per_image_usd i,
     i_prompt_ratio = li_prompt_ratio i, i_default_size = li_default_size i,
     i_default_quality = li_default_quality i, i_prompt_token_limit = li_prompt_token_limit i,
     i_min_images = li_min_images i, i_max_images = li_max_images i,
     i_size_multipliers = li_size_multipliers i, i_quality_multipliers = li_quality_multipliers i,
     i_quality_size_multipliers = li_quality_size_multipliers i\<rparr>)"

definition convert_local_embedding :: "embedding_local option \<Rightarrow> embedding_pricing option" where
  "convert_local_embedding = map_option (\<lambda>e. \<lparr>text_token_ratio = le_text_token_ratio e,
     image_token_ratio = le_image_token_ratio e, audio_token_ratio = le_audio_token_ratio e,
     video_token_ratio = le_video_token_ratio e, document_token_ratio = le_document_token_ratio e,
     usd_per_image = le_usd_per_image e, usd_per_audio_second = le_usd_per_audio_second e,
     usd_per_video_frame = le_usd_per_video_frame e, usd_per_document_page = le_usd_per_document_page e\<rparr>)"

text \<open>
  \<open>sort.Slice\<close> by threshold. It need not be stable, but for the at most twelve tiers of a real table it
  is an insertion sort, which is; \<open>sort_key\<close> is the stable sort.
\<close>

definition sort_tiers :: "model_ratio_tier list \<Rightarrow> model_ratio_tier list" where
  "sort_tiers = sort_key t_input_token_threshold"

definition convert_local_model_config_ratio_only :: "model_config_local \<Rightarrow> model_config" where
  "convert_local_model_config_ratio_only c = empty_config\<lparr>
     c_ratio := lc_ratio c, c_completion_ratio := lc_completion_ratio c,
     c_cached_input_ratio := lc_cached_input_ratio c,
     c_cache_write_5m_ratio := lc_cache_write_5m_ratio c,
     c_cache_write_1h_ratio := lc_cache_write_1h_ratio c,
     c_max_tokens := lc_max_tokens c,
     c_tiers := sort_tiers (map convert_tier (lc_tiers c))\<rparr>"

definition convert_local_model_config :: "model_config_local \<Rightarrow> model_config" where
  "convert_local_model_config c = empty_config\<lparr>
     c_ratio := lc_ratio c, c_completion_ratio := lc_completion_ratio c,
     c_cached_input_ratio := lc_cached_input_ratio c,
     c_cache_write_5m_ratio := lc_cache_write_5m_ratio c,
     c_cache_write_1h_ratio := lc_cache_write_1h_ratio c,
     c_max_tokens := lc_max_tokens c,
     c_tiers := sort_tiers (map convert_tier (lc_tiers c)),
     c_video := convert_local_video (lc_video c), c_audio := convert_local_audio (lc_audio c),
     c_image := convert_local_image (lc_image c),
     c_embedding := convert_local_embedding (lc_embedding c)\<rparr>"

definition ratio_only :: "model_config \<Rightarrow> model_config" where
  "ratio_only cfg = cfg\<lparr>c_video := None, c_audio := None, c_image := None\<rparr>"

subsection \<open>The global table\<close>

record gpm =
  global_model_pricing :: "(string, model_config) gomap"
  contributing_adapters :: "int list option"
  initialized :: bool
  get_adaptor_func :: "(int \<Rightarrow> provider option) option"

definition new_gpm :: gpm where
  "new_gpm = \<lparr>global_model_pricing = [], contributing_adapters = None, initialized = False,
     get_adaptor_func = None\<rparr>"

text \<open>
  \<open>DefaultGlobalPricingAdapters\<close>: OpenAI, Anthropic, Gemini, Ali, Baidu, Zhipu, DeepSeek, Groq, Mistral,
  Moonshot, Cohere, Tencent, Xunfei, by their values in \<open>relay/apitype\<close>.
\<close>

definition default_global_pricing_adapters :: "int list" where
  "default_global_pricing_adapters = [0, 1, 9, 5, 3, 4, 19, 20, 21, 22, 13, 8, 6]"

text \<open>\<open>mergeAdapterPricing\<close>: a model that is already there keeps its price.\<close>

definition merge_model ::
  "string \<times> model_config \<Rightarrow> (string, model_config) gomap \<Rightarrow> (string, model_config) gomap" where
  "merge_model e table =
     (case map_of table (fst e) of Some existing \<Rightarrow> table
      | None \<Rightarrow> AList.update (fst e) (snd e) table)"

definition merge_adapter_pricing ::
  "(int \<Rightarrow> provider option) \<Rightarrow> int \<Rightarrow> (string, model_config) gomap \<Rightarrow>
   bool \<times> (string, model_config) gomap" where
  "merge_adapter_pricing get_adaptor api_type table =
     (case get_adaptor api_type of None \<Rightarrow> (False, table)
      | Some adaptor \<Rightarrow>
         if length (get_default_model_pricing adaptor) = 0 then (False, table)
         else (True, fold merge_model (get_default_model_pricing adaptor) table))"

definition initialize_unsafe :: "gpm \<Rightarrow> gpm" where
  "initialize_unsafe g =
     (case get_adaptor_func g of None \<Rightarrow> g
      | Some f \<Rightarrow>
         g\<lparr>global_model_pricing :=
             fold (\<lambda>api table. snd (merge_adapter_pricing f api table))
               (case contributing_adapters g of None \<Rightarrow> [] | Some l \<Rightarrow> l) [],
           initialized := True\<rparr>)"

definition ensure_initialized :: "gpm \<Rightarrow> gpm" where
  "ensure_initialized g =
     (if initialized g \<or> Option.is_none (get_adaptor_func g) then g else initialize_unsafe g)"

definition initialize_global_pricing_manager :: "(int \<Rightarrow> provider option) \<Rightarrow> gpm \<Rightarrow> gpm" where
  "initialize_global_pricing_manager f g =
     (let g1 = g\<lparr>get_adaptor_func := Some f\<rparr>;
          g2 = (case contributing_adapters g1 of
                  None \<Rightarrow> g1\<lparr>contributing_adapters := Some default_global_pricing_adapters\<rparr>
                | Some l \<Rightarrow> g1) in
      g2\<lparr>initialized := False\<rparr>)"

definition set_contributing_adapters :: "int list \<Rightarrow> gpm \<Rightarrow> gpm" where
  "set_contributing_adapters api_types g =
     g\<lparr>contributing_adapters := Some api_types, initialized := False\<rparr>"

definition reload_default_configuration :: "gpm \<Rightarrow> gpm" where
  "reload_default_configuration g =
     g\<lparr>contributing_adapters := Some default_global_pricing_adapters, initialized := False\<rparr>"

definition reload_global_pricing :: "gpm \<Rightarrow> gpm" where
  "reload_global_pricing g = initialize_unsafe (g\<lparr>initialized := False\<rparr>)"

definition get_contributing_adapters :: "gpm \<Rightarrow> int list" where
  "get_contributing_adapters g = (case contributing_adapters g of None \<Rightarrow> [] | Some l \<Rightarrow> l)"

definition get_global_model_ratio :: "string \<Rightarrow> gpm \<Rightarrow> rat option \<times> gpm" where
  "get_global_model_ratio name g =
     (let g' = ensure_initialized g in (map_option c_ratio (map_of (global_model_pricing g') name), g'))"

definition get_global_completion_ratio :: "string \<Rightarrow> gpm \<Rightarrow> rat option \<times> gpm" where
  "get_global_completion_ratio name g =
     (let g' = ensure_initialized g in
      (map_option c_completion_ratio (map_of (global_model_pricing g') name), g'))"

definition get_global_model_pricing :: "gpm \<Rightarrow> (string, model_config) gomap \<times> gpm" where
  "get_global_model_pricing g = (let g' = ensure_initialized g in (global_model_pricing g', g'))"

definition get_global_model_config :: "string \<Rightarrow> gpm \<Rightarrow> model_config option \<times> gpm" where
  "get_global_model_config name g =
     (let g' = ensure_initialized g in (map_of (global_model_pricing g') name, g'))"

definition get_global_model_config_ratio_only :: "string \<Rightarrow> gpm \<Rightarrow> model_config option \<times> gpm" where
  "get_global_model_config_ratio_only name g =
     (let g' = ensure_initialized g in
      (map_option ratio_only (map_of (global_model_pricing g') name), g'))"

definition get_global_video_pricing :: "string \<Rightarrow> gpm \<Rightarrow> video_pricing option \<times> gpm" where
  "get_global_video_pricing name g =
     (let g' = ensure_initialized g in
      (case map_of (global_model_pricing g') name of Some c \<Rightarrow> c_video c | None \<Rightarrow> None, g'))"

definition get_global_audio_pricing :: "string \<Rightarrow> gpm \<Rightarrow> audio_pricing option \<times> gpm" where
  "get_global_audio_pricing name g =
     (let g' = ensure_initialized g in
      (case map_of (global_model_pricing g') name of Some c \<Rightarrow> c_audio c | None \<Rightarrow> None, g'))"

definition get_global_image_pricing :: "string \<Rightarrow> gpm \<Rightarrow> image_pricing option \<times> gpm" where
  "get_global_image_pricing name g =
     (let g' = ensure_initialized g in
      (case map_of (global_model_pricing g') name of Some c \<Rightarrow> c_image c | None \<Rightarrow> None, g'))"

definition get_global_pricing_stats :: "gpm \<Rightarrow> (nat \<times> nat) \<times> gpm" where
  "get_global_pricing_stats g =
     (let g' = ensure_initialized g in
      ((length (global_model_pricing g'), length (get_contributing_adapters g')), g'))"

definition is_global_pricing_initialized :: "gpm \<Rightarrow> bool" where
  "is_global_pricing_initialized g \<longleftrightarrow> initialized g \<and> \<not> Option.is_none (get_adaptor_func g)"

subsection \<open>Layered lookups\<close>

definition get_model_ratio_with_three_layers ::
  "string \<Rightarrow> (string, rat) gomap \<Rightarrow> provider option \<Rightarrow> gpm \<Rightarrow> rat \<times> gpm" where
  "get_model_ratio_with_three_layers name overrides adaptor g =
     (case map_of overrides name of Some override \<Rightarrow> (override, g)
      | None \<Rightarrow>
     (case (case adaptor of None \<Rightarrow> None | Some a \<Rightarrow> map_of (get_default_model_pricing a) name) of
        Some price \<Rightarrow> (c_ratio price, g)
      | None \<Rightarrow>
     (case get_global_model_ratio name g of (Some ratio, g') \<Rightarrow> (ratio, g')
      | (None, g') \<Rightarrow> (fallback_ratio, g'))))"

definition get_completion_ratio_with_three_layers ::
  "string \<Rightarrow> (string, rat) gomap \<Rightarrow> provider option \<Rightarrow> gpm \<Rightarrow> rat \<times> gpm" where
  "get_completion_ratio_with_three_layers name overrides adaptor g =
     (case map_of overrides name of Some override \<Rightarrow> (override, g)
      | None \<Rightarrow>
     (case (case adaptor of None \<Rightarrow> None | Some a \<Rightarrow> map_of (get_default_model_pricing a) name) of
        Some price \<Rightarrow> (c_completion_ratio price, g)
      | None \<Rightarrow>
     (case get_global_completion_ratio name g of (Some ratio, g') \<Rightarrow> (ratio, g')
      | (None, g') \<Rightarrow> (1, g'))))"

definition get_video_pricing_with_three_layers ::
  "string \<Rightarrow> video_pricing option \<Rightarrow> provider option \<Rightarrow> gpm \<Rightarrow> video_pricing option \<times> gpm" where
  "get_video_pricing_with_three_layers name override provider g =
     (if video_has_data override then (override, g)
      else
        let default_video = (case provider of None \<Rightarrow> None
           | Some p \<Rightarrow> (case map_of (get_default_model_pricing p) name of None \<Rightarrow> None
                      | Some c \<Rightarrow> c_video c)) in
        if video_has_data default_video then (default_video, g)
        else (case get_global_video_pricing name g of (cfg, g') \<Rightarrow>
                (if video_has_data cfg then cfg else None, g')))"

subsection \<open>Configurations by layer\<close>

definition provider_config :: "provider option \<Rightarrow> string \<Rightarrow> model_config option" where
  "provider_config provider name =
     (case provider of None \<Rightarrow> None | Some p \<Rightarrow> map_of (get_default_model_pricing p) name)"

definition resolve_model_config ::
  "string \<Rightarrow> price_table \<Rightarrow> provider option \<Rightarrow> gpm \<Rightarrow> model_config option \<times> gpm" where
  "resolve_model_config name channel_configs provider g =
     (case map_of channel_configs name of Some local \<Rightarrow> (Some (convert_local_model_config local), g)
      | None \<Rightarrow>
     (case provider_config provider name of Some cfg \<Rightarrow> (Some cfg, g)
      | None \<Rightarrow> get_global_model_config name g))"

definition resolve_model_config_ratio_only ::
  "string \<Rightarrow> price_table \<Rightarrow> provider option \<Rightarrow> gpm \<Rightarrow> model_config option \<times> gpm" where
  "resolve_model_config_ratio_only name channel_configs provider g =
     (case map_of channel_configs name of
        Some local \<Rightarrow> (Some (convert_local_model_config_ratio_only local), g)
      | None \<Rightarrow>
     (case provider_config provider name of Some cfg \<Rightarrow> (Some (ratio_only cfg), g)
      | None \<Rightarrow> get_global_model_config_ratio_only name g))"

definition resolve_audio_pricing ::
  "string \<Rightarrow> price_table \<Rightarrow> provider option \<Rightarrow> gpm \<Rightarrow> audio_pricing option \<times> gpm" where
  "resolve_audio_pricing name channel_configs provider g =
     (let channel = (case map_of channel_configs name of None \<Rightarrow> None
                     | Some local \<Rightarrow> convert_local_audio (lc_audio local));
          default_audio = (case provider_config provider name of None \<Rightarrow> None | Some c \<Rightarrow> c_audio c) in
      if audio_has_data channel then (channel, g)
      else if audio_has_data default_audio then (default_audio, g)
      else (case get_global_audio_pricing name g of (cfg, g') \<Rightarrow>
              (if audio_has_data cfg then cfg else None, g')))"

definition resolve_image_pricing ::
  "string \<Rightarrow> price_table \<Rightarrow> provider option \<Rightarrow> gpm \<Rightarrow> image_pricing option \<times> gpm" where
  "resolve_image_pricing name channel_configs provider g =
     (let channel = (case map_of channel_configs name of None \<Rightarrow> None
                     | Some local \<Rightarrow> convert_local_image (lc_image local));
          default_image = (case provider_config provider name of None \<Rightarrow> None | Some c \<Rightarrow> c_image c) in
      if image_has_data channel then (channel, g)
      else if image_has_data default_image then (default_image, g)
      else (case get_global_image_pricing name g of (cfg, g') \<Rightarrow>
              (if image_has_data cfg then cfg else None, g')))"

subsection \<open>Tiers\<close>

record effective_pricing =
  input_ratio :: rat
  output_ratio :: rat
  cached_input_ratio :: rat
  cache_write_5m_ratio :: rat
  cache_write_1h_ratio :: rat
  applied_tier_threshold :: int

text \<open>The local variables of the loop over the tiers, with \<open>output_ratio\<close> as the completion ratio.\<close>

definition apply_tier :: "model_ratio_tier \<Rightarrow> effective_pricing \<Rightarrow> effective_pricing" where
  "apply_tier t p =
     \<lparr>input_ratio = (if t_ratio t \<noteq> 0 then t_ratio t else input_ratio p),
      output_ratio = (if t_completion_ratio t \<noteq> 0 then t_completion_ratio t else output_ratio p),
      cached_input_ratio = (if t_cached_input_ratio t \<noteq> 0 then t_cached_input_ratio t else cached_input_ratio p),
      cache_write_5m_ratio =
        (if t_cache_write_5m_ratio t \<noteq> 0 then t_cache_write_5m_ratio t else cache_write_5m_ratio p),
      cache_write_1h_ratio =
        (if t_cache_write_1h_ratio t \<noteq> 0 then t_cache_write_1h_ratio t else cache_write_1h_ratio p),
      applied_tier_threshold = t_input_token_threshold t\<rparr>"

fun tier_loop :: "int \<Rightarrow> model_ratio_tier list \<Rightarrow> effective_pricing \<Rightarrow> effective_pricing" where
  "tier_loop n [] p = p"
| "tier_loop n (t # ts) p = (if n < t_input_token_threshold t then p else tier_loop n ts (apply_tier t p))"

definition resolve_effective_pricing_from_config :: "int \<Rightarrow> model_config \<Rightarrow> effective_pricing" where
  "resolve_effective_pricing_from_config input_tokens base =
     (let p = tier_loop input_tokens (c_tiers base)
                \<lparr>input_ratio = c_ratio base, output_ratio = c_completion_ratio base,
                 cached_input_ratio = c_cached_input_ratio base,
                 cache_write_5m_ratio = c_cache_write_5m_ratio base,
                 cache_write_1h_ratio = c_cache_write_1h_ratio base, applied_tier_threshold = 0\<rparr> in
      p\<lparr>output_ratio := fmul (input_ratio p) (output_ratio p)\<rparr>)"

definition flat_pricing :: "rat \<Rightarrow> rat \<Rightarrow> effective_pricing" where
  "flat_pricing base_in base_comp =
     \<lparr>input_ratio = base_in, output_ratio = fmul base_in base_comp, cached_input_ratio = 0,
      cache_write_5m_ratio = 0, cache_write_1h_ratio = 0, applied_tier_threshold = 0\<rparr>"

definition resolve_effective_pricing :: "string \<Rightarrow> int \<Rightarrow> provider option \<Rightarrow> effective_pricing" where
  "resolve_effective_pricing name input_tokens adaptor =
     (case adaptor of None \<Rightarrow> flat_pricing fallback_ratio 1
      | Some a \<Rightarrow>
         (case map_of (get_default_model_pricing a) name of
            Some base \<Rightarrow> resolve_effective_pricing_from_config input_tokens base
          | None \<Rightarrow> flat_pricing (get_model_ratio a name) (get_completion_ratio a name)))"

subsection \<open>The table the global layer stands for\<close>

text \<open>The price of a model is that of the first contributing adaptor that publishes it.\<close>

fun published :: "(int \<Rightarrow> provider option) \<Rightarrow> int list \<Rightarrow> string \<Rightarrow> model_config option" where
  "published f [] name = None"
| "published f (a # as) name =
     (case provider_config (f a) name of Some c \<Rightarrow> Some c | None \<Rightarrow> published f as name)"

definition global_spec :: "gpm \<Rightarrow> string \<Rightarrow> model_config option" where
  "global_spec g = (case get_adaptor_func g of None \<Rightarrow> Map.empty
                    | Some f \<Rightarrow> published f (get_contributing_adapters g))"

lemma map_of_update: "map_of (AList.update k v m) = (map_of m)(k \<mapsto> v)"
  by (simp add: update_conv')

lemma map_of_merge_models: "map_of (fold merge_model es table) = map_of es ++ map_of table"
proof (induction es arbitrary: table)
  case (Cons e es)
  then show ?case
    by (auto simp: merge_model_def map_of_update fun_eq_iff map_add_def split: option.splits prod.splits)
qed simp

lemma map_of_merge_adapter:
  "map_of (snd (merge_adapter_pricing f a table)) =
     (\<lambda>name. case map_of table name of Some c \<Rightarrow> Some c | None \<Rightarrow> provider_config (f a) name)"
  by (auto simp: merge_adapter_pricing_def map_of_merge_models provider_config_def map_add_def fun_eq_iff
      split: option.splits)

lemma map_of_merge_all:
  "map_of (fold (\<lambda>api table. snd (merge_adapter_pricing f api table)) as table) =
     (\<lambda>name. case map_of table name of Some c \<Rightarrow> Some c | None \<Rightarrow> published f as name)"
  by (induction as arbitrary: table) (auto simp: map_of_merge_adapter fun_eq_iff split: option.splits)

definition gpm_ok :: "gpm \<Rightarrow> bool" where
  "gpm_ok g \<longleftrightarrow>
     (if initialized g then \<not> Option.is_none (get_adaptor_func g) \<and> map_of (global_model_pricing g) = global_spec g
      else Option.is_none (get_adaptor_func g) \<longrightarrow> global_model_pricing g = [])"

lemma initialize_unsafe_ok:
  "get_adaptor_func g = Some f \<Longrightarrow> gpm_ok (initialize_unsafe g)"
  by (auto simp: gpm_ok_def initialize_unsafe_def map_of_merge_all global_spec_def get_contributing_adapters_def
      split: option.splits)

text \<open>The states the manager can be in, whatever is called and in whatever order.\<close>

inductive gpm_reachable :: "gpm \<Rightarrow> bool" where
  start: "gpm_reachable new_gpm"
| init_manager: "gpm_reachable g \<Longrightarrow> gpm_reachable (initialize_global_pricing_manager f g)"
| contribute: "gpm_reachable g \<Longrightarrow> gpm_reachable (set_contributing_adapters as g)"
| reload_default: "gpm_reachable g \<Longrightarrow> gpm_reachable (reload_default_configuration g)"
| reload: "gpm_reachable g \<Longrightarrow> gpm_reachable (reload_global_pricing g)"
| lookup: "gpm_reachable g \<Longrightarrow> gpm_reachable (ensure_initialized g)"

lemma gpm_reachable_ok: "gpm_reachable g \<Longrightarrow> gpm_ok g"
proof (induction rule: gpm_reachable.induct)
  case start
  then show ?case by (simp add: gpm_ok_def new_gpm_def)
next
  case (reload g)
  then show ?case
    using initialize_unsafe_ok [of "g\<lparr>initialized := False\<rparr>"]
    by (cases "get_adaptor_func g")
      (auto simp: reload_global_pricing_def gpm_ok_def initialize_unsafe_def split: if_splits)
next
  case (lookup g)
  then show ?case
    by (cases "get_adaptor_func g") (auto simp: ensure_initialized_def intro: initialize_unsafe_ok)
qed (auto simp: gpm_ok_def initialize_global_pricing_manager_def set_contributing_adapters_def
    reload_default_configuration_def Let_def split: option.splits if_splits)

lemma ensure_initialized_spec:
  assumes "gpm_ok g"
  shows "map_of (global_model_pricing (ensure_initialized g)) = global_spec g"
proof (cases "initialized g")
  case True
  with assms show ?thesis by (simp add: ensure_initialized_def gpm_ok_def)
next
  case False
  with assms show ?thesis
    by (cases "get_adaptor_func g")
      (auto simp: ensure_initialized_def gpm_ok_def initialize_unsafe_def map_of_merge_all global_spec_def
        get_contributing_adapters_def split: option.splits)
qed

text \<open>
  C13. Whatever was called before on the global pricing manager, the price of a model is the channel's
  override, else the adaptor's published price, else that of the first contributing adaptor that
  publishes the model, else 2.5 USD per million tokens: a fold of map overrides.
\<close>

theorem model_ratio_layers:
  assumes "gpm_reachable g"
  shows "fst (get_model_ratio_with_three_layers name overrides adaptor g) =
    (case ((map_option c_ratio \<circ> (global_spec g ++ provider_config adaptor)) ++ map_of overrides) name of
       Some r \<Rightarrow> r | None \<Rightarrow> fallback_ratio)"
proof -
  have "map_of (global_model_pricing (ensure_initialized g)) = global_spec g"
    using assms by (intro ensure_initialized_spec gpm_reachable_ok)
  then show ?thesis
    by (auto simp: get_model_ratio_with_three_layers_def get_global_model_ratio_def provider_config_def Let_def
        map_add_def split: option.splits)
qed

definition one_model :: "string \<Rightarrow> rat \<Rightarrow> provider" where
  "one_model name r = default_pricing_methods\<lparr>
     get_default_model_pricing := [(name, empty_config\<lparr>c_ratio := r, c_completion_ratio := 1\<rparr>)]\<rparr>"

definition two_adaptors :: "int \<Rightarrow> provider option" where
  "two_adaptors a = (if a = 1 then Some (one_model ''m'' 3) else if a = 2 then Some (one_model ''m'' 5) else None)"

lemmas provider_examples = one_model_def two_adaptors_def default_pricing_methods_def empty_config_def

lemma two_adaptors_reachable:
  "gpm_reachable (set_contributing_adapters [7, 2, 1] (initialize_global_pricing_manager two_adaptors new_gpm))"
  by (intro gpm_reachable.intros)

lemma model_ratio_layers_witness:
  "fst (get_model_ratio_with_three_layers ''m'' [(''n'', 9)] None
     (set_contributing_adapters [7, 2, 1] (initialize_global_pricing_manager two_adaptors new_gpm))) = 5"
  by (subst model_ratio_layers [OF two_adaptors_reachable])
    (simp add: global_spec_def set_contributing_adapters_def initialize_global_pricing_manager_def new_gpm_def
      get_contributing_adapters_def provider_config_def provider_examples map_add_def Let_def)

subsection \<open>Tiers as a filter\<close>

text \<open>The last non-zero value of a field among the tiers that apply, or the base value.\<close>

definition last_set :: "(model_ratio_tier \<Rightarrow> rat) \<Rightarrow> rat \<Rightarrow> model_ratio_tier list \<Rightarrow> rat" where
  "last_set f base ts = last (base # filter (\<lambda>r. r \<noteq> 0) (map f ts))"

definition applicable :: "int \<Rightarrow> model_ratio_tier list \<Rightarrow> model_ratio_tier list" where
  "applicable n ts = filter (\<lambda>t. t_input_token_threshold t \<le> n) ts"

lemma last_set_Cons: "last_set f base (t # ts) = last_set f (if f t \<noteq> 0 then f t else base) ts"
  by (simp add: last_set_def)

lemma tier_loop_applicable:
  assumes "sorted (map t_input_token_threshold ts)"
  shows "tier_loop n ts p = fold apply_tier (applicable n ts) p"
  using assms
proof (induction ts arbitrary: p)
  case (Cons t ts)
  show ?case
  proof (cases "n < t_input_token_threshold t")
    case True
    with Cons.prems have "applicable n (t # ts) = []"
      by (auto simp: applicable_def filter_empty_conv)
    with True show ?thesis by simp
  next
    case False
    with Cons show ?thesis by (simp add: applicable_def)
  qed
qed (simp add: applicable_def)

lemma fold_apply_tier:
  "fold apply_tier ts p =
     \<lparr>input_ratio = last_set t_ratio (input_ratio p) ts,
      output_ratio = last_set t_completion_ratio (output_ratio p) ts,
      cached_input_ratio = last_set t_cached_input_ratio (cached_input_ratio p) ts,
      cache_write_5m_ratio = last_set t_cache_write_5m_ratio (cache_write_5m_ratio p) ts,
      cache_write_1h_ratio = last_set t_cache_write_1h_ratio (cache_write_1h_ratio p) ts,
      applied_tier_threshold = last (applied_tier_threshold p # map t_input_token_threshold ts)\<rparr>"
proof (induction ts arbitrary: p)
  case Nil
  then show ?case by (simp add: last_set_def)
next
  case (Cons t ts)
  then show ?case by (simp add: last_set_Cons apply_tier_def)
qed

lemma sorted_converted: "sorted (map t_input_token_threshold (c_tiers (convert_local_model_config_ratio_only c)))"
  by (simp add: convert_local_model_config_ratio_only_def sort_tiers_def)

text \<open>
  C14. For the prices of a channel, in whatever order the administrator lists the tiers, the loop with
  its early exit gives each price as the last one set among the tiers whose threshold the prompt
  reaches, by ascending threshold, else the base price; the output price is the input price times the
  completion ratio so chosen, as a float product.
\<close>

theorem tiers_by_threshold:
  "resolve_effective_pricing_from_config n (convert_local_model_config_ratio_only c) =
   (let ts = applicable n (sort_tiers (map convert_tier (lc_tiers c)));
        input = last_set t_ratio (lc_ratio c) ts in
    \<lparr>input_ratio = input, output_ratio = fmul input (last_set t_completion_ratio (lc_completion_ratio c) ts),
     cached_input_ratio = last_set t_cached_input_ratio (lc_cached_input_ratio c) ts,
     cache_write_5m_ratio = last_set t_cache_write_5m_ratio (lc_cache_write_5m_ratio c) ts,
     cache_write_1h_ratio = last_set t_cache_write_1h_ratio (lc_cache_write_1h_ratio c) ts,
     applied_tier_threshold = last (0 # map t_input_token_threshold ts)\<rparr>)"
  by (simp add: resolve_effective_pricing_from_config_def tier_loop_applicable [OF sorted_converted] fold_apply_tier Let_def)
    (simp add: convert_local_model_config_ratio_only_def)

end
