(* ===== verification/QuotaCompute.thy ===== *)
theory QuotaCompute
  imports Pricing "HOL-Library.Char_ord"
begin

text \<open>
  What a request costs: \<open>relay/quota/quota.go\<close> and \<open>cache_usage.go\<close>. \<open>compute\<close> follows \<open>Compute\<close>; its
  floats are rounded after every operation (\<open>fmul\<close>, \<open>fadd\<close>, \<open>fdiv\<close>), \<open>of_go_int\<close> is \<open>float64(n)\<close>.
  Token counts and the total are integers without the 64-bit limit.
\<close>

record prompt_details =
  cached_tokens :: int
  audio_tokens :: int
  text_tokens :: int
  image_tokens :: int
  video_tokens :: int
  document_tokens :: int
  image_count :: int
  audio_seconds :: rat
  video_frames :: int
  document_pages :: int

definition no_details :: prompt_details where
  "no_details = \<lparr>cached_tokens = 0, audio_tokens = 0, text_tokens = 0, image_tokens = 0, video_tokens = 0,
     document_tokens = 0, image_count = 0, audio_seconds = 0, video_frames = 0, document_pages = 0\<rparr>"

record usage =
  prompt_tokens :: int
  completion_tokens :: int
  prompt_tokens_details :: "prompt_details option"
  reasoning_tokens :: "int option"       \<comment> \<open>\<open>CompletionTokensDetails.ReasoningTokens\<close>\<close>
  tools_cost :: int
  cache_write_5m_tokens :: int
  cache_write_1h_tokens :: int
  prompt_cache_hit_tokens :: int

record compute_input =
  in_usage :: "usage option"
  in_model_name :: string
  in_model_ratio :: rat
  in_channel_model_ratio :: "(string, rat) gomap"
  in_group_ratio :: rat
  in_channel_model_configs :: price_table
  in_channel_completion_ratio :: "(string, rat) gomap"
  in_pricing_adaptor :: "provider option"

record compute_result =
  total_quota :: int
  r_prompt_tokens :: int
  r_completion_tokens :: int
  cached_prompt_tokens :: int
  cached_completion_tokens :: int
  used_model_ratio :: rat
  used_completion_ratio :: rat

subsection \<open>Helpers\<close>

definition apply_deepseek_cache_usage :: "usage option \<Rightarrow> usage option" where
  "apply_deepseek_cache_usage u =
     (case u of None \<Rightarrow> None
      | Some u \<Rightarrow>
         if prompt_cache_hit_tokens u \<le> 0 then Some u
         else
           let d = (case prompt_tokens_details u of None \<Rightarrow> no_details | Some d \<Rightarrow> d);
               d' = (if cached_tokens d = 0 then d\<lparr>cached_tokens := prompt_cache_hit_tokens u\<rparr> else d) in
           Some (u\<lparr>prompt_tokens_details := Some d'\<rparr>))"

definition has_override_for_model :: "string \<Rightarrow> (string, rat) gomap \<Rightarrow> bool" where
  "has_override_for_model name overrides \<longleftrightarrow> map_of overrides name \<noteq> None"

definition resolve_completion_ratio ::
  "string \<Rightarrow> model_config option \<Rightarrow> (string, rat) gomap \<Rightarrow> provider option \<Rightarrow> gpm \<Rightarrow> rat \<times> gpm" where
  "resolve_completion_ratio name resolved overrides adaptor g =
     (case map_of overrides name of Some override \<Rightarrow> (override, g)
      | None \<Rightarrow>
     (case resolved of
        Some cfg \<Rightarrow>
          if c_completion_ratio cfg \<noteq> 0 then (c_completion_ratio cfg, g)
          else get_completion_ratio_with_three_layers name overrides adaptor g
      | None \<Rightarrow> get_completion_ratio_with_three_layers name overrides adaptor g))"

definition ascii_lower :: "char \<Rightarrow> char" where
  "ascii_lower b = (if CHR ''A'' \<le> b \<and> b \<le> CHR ''Z''
     then char_of ((of_char b :: nat) + (of_char (CHR ''a'') - of_char (CHR ''A''))) else b)"

fun matches_fold :: "string \<Rightarrow> string \<Rightarrow> bool" where
  "matches_fold s [] = True"
| "matches_fold [] (p # ps) = False"
| "matches_fold (c # s) (p # ps) = (if ascii_lower c \<noteq> p then False else matches_fold s ps)"

text \<open>The loop over \<open>i\<close> looks at \<open>s[i:]\<close>.\<close>

function contains_ascii_fold :: "string \<Rightarrow> string \<Rightarrow> bool" where
  "contains_ascii_fold s substr =
     (if length substr = 0 then True
      else if length s < length substr then False
      else if matches_fold s substr then True
      else contains_ascii_fold (tl s) substr)"
  by pat_completeness auto

termination contains_ascii_fold
proof (relation "measure (\<lambda>(s, substr). length s)")
  fix s substr :: string
  assume "\<not> length substr = 0" and "\<not> length s < length substr"
  then show "((tl s, substr), s, substr) \<in> measure (\<lambda>(s, substr). length s)" by (cases s) auto
qed simp

declare contains_ascii_fold.simps [simp del]

definition is_claude_model_name :: "string \<Rightarrow> bool" where
  "is_claude_model_name name = contains_ascii_fold name ''claude''"

definition resolve_embedding_token_ratio :: "rat \<Rightarrow> rat \<Rightarrow> rat" where
  "resolve_embedding_token_ratio value fallback = (if value \<noteq> 0 then value else fallback)"

definition quota_per_usd :: rat where
  "quota_per_usd = 500000"

text \<open>The cost of \<open>n\<close> units of one kind.\<close>

definition unit_cost :: "rat \<Rightarrow> rat \<Rightarrow> rat \<Rightarrow> rat" where
  "unit_cost n usd group_ratio = fmul (fmul (fmul n usd) quota_per_usd) group_ratio"

definition compute_embedding_prompt_cost ::
  "int \<Rightarrow> prompt_details option \<Rightarrow> embedding_pricing option \<Rightarrow> rat \<Rightarrow> rat \<Rightarrow> rat option" where
  "compute_embedding_prompt_cost prompt details cfg group_ratio fallback_price =
     (case (cfg, details) of
        (Some e, Some d) \<Rightarrow>
          if \<not> embedding_has_data cfg then None
          else if \<not> (text_tokens d > 0 \<or> image_tokens d > 0 \<or> audio_tokens d > 0 \<or> video_tokens d > 0 \<or>
             document_tokens d > 0 \<or> image_count d > 0 \<or> audio_seconds d > 0 \<or> video_frames d > 0 \<or>
             document_pages d > 0) then None
          else
            let text_r = (if text_token_ratio e = 0
                  then (if group_ratio = 0 then 0 else fdiv fallback_price group_ratio)
                  else text_token_ratio e);
                image_r = resolve_embedding_token_ratio (image_token_ratio e) text_r;
                audio_r = resolve_embedding_token_ratio (audio_token_ratio e) text_r;
                video_r = resolve_embedding_token_ratio (video_token_ratio e) text_r;
                document_r = resolve_embedding_token_ratio (document_token_ratio e) text_r;
                counted = max (text_tokens d) 0 + max (image_tokens d) 0 + max (audio_tokens d) 0 +
                  max (video_tokens d) 0 + max (document_tokens d) 0;
                remaining = max (prompt - counted) 0;
                part = (\<lambda>n r. fmul (fmul (of_go_int n) r) group_ratio);
                cost = fadd (fadd (fadd (fadd (fadd
                    (part (max (text_tokens d) 0) text_r)
                    (part (max (image_tokens d) 0) image_r))
                    (part (max (audio_tokens d) 0) audio_r))
                    (part (max (video_tokens d) 0) video_r))
                    (part (max (document_tokens d) 0) document_r))
                    (part remaining document_r);
                cost = (if image_tokens d = 0 \<and> image_count d > 0 \<and> usd_per_image e > 0
                  then fadd cost (unit_cost (of_go_int (image_count d)) (usd_per_image e) group_ratio) else cost);
                cost = (if audio_tokens d = 0 \<and> audio_seconds d > 0 \<and> usd_per_audio_second e > 0
                  then fadd cost (unit_cost (audio_seconds d) (usd_per_audio_second e) group_ratio) else cost);
                cost = (if video_tokens d = 0 \<and> video_frames d > 0 \<and> usd_per_video_frame e > 0
                  then fadd cost (unit_cost (of_go_int (video_frames d)) (usd_per_video_frame e) group_ratio) else cost);
                cost = (if document_pages d > 0 \<and> usd_per_document_page e > 0
                  then fadd cost (unit_cost (of_go_int (document_pages d)) (usd_per_document_page e) group_ratio)
                  else cost) in
            Some cost
      | _ \<Rightarrow> None)"

subsection \<open>Compute\<close>

text \<open>Reasoning tokens reported apart from the completion.\<close>

definition merged_completion :: "usage \<Rightarrow> int" where
  "merged_completion u =
     (case reasoning_tokens u of None \<Rightarrow> completion_tokens u
      | Some r \<Rightarrow> let rt = max r 0 in
          if rt > completion_tokens u then completion_tokens u + rt else completion_tokens u)"

fun override_tiers :: "int \<Rightarrow> model_ratio_tier list \<Rightarrow> rat \<Rightarrow> rat \<Rightarrow> rat" where
  "override_tiers n [] model_ratio base_comp = base_comp"
| "override_tiers n (t # ts) model_ratio base_comp =
     (if n < t_input_token_threshold t then base_comp
      else override_tiers n ts model_ratio
        (if t_completion_ratio t \<noteq> 0 then fmul model_ratio (t_completion_ratio t) else base_comp))"

text \<open>The model ratio and the completion ratio the request is charged with.\<close>

definition used_ratios ::
  "compute_input \<Rightarrow> int \<Rightarrow> bool \<Rightarrow> model_config \<Rightarrow> rat \<Rightarrow> effective_pricing \<Rightarrow> rat \<times> rat" where
  "used_ratios i prompt has_cfg cfg completion_resolved eff =
     (let base = in_model_ratio i;
          overridden = has_override_for_model (in_model_name i) (in_channel_model_ratio i) in
      if has_cfg then
        let model_r = (if overridden then base else input_ratio eff);
            comp_base = (if overridden then model_r else input_ratio eff);
            base_comp = (if overridden
               then override_tiers prompt (c_tiers cfg) model_r (fmul model_r completion_resolved)
               else output_ratio eff) in
        (model_r, if comp_base \<noteq> 0 then fdiv base_comp comp_base else 1)
      else
        (case in_pricing_adaptor i of
           None \<Rightarrow> (base, completion_resolved)
         | Some a \<Rightarrow>
             if \<bar>fsub base (get_model_ratio a (in_model_name i))\<bar> < f64 (1 / 10 ^ 12)
             then (input_ratio eff,
                   if input_ratio eff \<noteq> 0 then fdiv (output_ratio eff) (input_ratio eff) else 1)
             else (base, completion_resolved)))"

text \<open>\<open>(cachedPrompt, nonCachedPrompt, write5m, write1h)\<close>.\<close>

definition token_buckets :: "bool \<Rightarrow> int \<Rightarrow> int \<Rightarrow> int \<Rightarrow> int \<Rightarrow> int \<times> int \<times> int \<times> int" where
  "token_buckets claude prompt cached_raw write5m write1h =
     (let non_cached = max prompt 0 in
      if claude \<or> cached_raw > prompt \<or> write5m + write1h > prompt
      then (cached_raw, non_cached, write5m, write1h)
      else
        let cached = min cached_raw prompt; non_cached = prompt - cached in
        if write5m + write1h > non_cached then
          let excess = write5m + write1h - non_cached in
          if write1h \<ge> excess then (cached, 0, write5m, write1h - excess)
          else
            let excess = excess - write1h in
            if write5m \<ge> excess then (cached, 0, write5m - excess, 0) else (cached, 0, 0, 0)
        else (cached, non_cached - (write5m + write1h), write5m, write1h))"

text \<open>A cache price: negative means free, zero the normal input price.\<close>

definition cache_price :: "rat \<Rightarrow> rat \<Rightarrow> rat \<Rightarrow> rat" where
  "cache_price r normal_price group_ratio =
     (if r < 0 then 0 else if r > 0 then fmul r group_ratio else normal_price)"

definition fill_config :: "model_config option \<Rightarrow> rat \<Rightarrow> rat \<Rightarrow> model_config" where
  "fill_config resolved base completion_resolved =
     (case resolved of
        Some cfg \<Rightarrow>
          cfg\<lparr>c_ratio := (if c_ratio cfg = 0 then base else c_ratio cfg),
             c_completion_ratio := (if c_completion_ratio cfg = 0 then completion_resolved else c_completion_ratio cfg)\<rparr>
      | None \<Rightarrow> empty_config\<lparr>c_ratio := base, c_completion_ratio := completion_resolved\<rparr>)"

definition request_cost ::
  "compute_input \<Rightarrow> usage \<Rightarrow> bool \<Rightarrow> model_config \<Rightarrow> effective_pricing \<Rightarrow> rat \<Rightarrow> rat \<Rightarrow> rat" where
  "request_cost i u has_cfg cfg eff model_r comp_r =
     (let cached_raw = (case prompt_tokens_details u of None \<Rightarrow> 0 | Some d \<Rightarrow> max (cached_tokens d) 0);
          g = in_group_ratio i;
          input_price = fmul model_r g;
          output_price = fmul (fmul model_r comp_r) g in
      case token_buckets (is_claude_model_name (in_model_name i)) (prompt_tokens u) cached_raw
             (max (cache_write_5m_tokens u) 0) (max (cache_write_1h_tokens u) 0) of
        (cached, non_cached, w5, w1) \<Rightarrow>
          let prompt_cost =
                (case (if has_cfg then compute_embedding_prompt_cost non_cached (prompt_tokens_details u)
                         (c_embedding cfg) g input_price else None) of
                   Some c \<Rightarrow> c | None \<Rightarrow> fmul (of_go_int non_cached) input_price) in
          fadd (fadd (fadd (fadd prompt_cost
            (fmul (of_go_int cached) (cache_price (cached_input_ratio eff) input_price g)))
            (fmul (of_go_int (merged_completion u)) output_price))
            (fmul (of_go_int w5) (cache_price (cache_write_5m_ratio eff) input_price g)))
            (fmul (of_go_int w1) (cache_price (cache_write_1h_ratio eff) input_price g)))"

definition compute :: "compute_input \<Rightarrow> gpm \<Rightarrow> compute_result \<times> gpm" where
  "compute i g =
     (case in_usage i of
        None \<Rightarrow> (\<lparr>total_quota = 0, r_prompt_tokens = 0, r_completion_tokens = 0, cached_prompt_tokens = 0,
                  cached_completion_tokens = 0, used_model_ratio = 0, used_completion_ratio = 0\<rparr>, g)
      | Some u \<Rightarrow>
     (case resolve_model_config_ratio_only (in_model_name i) (in_channel_model_configs i) (in_pricing_adaptor i) g of
        (resolved, g) \<Rightarrow>
     (case resolve_completion_ratio (in_model_name i) resolved (in_channel_completion_ratio i)
             (in_pricing_adaptor i) g of
        (completion_resolved, g) \<Rightarrow>
          let has_cfg = (resolved \<noteq> None);
              cfg = fill_config resolved (in_model_ratio i) completion_resolved;
              eff = resolve_effective_pricing_from_config (prompt_tokens u) cfg in
          case used_ratios i (prompt_tokens u) has_cfg cfg completion_resolved eff of
            (model_r, comp_r) \<Rightarrow>
              let cost = request_cost i u has_cfg cfg eff model_r comp_r;
                  total_q = \<lceil>cost\<rceil> + tools_cost u;
                  total_q = (if fmul model_r (in_group_ratio i) \<noteq> 0 \<and> total_q \<le> 0 then 1 else total_q);
                  cached_raw = (case prompt_tokens_details u of None \<Rightarrow> 0 | Some d \<Rightarrow> max (cached_tokens d) 0) in
              (\<lparr>total_quota = total_q, r_prompt_tokens = prompt_tokens u,
                r_completion_tokens = merged_completion u,
                cached_prompt_tokens = fst (token_buckets (is_claude_model_name (in_model_name i)) (prompt_tokens u)
                  cached_raw (max (cache_write_5m_tokens u) 0) (max (cache_write_1h_tokens u) 0)),
                cached_completion_tokens = 0, used_model_ratio = model_r, used_completion_ratio = comp_r\<rparr>, g))))"

subsection \<open>Model names\<close>

lemma matches_fold_iff: "matches_fold s p \<longleftrightarrow> has_prefix (map ascii_lower s) p"
  by (induction s p rule: matches_fold.induct) auto

lemma contains_ascii_fold_iff: "contains_ascii_fold s p \<longleftrightarrow> contains_sub (map ascii_lower s) p"
proof (induction s p rule: contains_ascii_fold.induct)
  case (1 s p)
  show ?case
  proof (cases s)
    case Nil
    then show ?thesis by (subst contains_ascii_fold.simps) auto
  next
    case (Cons c t)
    have short: "length s < length p \<Longrightarrow> \<not> contains_sub (map ascii_lower s) p"
      by (auto simp: contains_sub_iff dest!: arg_cong [where f = length])
    show ?thesis
    proof (cases "p = [] \<or> length s < length p")
      case True
      then show ?thesis using short by (subst contains_ascii_fold.simps) (auto simp: Cons)
    next
      case False
      with 1 Cons show ?thesis
        by (subst contains_ascii_fold.simps) (auto simp: matches_fold_iff)
    qed
  qed
qed

text \<open>
  The hand-written search for an ASCII token agrees with lower-casing the name first and searching
  the copy: a model is treated as a Claude model exactly when its name contains \<open>claude\<close> in any case.
\<close>

theorem claude_name_search:
  "is_claude_model_name name \<longleftrightarrow> (\<exists>a b. map ascii_lower name = a @ ''claude'' @ b)"
  by (simp only: is_claude_model_name_def contains_ascii_fold_iff contains_sub_iff)

subsection \<open>Token buckets\<close>

text \<open>
  C12. Unless the usage reports cache tokens beside the prompt (a Claude model, or more cached or
  written tokens than prompt tokens), every prompt token is charged in exactly one bucket: the cached,
  plain, 5-minute and 1-hour counts are non-negative and add up to the prompt, and no bucket grows.
\<close>

theorem token_buckets_partition:
  assumes "token_buckets claude prompt cached_raw w5 w1 = (cached, plain, w5', w1')"
    and "0 \<le> cached_raw" and "0 \<le> w5" and "0 \<le> w1"
  shows "0 \<le> cached \<and> cached \<le> cached_raw \<and> 0 \<le> plain \<and> 0 \<le> w5' \<and> w5' \<le> w5 \<and> 0 \<le> w1' \<and> w1' \<le> w1 \<and>
    (if claude \<or> cached_raw > prompt \<or> w5 + w1 > prompt
     then cached = cached_raw \<and> plain = max prompt 0 \<and> w5' = w5 \<and> w1' = w1
     else cached + plain + w5' + w1' = prompt)"
  using assms by (auto simp: token_buckets_def Let_def min_def max_def split: if_splits)

lemma token_buckets_partition_witness:
  "token_buckets False 100 60 30 20 = (60, 0, 30, 10) \<and> 60 + 0 + 30 + 10 = (100 :: int)"
  using token_buckets_partition [of False 100 60 30 20 60 0 30 10] by (simp add: token_buckets_def)

subsection \<open>The charge\<close>

text \<open>The stages of \<open>compute\<close>, by name.\<close>

definition resolved_config :: "compute_input \<Rightarrow> gpm \<Rightarrow> model_config option \<times> gpm" where
  "resolved_config i g = resolve_model_config_ratio_only (in_model_name i) (in_channel_model_configs i)
     (in_pricing_adaptor i) g"

definition resolved_completion :: "compute_input \<Rightarrow> gpm \<Rightarrow> rat" where
  "resolved_completion i g = fst (resolve_completion_ratio (in_model_name i) (fst (resolved_config i g))
     (in_channel_completion_ratio i) (in_pricing_adaptor i) (snd (resolved_config i g)))"

definition charged_config :: "compute_input \<Rightarrow> gpm \<Rightarrow> model_config" where
  "charged_config i g = fill_config (fst (resolved_config i g)) (in_model_ratio i) (resolved_completion i g)"

definition charged_pricing :: "compute_input \<Rightarrow> usage \<Rightarrow> gpm \<Rightarrow> effective_pricing" where
  "charged_pricing i u g = resolve_effective_pricing_from_config (prompt_tokens u) (charged_config i g)"

definition charged_cost :: "compute_input \<Rightarrow> usage \<Rightarrow> gpm \<Rightarrow> rat \<Rightarrow> rat \<Rightarrow> rat" where
  "charged_cost i u g model_r comp_r = request_cost i u (fst (resolved_config i g) \<noteq> None) (charged_config i g)
     (charged_pricing i u g) model_r comp_r"

definition clamp :: "bool \<Rightarrow> int \<Rightarrow> int" where
  "clamp billed q = (if billed \<and> q \<le> 0 then 1 else q)"

lemma compute_stages:
  assumes "in_usage i = Some u" and "compute i g = (r, g')"
  shows "used_ratios i (prompt_tokens u) (fst (resolved_config i g) \<noteq> None) (charged_config i g)
      (resolved_completion i g) (charged_pricing i u g) = (used_model_ratio r, used_completion_ratio r)"
    and "total_quota r = clamp (fmul (used_model_ratio r) (in_group_ratio i) \<noteq> 0)
      (\<lceil>charged_cost i u g (used_model_ratio r) (used_completion_ratio r)\<rceil> + tools_cost u)"
  using assms
  by (auto simp: compute_def resolved_config_def resolved_completion_def charged_config_def charged_pricing_def
      charged_cost_def clamp_def Let_def split: prod.splits)

lemma clamp_mono: "q \<le> q' \<Longrightarrow> clamp c q \<le> clamp c q'"
  by (auto simp: clamp_def)

text \<open>
  A request whose model and group are not free is charged at least one unit, whatever the usage,
  the tiers and the overrides say, cached or free tokens included.
\<close>

theorem charge_at_least_one:
  assumes "in_usage i = Some u" and "compute i g = (r, g')"
    and "fmul (used_model_ratio r) (in_group_ratio i) \<noteq> 0"
  shows "1 \<le> total_quota r"
  using compute_stages(2) [OF assms(1,2)] assms(3) by (simp add: clamp_def)

lemma fmul_zero [simp]: "fmul x 0 = 0" "fmul 0 x = 0"
  by (simp_all add: fmul_def)

lemma fadd_zero [simp]: "fadd 0 0 = 0"
  by (simp add: fadd_def)

lemma cache_price_free_group: "cache_price r 0 0 = 0"
  by (simp add: cache_price_def)

lemma embedding_cost_free_group:
  "compute_embedding_prompt_cost prompt details cfg 0 0 = Some c \<Longrightarrow> c = 0"
  by (auto simp: compute_embedding_prompt_cost_def unit_cost_def Let_def split: option.splits if_splits)

lemma request_cost_free_group:
  assumes "in_group_ratio i = 0"
  shows "request_cost i u has_cfg cfg eff model_r comp_r = 0"
  by (auto simp: request_cost_def assms cache_price_free_group Let_def dest!: embedding_cost_free_group
      split: prod.split option.split)

text \<open>
  In a group with ratio zero a request costs exactly its tools, for token and multimodal embedding
  prices alike.
\<close>

theorem free_group_pays_tools:
  assumes "in_usage i = Some u" and "in_group_ratio i = 0"
  shows "total_quota (fst (compute i g)) = tools_cost u"
proof -
  obtain r g' where r: "compute i g = (r, g')" by (cases "compute i g")
  show ?thesis
    using compute_stages(2) [OF assms(1) r] r by (simp add: assms(2) charged_cost_def request_cost_free_group clamp_def)
qed

lemma fmul_nonneg: "0 \<le> x \<Longrightarrow> 0 \<le> y \<Longrightarrow> 0 \<le> fmul x y"
  by (simp add: fmul_def f64_nonneg)

lemma of_go_int_mono: "m \<le> n \<Longrightarrow> of_go_int m \<le> of_go_int n"
  by (simp add: of_go_int_def f64_mono)

lemma fmul_mono_left: "x \<le> y \<Longrightarrow> 0 \<le> z \<Longrightarrow> fmul x z \<le> fmul y z"
  unfolding fmul_def by (rule binary64.mult_mono_left)

lemma fadd_mono: "x \<le> y \<Longrightarrow> z \<le> w \<Longrightarrow> fadd x z \<le> fadd y w"
  unfolding fadd_def by (rule binary64.add_mono)

lemma request_cost_mono:
  assumes "merged_completion u \<le> merged_completion v"
    and "v = u\<lparr>completion_tokens := n\<rparr>" and "j = i\<lparr>in_usage := Some v\<rparr>"
    and "0 \<le> model_r" and "0 \<le> comp_r" and "0 \<le> in_group_ratio i"
  shows "request_cost i u has_cfg cfg eff model_r comp_r \<le> request_cost j v has_cfg cfg eff model_r comp_r"
proof -
  have "fmul (of_go_int (merged_completion u)) (fmul (fmul model_r comp_r) (in_group_ratio i)) \<le>
        fmul (of_go_int (merged_completion v)) (fmul (fmul model_r comp_r) (in_group_ratio i))"
    using assms by (intro fmul_mono_left of_go_int_mono fmul_nonneg)
  then show ?thesis
    unfolding assms(3) request_cost_def
    by (auto simp: assms(2) Let_def intro!: fadd_mono split: prod.split)
qed


subsection \<open>Examples\<close>

definition example_usage :: "int \<Rightarrow> int \<Rightarrow> usage" where
  "example_usage p c = \<lparr>prompt_tokens = p, completion_tokens = c, prompt_tokens_details = None,
     reasoning_tokens = None, tools_cost = 0, cache_write_5m_tokens = 0, cache_write_1h_tokens = 0,
     prompt_cache_hit_tokens = 0\<rparr>"

definition example_input :: "rat \<Rightarrow> rat \<Rightarrow> usage \<Rightarrow> compute_input" where
  "example_input r grp u = \<lparr>in_usage = Some u, in_model_name = ''m'', in_model_ratio = r,
     in_channel_model_ratio = [], in_group_ratio = grp,
     in_channel_model_configs = [(''m'', plain_config\<lparr>lc_ratio := r, lc_completion_ratio := 2\<rparr>)],
     in_channel_completion_ratio = [], in_pricing_adaptor = None\<rparr>"

lemma not_claude: "is_claude_model_name ''m'' = False"
  by code_simp

lemmas compute_eval = example_input_def example_usage_def compute_def resolve_model_config_ratio_only_def
  convert_local_model_config_ratio_only_def empty_config_def plain_config_def sort_tiers_def
  resolve_completion_ratio_def fill_config_def resolve_effective_pricing_from_config_def used_ratios_def
  has_override_for_model_def request_cost_def token_buckets_def not_claude cache_price_def merged_completion_def
  compute_embedding_prompt_cost_def Let_def

definition example_result :: "int \<Rightarrow> compute_result" where
  "example_result c = \<lparr>total_quota = 100 + 2 * c, r_prompt_tokens = 100, r_completion_tokens = c,
     cached_prompt_tokens = 0, cached_completion_tokens = 0, used_model_ratio = 1, used_completion_ratio = 2\<rparr>"

lemma example_compute:
  "compute (example_input 1 1 (example_usage 100 10)) new_gpm = (example_result 10, new_gpm)"
  "compute (example_input 1 1 (example_usage 100 20)) new_gpm = (example_result 20, new_gpm)"
  by (simp_all add: compute_eval example_result_def float_ops f64_numeral f64_one)

lemma charge_at_least_one_witness: "1 \<le> total_quota (example_result 10)"
  by (rule charge_at_least_one [OF _ example_compute(1), of "example_usage 100 10"])
    (simp_all add: example_input_def example_result_def fmul_def f64_one)

lemma free_group_pays_tools_witness:
  "total_quota (fst (compute (example_input 1 0 (example_usage 100 10)) new_gpm)) = 0"
  using free_group_pays_tools [of "example_input 1 0 (example_usage 100 10)" "example_usage 100 10" new_gpm]
  by (simp add: example_input_def example_usage_def)


lemma ratio_007:
  "fmul (1261007895663739 / 18014398509481984) 1 = 1261007895663739 / 18014398509481984"
  "fmul 100 (1261007895663739 / 18014398509481984) = 7881299347898369 / 1125899906842624"
  "fadd (7881299347898369 / 1125899906842624) 0 = 7881299347898369 / 1125899906842624"
  "of_go_int 100 = 100" "of_go_int 0 = 0"
  by (simp_all add: float_ops f64_eval)

text \<open>
  The charge is the exact cost rounded up only as far as floats allow: 100 prompt tokens at a ratio
  of 0.07 cost 7 units exactly, but the product of the floats is above 7 and the request is charged 8.
\<close>

theorem float_rounding_overcharges:
  "total_quota (fst (compute (example_input (f64 (7 / 100)) 1 (example_usage 100 0)) new_gpm)) = 8"
  by (simp add: compute_eval f64_seven_hundredths ratio_007 rat_ceiling_numeral)

end
