(* ===== verification/Tooling.thy ===== *)
theory Tooling
  imports QuotaCompute
begin

text \<open>
  Built-in tools: their policy and their price. The tooling configuration of a channel
  (\<open>normalizeChannelToolingConfig\<close> and its parts in \<open>model/channel.go\<close>) and \<open>relay/tooling/tools.go\<close>.

  Go sets (\<open>map[string]struct{}\<close>) are lists read through \<open>set\<close>. The counters the adaptors leave in the
  request context are integers here: \<open>toInt\<close> and the type switch of \<open>mergeToolCounts\<close> have no counterpart.
\<close>

subsection \<open>The configuration of a channel\<close>

record tool_price =
  usd_per_call :: rat
  quota_per_call :: int

record tooling_config =
  tool_whitelist :: "string list"
  tool_pricing :: "(string, tool_price) gomap"

fun whitelist_loop :: "string list \<Rightarrow> string list \<Rightarrow> string list \<Rightarrow> string + string list" where
  "whitelist_loop [] seen normalized = Inr normalized"
| "whitelist_loop (raw # rest) seen normalized =
     (let trimmed = trim_space raw in
      if trimmed = [] then Inl ''tool whitelist cannot contain empty entries''
      else
        let lower = to_lower trimmed in
        if lower \<in> set seen then whitelist_loop rest seen normalized
        else whitelist_loop rest (lower # seen) (normalized @ [trimmed]))"

definition normalize_tool_whitelist :: "string list \<Rightarrow> string + string list" where
  "normalize_tool_whitelist entries = whitelist_loop entries [] []"

definition tool_price_entry :: "string \<times> tool_price \<Rightarrow> string + (string \<times> tool_price) option" where
  "tool_price_entry e =
     (case e of (raw, value) \<Rightarrow>
        let name = trim_space raw in
        if name = [] then Inl ''tool pricing cannot contain empty tool names''
        else if usd_per_call value < 0 then Inl ''usd_per_call cannot be negative''
        else if quota_per_call value < 0 then Inl ''quota_per_call cannot be negative''
        else Inr (Some (name, value)))"

definition normalize_tool_pricing_map ::
  "(string, tool_price) gomap \<Rightarrow> string + (string, tool_price) gomap" where
  "normalize_tool_pricing_map pricing = build_map tool_price_entry pricing []"

definition normalize_channel_tooling_config :: "tooling_config option \<Rightarrow> string + tooling_config option" where
  "normalize_channel_tooling_config cfg =
     (case cfg of None \<Rightarrow> Inr None
      | Some c \<Rightarrow>
         (case normalize_tool_whitelist (tool_whitelist c) of Inl e \<Rightarrow> Inl e
          | Inr entries \<Rightarrow>
         (case normalize_tool_pricing_map (tool_pricing c) of Inl e \<Rightarrow> Inl e
          | Inr pricing \<Rightarrow>
             if entries = [] \<and> pricing = [] then Inr None
             else Inr (Some \<lparr>tool_whitelist = entries, tool_pricing = pricing\<rparr>))))"

text \<open>The \<open>tooling\<close> field of the channel's configuration column, without the JSON around it.\<close>

definition set_tooling_config ::
  "tooling_config option \<Rightarrow> tooling_config option \<Rightarrow> string option \<times> tooling_config option" where
  "set_tooling_config tooling column =
     (case normalize_channel_tooling_config tooling of
        Inl e \<Rightarrow> (Some e, column)
      | Inr normalized \<Rightarrow> (None, normalized))"

subsection \<open>Names\<close>

definition normalize_builtin_type :: "string \<Rightarrow> string" where
  "normalize_builtin_type tool_type =
     (let normalized = to_lower (trim_space tool_type) in
      if normalized = ''web_search'' then ''web_search''
      else if normalized = ''web_search_preview'' then ''web_search''
      else if normalized = ''web-search'' then ''web_search''
      else if normalized = ''tool_search_tool_regex'' \<or> normalized = ''tool_search_tool_bm25'' then ''web_search''
      else if has_prefix normalized ''tool_search_tool_regex_'' \<or>
              has_prefix normalized ''tool_search_tool_bm25_'' then ''web_search''
      else [])"

definition canonical_builtin_invocation_name :: "string \<Rightarrow> string" where
  "canonical_builtin_invocation_name tool_name =
     (let trimmed = trim_space tool_name in
      if trimmed = [] then []
      else
        let builtin = normalize_builtin_type trimmed in
        if builtin \<noteq> [] then builtin else to_lower trimmed)"

text \<open>The \<open>type\<close> fields of a request's tools, and whether it has \<open>web_search_options\<close>.\<close>

definition collect_chat_builtins :: "string list \<Rightarrow> bool \<Rightarrow> string list" where
  "collect_chat_builtins tool_types web_search_options =
     filter (\<lambda>name. name \<noteq> []) (map normalize_builtin_type tool_types) @
     (if web_search_options then [''web_search''] else [])"

definition collect_response_builtins :: "string list \<Rightarrow> string list" where
  "collect_response_builtins tool_types =
     filter (\<lambda>name. name \<noteq> []) (map normalize_builtin_type tool_types)"

subsection \<open>The policy\<close>

record tool_policy =
  whitelist_defined :: bool
  allowed :: "string list"
  per_call_quota :: "(string, int) gomap"
  channel_priced :: "string list"
  provider_priced :: "string list"

definition quota_per_call_from :: "tool_price \<Rightarrow> int" where
  "quota_per_call_from pricing =
     (if quota_per_call pricing > 0 then quota_per_call pricing
      else if usd_per_call pricing > 0 then \<lceil>fmul (usd_per_call pricing) quota_per_usd\<rceil>
      else quota_per_call pricing)"

definition canonical :: "string \<Rightarrow> string" where
  "canonical name = to_lower (trim_space name)"

definition set_policy_whitelist :: "string list \<Rightarrow> tool_policy \<Rightarrow> tool_policy" where
  "set_policy_whitelist entries p =
     (if entries = [] then p
      else p\<lparr>whitelist_defined := True, allowed := filter (\<lambda>c. c \<noteq> []) (map canonical entries)\<rparr>)"

fun apply_provider_pricing :: "(string, tool_price) gomap \<Rightarrow> tool_policy \<Rightarrow> tool_policy" where
  "apply_provider_pricing [] p = p"
| "apply_provider_pricing ((name, cfg) # rest) p =
     (let c = canonical name in
      apply_provider_pricing rest
        (if c = [] then p
         else p\<lparr>per_call_quota := AList.update c (quota_per_call_from cfg) (per_call_quota p),
                provider_priced := c # provider_priced p\<rparr>))"

fun apply_channel_pricing :: "(string, tool_price) gomap \<Rightarrow> tool_policy \<Rightarrow> tool_policy" where
  "apply_channel_pricing [] p = p"
| "apply_channel_pricing ((name, cfg) # rest) p =
     (let c = canonical name in
      apply_channel_pricing rest
        (if c = [] then p
         else p\<lparr>per_call_quota := AList.update c (quota_per_call_from cfg) (per_call_quota p),
                channel_priced := c # channel_priced p\<rparr>))"

definition empty_policy :: tool_policy where
  "empty_policy = \<lparr>whitelist_defined = False, allowed = [], per_call_quota = [], channel_priced = [],
     provider_priced = []\<rparr>"

text \<open>\<open>provider\<close>: the defaults of an adaptor that has some (\<open>ToolingDefaultsProvider\<close>).\<close>

definition build_tool_policy :: "tooling_config option \<Rightarrow> tooling_config option \<Rightarrow> tool_policy" where
  "build_tool_policy channel provider =
     (let p = empty_policy;
          p = (case provider of None \<Rightarrow> p
               | Some cfg \<Rightarrow> apply_provider_pricing (tool_pricing cfg) (set_policy_whitelist (tool_whitelist cfg) p)) in
      (case channel of None \<Rightarrow> p
       | Some cfg \<Rightarrow> apply_channel_pricing (tool_pricing cfg) (set_policy_whitelist (tool_whitelist cfg) p)))"

definition has_pricing :: "tool_policy \<Rightarrow> string \<Rightarrow> bool" where
  "has_pricing p tool =
     (let c = canonical tool in
      if c = [] then False
      else if c \<in> set (channel_priced p) then True
      else c \<in> set (provider_priced p))"

definition is_allowed :: "tool_policy \<Rightarrow> string \<Rightarrow> bool" where
  "is_allowed p tool =
     (let c = canonical tool in
      if c = [] then False
      else if \<not> has_pricing p c then False
      else if whitelist_defined p then c \<in> set (allowed p)
      else True)"

subsection \<open>Checking a request\<close>

text \<open>On Azure channels the defaults of the provider do not count.\<close>

definition effective_provider :: "bool \<Rightarrow> tooling_config option \<Rightarrow> tooling_config option" where
  "effective_provider azure provider = (if azure then None else provider)"

definition validate_requested_builtins ::
  "tooling_config option \<Rightarrow> tooling_config option \<Rightarrow> bool \<Rightarrow> string list \<Rightarrow> string option" where
  "validate_requested_builtins channel provider azure requested =
     (if requested = [] then None
      else
        let policy = build_tool_policy channel (effective_provider azure provider) in
        find (\<lambda>tool. \<not> is_allowed policy tool) requested)"

definition validate_chat_builtin_tools ::
  "tooling_config option \<Rightarrow> tooling_config option \<Rightarrow> bool \<Rightarrow> string list \<Rightarrow> bool \<Rightarrow> string option" where
  "validate_chat_builtin_tools channel provider azure tool_types web_search_options =
     validate_requested_builtins channel provider azure (collect_chat_builtins tool_types web_search_options)"

definition is_builtin_tool_allowed ::
  "tooling_config option \<Rightarrow> tooling_config option \<Rightarrow> bool \<Rightarrow> string \<Rightarrow> bool" where
  "is_builtin_tool_allowed channel provider azure tool =
     (let c = canonical tool in
      if c = [] then False
      else is_allowed (build_tool_policy channel (effective_provider azure provider)) c)"

text \<open>A \<open>tool_choice\<close>: absent, a string, or an object that forces a tool.\<close>

datatype tool_choice = NoChoice | NamedChoice string | ForcedChoice

fun can_prune_response_tool_choice :: "tool_choice \<Rightarrow> bool" where
  "can_prune_response_tool_choice NoChoice = True"
| "can_prune_response_tool_choice (NamedChoice s) = (to_lower (trim_space s) = [] \<or> to_lower (trim_space s) = ''auto'')"
| "can_prune_response_tool_choice ForcedChoice = False"

text \<open>The tools kept, and the names removed.\<close>

definition prune_disallowed_response_builtins ::
  "tooling_config option \<Rightarrow> tooling_config option \<Rightarrow> bool \<Rightarrow> tool_choice \<Rightarrow> string list \<Rightarrow> string list \<times> string list" where
  "prune_disallowed_response_builtins channel provider azure choice tool_types =
     (if \<not> can_prune_response_tool_choice choice then (tool_types, [])
      else
        let policy = build_tool_policy channel (effective_provider azure provider);
            keep = (\<lambda>t. normalize_builtin_type t = [] \<or> is_allowed policy (normalize_builtin_type t));
            removed = remdups (map normalize_builtin_type (filter (\<lambda>t. \<not> keep t) tool_types)) in
        if removed = [] then (tool_types, [])
        else (filter keep tool_types, removed))"

subsection \<open>Charging the invocations\<close>

definition add_count :: "string \<Rightarrow> int \<Rightarrow> (string, int) gomap \<Rightarrow> (string, int) gomap" where
  "add_count name n counts =
     AList.update name ((case map_of counts name of None \<Rightarrow> 0 | Some k \<Rightarrow> k) + n) counts"

fun merge_tool_counts :: "(string, int) gomap \<Rightarrow> (string, int) gomap \<Rightarrow> (string, int) gomap" where
  "merge_tool_counts dst [] = dst"
| "merge_tool_counts dst ((name, n) # rest) =
     (let c = canonical_builtin_invocation_name name in
      merge_tool_counts (if c = [] then dst else add_count c n dst) rest)"

definition collect_invocation_counts :: "(string, int) gomap \<Rightarrow> int option \<Rightarrow> (string, int) gomap" where
  "collect_invocation_counts tool_counts web_search_count =
     (let counts = merge_tool_counts [] tool_counts;
          counts = (case web_search_count of None \<Rightarrow> counts
                    | Some n \<Rightarrow> add_count (canonical_builtin_invocation_name ''web_search'') n counts) in
      filter (\<lambda>e. \<not> snd e \<le> 0) counts)"

definition empty_usage :: usage where
  "empty_usage = \<lparr>prompt_tokens = 0, completion_tokens = 0, prompt_tokens_details = None,
     reasoning_tokens = None, tools_cost = 0, cache_write_5m_tokens = 0, cache_write_1h_tokens = 0,
     prompt_cache_hit_tokens = 0\<rparr>"

definition add_tools_cost :: "int \<Rightarrow> usage option \<Rightarrow> usage option" where
  "add_tools_cost cost u =
     (let u' = (case u of None \<Rightarrow> empty_usage | Some u \<Rightarrow> u) in
      Some (u'\<lparr>tools_cost := tools_cost u' + cost\<rparr>))"

record tool_usage_summary =
  call_counts :: "(string, int) gomap"
  cost_by_tool :: "(string, int) gomap"
  total_cost :: int

fun charge_loop ::
  "tool_policy \<Rightarrow> (string, int) gomap \<Rightarrow> usage option \<Rightarrow> tool_usage_summary \<Rightarrow> usage option \<times> tool_usage_summary" where
  "charge_loop policy [] u summary = (u, summary)"
| "charge_loop policy ((raw, count) # rest) u summary =
     (if count \<le> 0 then charge_loop policy rest u summary
      else
        let c = to_lower raw;
            summary = summary\<lparr>call_counts := AList.update c count (call_counts summary)\<rparr> in
        if \<not> is_allowed policy c then charge_loop policy rest u summary
        else
          let per_call = (case map_of (per_call_quota policy) c of None \<Rightarrow> 0 | Some q \<Rightarrow> q);
              cost = per_call * count;
              summary = (if cost \<noteq> 0
                 then summary\<lparr>cost_by_tool := AList.update c cost (cost_by_tool summary),
                              total_cost := total_cost summary + cost\<rparr> else summary) in
          charge_loop policy rest (add_tools_cost cost u) summary)"

definition apply_builtin_tool_charges ::
  "tooling_config option \<Rightarrow> tooling_config option \<Rightarrow> (string, int) gomap \<Rightarrow> int option \<Rightarrow> usage option \<Rightarrow>
   usage option \<times> tool_usage_summary option" where
  "apply_builtin_tool_charges channel provider tool_counts web_search_count u =
     (let counts = collect_invocation_counts tool_counts web_search_count in
      if counts = [] then (u, None)
      else
        (case charge_loop (build_tool_policy channel provider) counts u
                \<lparr>call_counts = [], cost_by_tool = [], total_cost = 0\<rparr> of
           (u', summary) \<Rightarrow>
             (u', if call_counts summary = [] \<and> total_cost summary = 0 then None else Some summary)))"

subsection \<open>Canonical names\<close>

lemma canonical_idem [simp]: "canonical (canonical s) = canonical s"
  by (simp add: canonical_def trim_space_lower to_lower_idem)

lemma to_lower_canonical [simp]: "to_lower (canonical s) = canonical s"
  by (simp add: canonical_def to_lower_idem)

lemma canonical_trim [simp]: "canonical (trim_space s) = canonical s"
  by (simp add: canonical_def)

lemma canonical_Nil [simp]: "canonical s = [] \<longleftrightarrow> trim_space s = []"
  by (simp add: canonical_def)

lemma normalize_builtin_type_range: "normalize_builtin_type t = [] \<or> normalize_builtin_type t = ''web_search''"
  by (simp add: normalize_builtin_type_def Let_def)

lemma lower_web_search: "to_lower ''web_search'' = ''web_search''"
  by code_simp

lemma invocation_name_lower [simp]:
  "to_lower (canonical_builtin_invocation_name t) = canonical_builtin_invocation_name t"
  using normalize_builtin_type_range [of "trim_space t"]
  by (auto simp: canonical_builtin_invocation_name_def Let_def to_lower_idem lower_web_search)

subsection \<open>The policy as a table\<close>

definition tool_names :: "tooling_config option \<Rightarrow> string set" where
  "tool_names cfg = (case cfg of None \<Rightarrow> {} | Some c \<Rightarrow> canonical ` fst ` set (tool_pricing c) - {[]})"

definition whitelist_of :: "tooling_config option \<Rightarrow> string list" where
  "whitelist_of cfg = (case cfg of None \<Rightarrow> [] | Some c \<Rightarrow> tool_whitelist c)"

definition effective_whitelist :: "tooling_config option \<Rightarrow> tooling_config option \<Rightarrow> string list" where
  "effective_whitelist channel provider =
     (if whitelist_of channel \<noteq> [] then whitelist_of channel else whitelist_of provider)"

lemma apply_provider_pricing_fields:
  "set (provider_priced (apply_provider_pricing es p)) =
     canonical ` fst ` set es - {[]} \<union> set (provider_priced p) \<and>
   channel_priced (apply_provider_pricing es p) = channel_priced p \<and>
   whitelist_defined (apply_provider_pricing es p) = whitelist_defined p \<and>
   allowed (apply_provider_pricing es p) = allowed p"
  by (induction es p rule: apply_provider_pricing.induct) (auto simp: Let_def)

lemma apply_channel_pricing_fields:
  "set (channel_priced (apply_channel_pricing es p)) =
     canonical ` fst ` set es - {[]} \<union> set (channel_priced p) \<and>
   provider_priced (apply_channel_pricing es p) = provider_priced p \<and>
   whitelist_defined (apply_channel_pricing es p) = whitelist_defined p \<and>
   allowed (apply_channel_pricing es p) = allowed p"
  by (induction es p rule: apply_channel_pricing.induct) (auto simp: Let_def)

lemma set_policy_whitelist_fields:
  "channel_priced (set_policy_whitelist ws p) = channel_priced p"
  "provider_priced (set_policy_whitelist ws p) = provider_priced p"
  "per_call_quota (set_policy_whitelist ws p) = per_call_quota p"
  "whitelist_defined (set_policy_whitelist ws p) = (ws \<noteq> [] \<or> whitelist_defined p)"
  "set (allowed (set_policy_whitelist ws p)) =
     (if ws = [] then set (allowed p) else canonical ` set ws - {[]})"
  by (auto simp: set_policy_whitelist_def)

lemma build_tool_policy_fields:
  "set (channel_priced (build_tool_policy channel provider)) = tool_names channel"
  "set (provider_priced (build_tool_policy channel provider)) = tool_names provider"
  "whitelist_defined (build_tool_policy channel provider) = (effective_whitelist channel provider \<noteq> [])"
  "effective_whitelist channel provider \<noteq> [] \<Longrightarrow> set (allowed (build_tool_policy channel provider)) =
     canonical ` set (effective_whitelist channel provider) - {[]}"
  by (auto simp: build_tool_policy_def Let_def tool_names_def effective_whitelist_def whitelist_of_def
      apply_provider_pricing_fields apply_channel_pricing_fields set_policy_whitelist_fields empty_policy_def
      split: option.splits if_splits)

text \<open>
  C25. A built-in tool may be used exactly when the channel or the provider prices it and, if there is a
  whitelist at all, it is on it; the channel's whitelist replaces the provider's, while their prices are
  joined. Names are compared without case and surrounding space.
\<close>

theorem tool_allowed_iff:
  "is_allowed (build_tool_policy channel provider) tool \<longleftrightarrow>
     canonical tool \<noteq> [] \<and> canonical tool \<in> tool_names channel \<union> tool_names provider \<and>
     (effective_whitelist channel provider = [] \<or>
      canonical tool \<in> canonical ` set (effective_whitelist channel provider))"
  by (auto simp: is_allowed_def has_pricing_def Let_def build_tool_policy_fields)

subsection \<open>What the invocations cost\<close>

definition tool_unit :: "tool_policy \<Rightarrow> string \<Rightarrow> int" where
  "tool_unit policy c =
     (if is_allowed policy c then case map_of (per_call_quota policy) c of None \<Rightarrow> 0 | Some q \<Rightarrow> q else 0)"

definition cost_of :: "usage option \<Rightarrow> int" where
  "cost_of u = (case u of None \<Rightarrow> 0 | Some u \<Rightarrow> tools_cost u)"

definition weigh :: "(string \<Rightarrow> int) \<Rightarrow> (string, int) gomap \<Rightarrow> int" where
  "weigh f counts = (\<Sum>(c, n) \<leftarrow> counts. f c * n)"

lemma weigh_simps [simp]: "weigh f [] = 0" "weigh f ((c, n) # rest) = f c * n + weigh f rest"
  by (simp_all add: weigh_def)

lemma cost_of_add [simp]: "cost_of (add_tools_cost cost u) = cost_of u + cost"
  by (simp add: cost_of_def add_tools_cost_def empty_usage_def Let_def split: option.split)

lemma charge_loop_cost:
  "(\<forall>(c, n) \<in> set counts. 0 < n \<and> to_lower c = c) \<Longrightarrow>
   cost_of (fst (charge_loop policy counts u summary)) = cost_of u + weigh (tool_unit policy) counts"
  by (induction policy counts u summary rule: charge_loop.induct)
     (auto simp: Let_def tool_unit_def split: option.splits)

lemma weigh_update:
  "weigh f (AList.update c ((case map_of m c of None \<Rightarrow> 0 | Some k \<Rightarrow> k) + n) m) = weigh f m + f c * n"
  by (induction m) (auto simp: algebra_simps)

lemma weigh_add_count [simp]: "weigh f (add_count c n m) = weigh f m + f c * n"
  by (simp add: add_count_def weigh_update)

definition counts_ok :: "(string, int) gomap \<Rightarrow> bool" where
  "counts_ok m \<longleftrightarrow> (\<forall>(c, n) \<in> set m. 0 \<le> n \<and> to_lower c = c)"

lemma counts_ok_add: "counts_ok m \<Longrightarrow> 0 \<le> n \<Longrightarrow> to_lower c = c \<Longrightarrow> counts_ok (add_count c n m)"
proof -
  assume m: "counts_ok m" and n: "0 \<le> n" "to_lower c = c"
  have "0 \<le> (case map_of m c of None \<Rightarrow> 0 | Some k \<Rightarrow> k)"
    using m by (auto simp: counts_ok_def dest!: map_of_SomeD split: option.splits)
  with m n show ?thesis
    using update_set_subset [of c _ m] unfolding counts_ok_def add_count_def by fastforce
qed

lemma merge_tool_counts_weigh:
  "f [] = 0 \<Longrightarrow> weigh f (merge_tool_counts dst counts) =
     weigh f dst + (\<Sum>(name, n) \<leftarrow> counts. f (canonical_builtin_invocation_name name) * n)"
  by (induction dst counts rule: merge_tool_counts.induct) (auto simp: Let_def)

lemma merge_tool_counts_ok:
  "counts_ok dst \<Longrightarrow> \<forall>(name, n) \<in> set counts. 0 \<le> n \<Longrightarrow> counts_ok (merge_tool_counts dst counts)"
  by (induction dst counts rule: merge_tool_counts.induct) (auto simp: Let_def counts_ok_add)

lemma weigh_positive: "counts_ok m \<Longrightarrow> weigh f (filter (\<lambda>e. \<not> snd e \<le> 0) m) = weigh f m"
  by (induction m) (auto simp: counts_ok_def)

lemma tool_unit_Nil [simp]: "tool_unit policy [] = 0"
  by (simp add: tool_unit_def is_allowed_def canonical_def to_lower_def)

text \<open>
  C26. Every invocation of a built-in tool is charged once, at the price of its canonical tool, whichever
  alias it was reported under, in whichever order the counters are read and with the separate counter of
  web searches added in; an invocation the policy does not allow costs nothing.
\<close>

theorem tool_charges_total:
  assumes "\<forall>(name, n) \<in> set tool_counts. 0 \<le> n" and "\<forall>n. web = Some n \<longrightarrow> 0 \<le> n"
  shows "cost_of (fst (apply_builtin_tool_charges channel provider tool_counts web u)) = cost_of u +
    (\<Sum>(name, n) \<leftarrow> tool_counts.
       tool_unit (build_tool_policy channel provider) (canonical_builtin_invocation_name name) * n) +
    (case web of None \<Rightarrow> 0
     | Some n \<Rightarrow> tool_unit (build_tool_policy channel provider) (canonical_builtin_invocation_name ''web_search'') * n)"
proof -
  let ?f = "tool_unit (build_tool_policy channel provider)"
  let ?m = "case web of None \<Rightarrow> merge_tool_counts [] tool_counts
     | Some n \<Rightarrow> add_count (canonical_builtin_invocation_name ''web_search'') n (merge_tool_counts [] tool_counts)"
  let ?c = "filter (\<lambda>e. \<not> snd e \<le> 0) ?m"
  have ok: "counts_ok ?m"
    using merge_tool_counts_ok [OF _ assms(1), of "[]"] assms(2)
    by (auto simp: counts_ok_add counts_ok_def [of "[]"] split: option.split)
  then have "\<forall>(c, n) \<in> set ?c. 0 < n \<and> to_lower c = c"
    by (auto simp: counts_ok_def)
  then have "cost_of (fst (charge_loop (build_tool_policy channel provider) ?c u s)) = cost_of u + weigh ?f ?c" for s
    by (rule charge_loop_cost)
  moreover have "weigh ?f ?c = (\<Sum>(name, n) \<leftarrow> tool_counts. ?f (canonical_builtin_invocation_name name) * n) +
      (case web of None \<Rightarrow> 0 | Some n \<Rightarrow> ?f (canonical_builtin_invocation_name ''web_search'') * n)"
    using weigh_positive [OF ok, of ?f] by (auto simp: merge_tool_counts_weigh split: option.split)
  moreover have "fst (apply_builtin_tool_charges channel provider tool_counts web u) =
      fst (charge_loop (build_tool_policy channel provider) ?c u
         \<lparr>call_counts = [], cost_by_tool = [], total_cost = 0\<rparr>)"
    by (simp add: apply_builtin_tool_charges_def collect_invocation_counts_def Let_def split: prod.split)
  ultimately show ?thesis by simp
qed

definition search_priced :: tooling_config where
  "search_priced = \<lparr>tool_whitelist = [], tool_pricing = [(''web_search'', \<lparr>usd_per_call = 0, quota_per_call = 50\<rparr>)]\<rparr>"

lemma search_unit:
  "tool_unit (build_tool_policy None (Some search_priced)) c = (if c = ''web_search'' then 50 else 0)"
proof -
  have p: "build_tool_policy None (Some search_priced) = empty_policy\<lparr>per_call_quota := [(''web_search'', 50)],
      provider_priced := [''web_search'']\<rparr>" by code_simp
  have c: "canonical ''web_search'' = ''web_search''" "trim_space ''web_search'' \<noteq> []" by code_simp+
  show ?thesis
    by (auto simp: p tool_unit_def is_allowed_def has_pricing_def Let_def empty_policy_def c)
qed

lemma tool_charges_total_witness:
  "cost_of (fst (apply_builtin_tool_charges None (Some search_priced)
     [('' Web-Search'', 2), (''web_search_preview'', 1), (''other'', 9)] (Some 1) None)) = 200"
proof -
  have n: "canonical_builtin_invocation_name '' Web-Search'' = ''web_search''"
    "canonical_builtin_invocation_name ''web_search_preview'' = ''web_search''"
    "canonical_builtin_invocation_name ''other'' = ''other''"
    "canonical_builtin_invocation_name ''web_search'' = ''web_search''" by code_simp+
  show ?thesis
    using tool_charges_total [of "[('' Web-Search'', 2), (''web_search_preview'', 1), (''other'', 9)]" "Some 1"
        None "Some search_priced" None]
    by (simp add: search_unit n) (simp add: cost_of_def)
qed

subsection \<open>Stored configurations\<close>

lemma whitelist_loop_spec:
  "whitelist_loop raws seen out = Inr ws \<Longrightarrow> distinct (map to_lower out) \<Longrightarrow> set seen = to_lower ` set out \<Longrightarrow>
   (\<forall>w \<in> set out. trim_space w = w \<and> w \<noteq> []) \<Longrightarrow>
   distinct (map to_lower ws) \<and> (\<forall>w \<in> set ws. trim_space w = w \<and> w \<noteq> [])"
proof (induction raws arbitrary: seen out)
  case (Cons raw rest)
  let ?t = "trim_space raw"
  have t: "?t \<noteq> []" using Cons.prems(1) by (auto simp: Let_def)
  show ?case
  proof (cases "to_lower ?t \<in> set seen")
    case True
    then have "whitelist_loop rest seen out = Inr ws" using Cons.prems(1) t by (simp add: Let_def)
    then show ?thesis by (rule Cons.IH [OF _ Cons.prems(2-4)])
  next
    case False
    have "whitelist_loop rest (to_lower ?t # seen) (out @ [?t]) = Inr ws"
      using Cons.prems(1) t False by (simp add: Let_def)
    then show ?thesis by (rule Cons.IH) (use Cons.prems(2-4) t False in auto)
  qed
qed simp

lemma whitelist_loop_id:
  "distinct (map to_lower (out @ ws)) \<Longrightarrow> set seen = to_lower ` set out \<Longrightarrow>
   (\<forall>w \<in> set ws. trim_space w = w \<and> w \<noteq> []) \<Longrightarrow> whitelist_loop ws seen out = Inr (out @ ws)"
proof (induction ws arbitrary: seen out)
  case (Cons w ws)
  have "to_lower w \<notin> set seen" using Cons.prems(1,2) by auto
  moreover have "whitelist_loop ws (to_lower w # seen) (out @ [w]) = Inr ((out @ [w]) @ ws)"
    by (rule Cons.IH) (use Cons.prems in auto)
  ultimately show ?case using Cons.prems(3) by (simp add: Let_def)
qed simp

text \<open>
  C27. A tooling configuration the server has stored is clean: its whitelist has no empty, untrimmed or
  case-insensitively repeated entry and no price is negative; and storing it again changes nothing.
\<close>

theorem stored_tooling_clean:
  assumes "set_tooling_config tooling column = (None, Some cfg)"
  shows "distinct (map canonical (tool_whitelist cfg)) \<and>
    (\<forall>w \<in> set (tool_whitelist cfg). trim_space w = w \<and> w \<noteq> []) \<and>
    (\<forall>(name, v) \<in> set (tool_pricing cfg). trim_space name = name \<and> name \<noteq> [] \<and>
       0 \<le> usd_per_call v \<and> 0 \<le> quota_per_call v) \<and>
    set_tooling_config (Some cfg) other = (None, Some cfg)"
proof -
  from assms obtain t ws ps where t: "tooling = Some t" and ws: "normalize_tool_whitelist (tool_whitelist t) = Inr ws"
    and ps: "normalize_tool_pricing_map (tool_pricing t) = Inr ps" and cfg: "cfg = \<lparr>tool_whitelist = ws, tool_pricing = ps\<rparr>"
    and ne: "\<not> (ws = [] \<and> ps = [])"
    by (auto simp: set_tooling_config_def normalize_channel_tooling_config_def split: sum.splits option.splits if_splits)
  from ws have w: "distinct (map to_lower ws)" "\<forall>w \<in> set ws. trim_space w = w \<and> w \<noteq> []"
    using whitelist_loop_spec [of "tool_whitelist t" "[]" "[]" ws] by (auto simp: normalize_tool_whitelist_def)
  have p: "trim_space n = n \<and> n \<noteq> [] \<and> 0 \<le> usd_per_call v \<and> 0 \<le> quota_per_call v"
    if "(n, v) \<in> set ps" for n v
    by (rule build_map_all [OF ps [unfolded normalize_tool_pricing_map_def] _ _ that])
      (auto simp: tool_price_entry_def Let_def split: if_splits)
  have d: "distinct (map fst ps)"
    using build_map_distinct [OF ps [unfolded normalize_tool_pricing_map_def]] by simp
  have "map canonical ws = map to_lower ws" using w(2) by (simp add: canonical_def)
  then have "distinct (map canonical ws)" using w(1) by (simp only:)
  moreover have "normalize_tool_whitelist ws = Inr ws"
    using whitelist_loop_id [of "[]" ws "[]"] w by (simp add: normalize_tool_whitelist_def)
  moreover have "normalize_tool_pricing_map ps = Inr ps"
    unfolding normalize_tool_pricing_map_def
    by (rule build_map_same [OF d]) (use p in \<open>fastforce simp: tool_price_entry_def Let_def\<close>)
  ultimately show ?thesis
    using w p ne by (auto simp: cfg set_tooling_config_def normalize_channel_tooling_config_def)
qed

lemma stored_tooling_clean_witness:
  "set_tooling_config (Some \<lparr>tool_whitelist = [''B''], tool_pricing = []\<rparr>) None =
     (None, Some \<lparr>tool_whitelist = [''B''], tool_pricing = []\<rparr>)"
proof -
  have "set_tooling_config (Some \<lparr>tool_whitelist = ['' B'', ''b ''], tool_pricing = []\<rparr>) None =
      (None, Some \<lparr>tool_whitelist = [''B''], tool_pricing = []\<rparr>)" by code_simp
  from stored_tooling_clean [OF this, of None] show ?thesis by simp
qed

subsection \<open>Aliases\<close>

definition preview_config :: tooling_config where
  "preview_config = \<lparr>tool_whitelist = [''web_search_preview''],
     tool_pricing = [(''web_search_preview'', \<lparr>usd_per_call = 0, quota_per_call = 7\<rparr>)]\<rparr>"

text \<open>
  Aliases are resolved in requests but not in configurations: a channel that prices and whitelists
  \<open>web_search_preview\<close>, which the server stores without complaint, refuses a request for exactly that tool.
\<close>

theorem whitelisted_alias_refused:
  "set_tooling_config (Some preview_config) column = (None, Some preview_config) \<and>
   validate_chat_builtin_tools (Some preview_config) None False [''web_search_preview''] False = Some ''web_search''"
proof -
  have "set_tooling_config (Some preview_config) column = (None, Some preview_config)" by code_simp
  moreover have "validate_chat_builtin_tools (Some preview_config) None False [''web_search_preview''] False =
      Some ''web_search''" by code_simp
  ultimately show ?thesis by simp
qed

end
