(* ===== verification/MediaCharges.thy ===== *)
theory MediaCharges
  imports Tooling
begin

text \<open>
  Images, sound and film: the checks and the price of an image request (\<open>relay/controller/image.go\<close> with
  the tables of \<open>relay/billing/ratio/image.go\<close>), and what a chat answer that carries media costs on top of
  its tokens (\<open>output_image_billing.go\<close>, \<open>output_audio_billing.go\<close>, \<open>output_video_billing.go\<close>).

  \<open>normalizeImageSizeKey\<close> and \<open>normalizeImageQualityKey\<close> exist twice in the source, with the same body; the
  definitions of \<open>PricingConfig\<close> serve for both. The counters an adaptor leaves in the request context are
  numbers here, without the dynamic types.
\<close>

record image_request =
  ir_model :: string
  ir_prompt_length :: int
  ir_size :: string
  ir_quality :: string
  ir_n :: int

subsection \<open>Tables\<close>

definition image_size_ratios :: "(string, (string, rat) gomap) gomap" where
  "image_size_ratios =
    [(''dall-e-2'', [(''256x256'', 1), (''512x512'', 9 / 8), (''1024x1024'', 5 / 4)]),
     (''dall-e-3'', [(''1024x1024'', 1), (''1024x1792'', 2), (''1792x1024'', 2)]),
     (''gpt-image-1'', [(''1024x1024'', 1), (''1024x1536'', f64 (16 / 11)), (''1536x1024'', f64 (16 / 11))]),
     (''gpt-image-1-mini'', [(''1024x1024'', 1), (''1024x1536'', f64 (6 / 5)), (''1536x1024'', f64 (6 / 5))]),
     (''chatgpt-image-latest'', [(''1024x1024'', 1), (''1024x1536'', f64 (13 / 9)), (''1536x1024'', f64 (13 / 9))]),
     (''gpt-image-1.5'', [(''1024x1024'', 1), (''1024x1536'', f64 (13 / 9)), (''1536x1024'', f64 (13 / 9))]),
     (''gpt-image-1.5-2025-12-16'', [(''1024x1024'', 1), (''1024x1536'', f64 (13 / 9)), (''1536x1024'', f64 (13 / 9))]),
     (''ali-stable-diffusion-xl'', [(''512x1024'', 1), (''1024x768'', 1), (''1024x1024'', 1), (''576x1024'', 1),
        (''1024x576'', 1)]),
     (''ali-stable-diffusion-v1.5'', [(''512x1024'', 1), (''1024x768'', 1), (''1024x1024'', 1), (''576x1024'', 1),
        (''1024x576'', 1)]),
     (''wanx-v1'', [(''1024x1024'', 1), (''720x1280'', 1), (''1280x720'', 1)]),
     (''step-1x-medium'', [(''256x256'', 1), (''512x512'', 1), (''768x768'', 1), (''1024x1024'', 1),
        (''1280x800'', 1), (''800x1280'', 1)]),
     (''grok-2-image'', [(''1024x1024'', 1)]),
     (''grok-2-image-1212'', [(''1024x1024'', 1)])]"

definition image_generation_amounts :: "(string, int \<times> int) gomap" where
  "image_generation_amounts =
    [(''dall-e-2'', (1, 10)), (''dall-e-3'', (1, 1)), (''gpt-image-1'', (1, 1)), (''gpt-image-1-mini'', (1, 1)),
     (''chatgpt-image-latest'', (1, 1)), (''gpt-image-1.5'', (1, 1)), (''gpt-image-1.5-2025-12-16'', (1, 1)),
     (''ali-stable-diffusion-xl'', (1, 4)), (''ali-stable-diffusion-v1.5'', (1, 4)), (''wanx-v1'', (1, 4)),
     (''cogview-3'', (1, 1)), (''step-1x-medium'', (1, 1)), (''grok-2-image'', (1, 10)),
     (''grok-2-image-1212'', (1, 10))]"

definition image_prompt_length_limitations :: "(string, int) gomap" where
  "image_prompt_length_limitations =
    [(''dall-e-2'', 1000), (''dall-e-3'', 4000), (''gpt-image-1'', 4000), (''gpt-image-1-mini'', 4000),
     (''chatgpt-image-latest'', 4000), (''gpt-image-1.5'', 4000), (''gpt-image-1.5-2025-12-16'', 4000),
     (''ali-stable-diffusion-xl'', 4000), (''ali-stable-diffusion-v1.5'', 4000), (''wanx-v1'', 4000),
     (''cogview-3'', 833), (''step-1x-medium'', 4000), (''grok-2-image'', 4000), (''grok-2-image-1212'', 4000)]"

definition gpt_image_models :: "string list" where
  "gpt_image_models = [''gpt-image-1'', ''gpt-image-1-mini'', ''chatgpt-image-latest'', ''gpt-image-1.5'',
     ''gpt-image-1.5-2025-12-16'']"

subsection \<open>Defaults and checks\<close>

definition apply_image_defaults :: "image_pricing option \<Rightarrow> image_request \<Rightarrow> image_request" where
  "apply_image_defaults cfg req =
     (let req = (case cfg of None \<Rightarrow> req
         | Some c \<Rightarrow>
            let req = (if ir_size req = [] \<and> i_default_size c \<noteq> []
                       then req\<lparr>ir_size := i_default_size c\<rparr> else req);
                req = (if ir_quality req = [] \<and> i_default_quality c \<noteq> []
                       then req\<lparr>ir_quality := i_default_quality c\<rparr> else req);
                req = (if i_min_images c > 0 \<and> ir_n req < i_min_images c
                       then req\<lparr>ir_n := i_min_images c\<rparr> else req) in
            if i_max_images c > 0 \<and> i_max_images c \<ge> i_min_images c \<and> ir_n req > i_max_images c
            then req\<lparr>ir_n := i_max_images c\<rparr> else req);
          req = (if ir_size req = []
                 then req\<lparr>ir_size := (if ir_model req \<in> set gpt_image_models then ''1024x1536'' else ''1024x1024'')\<rparr>
                 else req) in
      if ir_quality req = []
      then req\<lparr>ir_quality := (if ir_model req \<in> set gpt_image_models then ''high'' else ''standard'')\<rparr>
      else req)"

definition quality_key :: "image_request \<Rightarrow> string" where
  "quality_key req =
     (let key = normalize_image_quality_key (ir_quality req) in if key = [] then ''default'' else key)"

definition listed_size :: "image_pricing \<Rightarrow> string \<Rightarrow> string \<Rightarrow> bool" where
  "listed_size cfg quality size_key =
     (case map_of (i_quality_size_multipliers cfg) quality of
        None \<Rightarrow> False | Some table \<Rightarrow> map_of table size_key \<noteq> None)"

definition is_valid_image_size :: "image_request \<Rightarrow> image_pricing option \<Rightarrow> bool" where
  "is_valid_image_size req cfg =
     (let size_key = normalize_image_size_key (ir_size req) in
      case cfg of
        Some c \<Rightarrow>
          if i_quality_size_multipliers c \<noteq> [] then
            if listed_size c (quality_key req) size_key then True
            else if quality_key req \<noteq> ''default'' then False
            else listed_size c ''default'' size_key
          else if i_size_multipliers c \<noteq> [] then map_of (i_size_multipliers c) size_key \<noteq> None
          else ir_size req \<noteq> []
      | None \<Rightarrow>
          if ir_model req = ''cogview-3'' then True
          else (case map_of image_size_ratios (ir_model req) of
                  None \<Rightarrow> True | Some table \<Rightarrow> map_of table (ir_size req) \<noteq> None))"

definition is_valid_image_prompt_length :: "image_request \<Rightarrow> image_pricing option \<Rightarrow> bool" where
  "is_valid_image_prompt_length req cfg =
     (case cfg of
        Some c \<Rightarrow>
          if i_prompt_token_limit c > 0 then ir_prompt_length req \<le> i_prompt_token_limit c
          else (case map_of image_prompt_length_limitations (ir_model req) of
                  None \<Rightarrow> True | Some limit \<Rightarrow> ir_prompt_length req \<le> limit)
      | None \<Rightarrow>
          (case map_of image_prompt_length_limitations (ir_model req) of
             None \<Rightarrow> True | Some limit \<Rightarrow> ir_prompt_length req \<le> limit))"

definition is_within_range :: "image_request \<Rightarrow> image_pricing option \<Rightarrow> bool" where
  "is_within_range req cfg =
     (case cfg of
        Some c \<Rightarrow>
          if i_min_images c > 0 \<and> ir_n req < i_min_images c then False
          else if i_max_images c > 0 \<and> ir_n req > i_max_images c then False
          else True
      | None \<Rightarrow>
          (case map_of image_generation_amounts (ir_model req) of
             None \<Rightarrow> True | Some (low, high) \<Rightarrow> low \<le> ir_n req \<and> ir_n req \<le> high))"

definition validate_image_request :: "image_request \<Rightarrow> image_pricing option \<Rightarrow> string option" where
  "validate_image_request req cfg =
     (if ir_prompt_length req = 0 then Some ''prompt_missing''
      else if \<not> is_valid_image_size req cfg then Some ''size_not_supported''
      else if \<not> is_valid_image_prompt_length req cfg then Some ''prompt_too_long''
      else if \<not> is_within_range req cfg then Some ''n_not_within_range''
      else if cfg = None \<and> ir_model req = ''dall-e-3'' \<and> ir_quality req \<noteq> [] \<and>
        to_lower (ir_quality req) \<noteq> ''standard'' \<and> to_lower (ir_quality req) \<noteq> ''hd'' then Some ''invalid_value''
      else None)"

subsection \<open>The price of an image\<close>

definition get_image_size_ratio_fallback :: "string \<Rightarrow> string \<Rightarrow> rat" where
  "get_image_size_ratio_fallback model dims =
     (case map_of image_size_ratios model of None \<Rightarrow> 1
      | Some table \<Rightarrow> (case map_of table dims of None \<Rightarrow> 1 | Some r \<Rightarrow> r))"

text \<open>A multiplier found in a table and positive.\<close>

definition positive_tier :: "(string, rat) gomap \<Rightarrow> string \<Rightarrow> rat option" where
  "positive_tier table key =
     (case map_of table key of None \<Rightarrow> None | Some v \<Rightarrow> if v > 0 then Some v else None)"

definition tier_of :: "(string, rat) gomap option \<Rightarrow> string \<Rightarrow> rat option" where
  "tier_of table key = (case table of None \<Rightarrow> None | Some t \<Rightarrow> positive_tier t key)"

definition get_image_cost_ratio :: "image_request \<Rightarrow> image_pricing option \<Rightarrow> string + rat" where
  "get_image_cost_ratio req cfg =
     (case cfg of
        Some c \<Rightarrow>
          let size_key = normalize_image_size_key (ir_size req); q = quality_key req in
          if i_quality_size_multipliers c \<noteq> [] then
            (case tier_of (map_of (i_quality_size_multipliers c) q) size_key of
               Some v \<Rightarrow> Inr v
             | None \<Rightarrow>
                 if q \<noteq> ''default'' then Inl ''quality not supported for model''
                 else (case tier_of (map_of (i_quality_size_multipliers c) ''default'') size_key of
                         Some v \<Rightarrow> Inr v
                       | None \<Rightarrow> Inl ''size not supported for quality''))
          else
            (case (if i_size_multipliers c \<noteq> []
                   then (case positive_tier (i_size_multipliers c) size_key of
                           Some v \<Rightarrow> Inr v | None \<Rightarrow> Inl ''size not supported for model'')
                   else Inr 1) of
               Inl e \<Rightarrow> Inl e
             | Inr m \<Rightarrow>
            (case (if i_quality_multipliers c \<noteq> []
                   then (case positive_tier (i_quality_multipliers c) q of
                           Some v \<Rightarrow> Inr (fmul m v)
                         | None \<Rightarrow> if q \<noteq> ''default'' then Inl ''quality not supported for model'' else Inr m)
                   else Inr m) of
               Inl e \<Rightarrow> Inl e
             | Inr m \<Rightarrow> Inr (if m \<le> 0 then 1 else m)))
      | None \<Rightarrow>
          let r = get_image_size_ratio_fallback (ir_model req) (ir_size req);
              r = (if ir_quality req = ''hd'' \<and> ir_model req = ''dall-e-3''
                   then (if ir_size req = ''1024x1024'' then fmul r 2 else fmul r (3 / 2)) else r) in
          Inr (if r \<le> 0 then 1 else r))"

definition get_channel_image_tier_override ::
  "(string, rat) gomap \<Rightarrow> string \<Rightarrow> string \<Rightarrow> string \<Rightarrow> rat option" where
  "get_channel_image_tier_override ratios model dims quality =
     (case positive_tier ratios (''$image-tier:'' @ model @ ''|size='' @ dims @ ''|quality='' @ quality) of
        Some v \<Rightarrow> Some v
      | None \<Rightarrow>
     (case positive_tier ratios (''$image-tier:'' @ model @ ''|size='' @ dims) of
        Some v \<Rightarrow> Some v
      | None \<Rightarrow> positive_tier ratios (''$image-tier:'' @ model @ ''|quality='' @ quality)))"

definition calculate_image_base_quota :: "rat \<Rightarrow> rat \<Rightarrow> rat \<Rightarrow> rat \<Rightarrow> int \<Rightarrow> int" where
  "calculate_image_base_quota image_price_usd ratio cost_ratio group_ratio count =
     (if count \<le> 0 then 0
      else if image_price_usd > 0 then
        let per_image = \<lceil>fmul (fmul (fmul image_price_usd quota_per_usd) cost_ratio) group_ratio\<rceil> in
        if per_image \<le> 0 then 0 else per_image * count
      else if ratio \<le> 0 then 0
      else
        let per_image = \<lceil>fmul ratio cost_ratio\<rceil> in
        if per_image \<le> 0 then 0 else per_image * count)"

subsection \<open>Image tokens\<close>

record image_bucket_prices =
  input_text_usd :: rat
  cached_input_text_usd :: rat
  input_image_usd :: rat
  cached_input_image_usd :: rat
  output_image_usd :: rat

definition gpt_image_token_bucket_prices :: "(string, image_bucket_prices) gomap" where
  "gpt_image_token_bucket_prices =
    (let latest = \<lparr>input_text_usd = 5, cached_input_text_usd = 5 / 4, input_image_usd = 8,
                    cached_input_image_usd = 2, output_image_usd = 32\<rparr> in
     [(''gpt-image-1'', \<lparr>input_text_usd = 5, cached_input_text_usd = 5 / 4, input_image_usd = 10,
         cached_input_image_usd = 5 / 2, output_image_usd = 40\<rparr>),
      (''gpt-image-1-mini'', \<lparr>input_text_usd = 2, cached_input_text_usd = f64 (1 / 5), input_image_usd = 5 / 2,
         cached_input_image_usd = 1 / 4, output_image_usd = 8\<rparr>),
      (''chatgpt-image-latest'', latest), (''gpt-image-1.5'', latest), (''gpt-image-1.5-2025-12-16'', latest)])"

definition milli_tokens_usd :: rat where
  "milli_tokens_usd = 1 / 2"

text \<open>\<open>(cachedText, cachedImage)\<close> of \<open>cached\<close> tokens; \<open>math.Round\<close> of a non-negative number.\<close>

definition split_cached :: "int \<Rightarrow> int \<Rightarrow> int \<Rightarrow> int \<times> int" where
  "split_cached text_in image_in cached =
     (let total = text_in + image_in in
      if cached > 0 \<and> total > 0 then
        let share = \<lfloor>fmul (of_go_int cached) (fdiv (of_go_int text_in) (of_go_int total)) + 1 / 2\<rfloor>;
            cached_text = min (max share 0) cached in
        (cached_text, cached - cached_text)
      else (0, 0))"

definition bucket_cost :: "int \<Rightarrow> rat \<Rightarrow> rat" where
  "bucket_cost n usd = fmul (fmul (of_go_int n) usd) milli_tokens_usd"

definition compute_gpt_image_token_quota :: "string \<Rightarrow> usage option \<Rightarrow> rat \<Rightarrow> rat" where
  "compute_gpt_image_token_quota model u group_ratio =
     (case (u, map_of gpt_image_token_bucket_prices model) of
        (Some u, Some prices) \<Rightarrow>
          let d = (case prompt_tokens_details u of None \<Rightarrow> no_details | Some d \<Rightarrow> d);
              text_in = max (text_tokens d) 0; image_in = max (image_tokens d) 0;
              cached = min (max (cached_tokens d) 0) (text_in + image_in) in
          (case split_cached text_in image_in cached of
             (cached_text, cached_image) \<Rightarrow>
               let quota = fadd (fadd (fadd (fadd
                     (bucket_cost (max (text_in - cached_text) 0) (input_text_usd prices))
                     (bucket_cost cached_text (cached_input_text_usd prices)))
                     (bucket_cost (max (image_in - cached_image) 0) (input_image_usd prices)))
                     (bucket_cost cached_image (cached_input_image_usd prices)))
                     (bucket_cost (max (completion_tokens u) 0) (output_image_usd prices)) in
               if group_ratio > 0 then fmul quota group_ratio else quota)
      | _ \<Rightarrow> 0)"

definition compute_image_usage_quota :: "string \<Rightarrow> usage option \<Rightarrow> rat \<Rightarrow> rat" where
  "compute_image_usage_quota model u group_ratio =
     (case u of None \<Rightarrow> 0
      | Some v \<Rightarrow>
         if prompt_tokens v = 0 \<and> completion_tokens v = 0 \<and> prompt_tokens_details v = None then 0
         else if model \<in> set gpt_image_models then compute_gpt_image_token_quota model u group_ratio
         else 0)"

definition compute_legacy_image_token_quota :: "string \<Rightarrow> usage option \<Rightarrow> rat \<Rightarrow> rat" where
  "compute_legacy_image_token_quota model u group_ratio =
     (case (case u of None \<Rightarrow> None | Some v \<Rightarrow> prompt_tokens_details v) of
        None \<Rightarrow> 0
      | Some d \<Rightarrow>
         let cost = (\<lambda>image_usd. fadd (bucket_cost (max (text_tokens d) 0) 5)
                        (bucket_cost (max (image_tokens d) 0) image_usd));
             scaled = (\<lambda>q. if group_ratio > 0 then fmul q group_ratio else q) in
         if model \<in> set [''gpt-image-1'', ''gpt-image-1-mini''] then scaled (cost 10)
         else if model \<in> set [''chatgpt-image-latest'', ''gpt-image-1.5'', ''gpt-image-1.5-2025-12-16'']
         then scaled (cost 8)
         else 0)"

record image_quota_summary =
  base_quota :: int
  token_quota :: int
  token_quota_float :: rat
  image_total_quota :: int

definition finalize_image_quota ::
  "int \<Rightarrow> bool \<Rightarrow> string \<Rightarrow> string \<Rightarrow> usage option \<Rightarrow> rat \<Rightarrow> image_quota_summary" where
  "finalize_image_quota base per_image_billing image_model actual_model u group_ratio =
     (let summary = \<lparr>base_quota = base, token_quota = 0, token_quota_float = 0, image_total_quota = base\<rparr> in
      if u = None then summary
      else
        let quota_float = max (compute_image_usage_quota image_model u group_ratio) 0;
            quota = max \<lceil>quota_float\<rceil> 0;
            summary = summary\<lparr>token_quota_float := quota_float, token_quota := quota\<rparr> in
        if per_image_billing then
          (if quota > 0 then summary\<lparr>image_total_quota := base + quota\<rparr> else summary)
        else if quota > 0 then summary\<lparr>image_total_quota := quota\<rparr>
        else
          let fallback = compute_legacy_image_token_quota actual_model u group_ratio in
          if fallback > 0 then
            let fallback_quota = max \<lceil>fallback\<rceil> 0 in
            summary\<lparr>token_quota_float := fallback, token_quota := fallback_quota,
              image_total_quota := base + fallback_quota\<rparr>
          else summary)"

subsection \<open>Media in an answer\<close>

text \<open>\<open>outputBillingContextFromRequest\<close>, and what the adaptor counted.\<close>

record output_billing_context =
  ob_channel_model_ratio :: "(string, rat) gomap"
  ob_channel_model_configs :: price_table
  ob_pricing_adaptor :: "provider option"
  ob_group_ratio :: rat
  ob_model_name :: string
  ob_prompt_tokens :: int

record output_counts =
  output_image_count :: int
  output_audio_seconds :: rat
  output_audio_tokens :: int
  output_video_seconds :: rat
  output_video_resolution :: string

text \<open>The common end of the three functions: \<open>usage.PromptTokens\<close> is filled in and the cost added.\<close>

definition add_output_quota :: "output_billing_context \<Rightarrow> int \<Rightarrow> usage \<Rightarrow> usage" where
  "add_output_quota b quota u =
     (let u = (if prompt_tokens u = 0 \<and> ob_prompt_tokens b > 0 then u\<lparr>prompt_tokens := ob_prompt_tokens b\<rparr> else u) in
      u\<lparr>tools_cost := tools_cost u + quota\<rparr>)"

definition the_usage :: "usage option \<Rightarrow> usage" where
  "the_usage u = (case u of None \<Rightarrow> empty_usage | Some u \<Rightarrow> u)"

definition charge_output :: "output_billing_context \<Rightarrow> int \<Rightarrow> usage option \<Rightarrow> usage option" where
  "charge_output b quota u = Some (if quota \<le> 0 then the_usage u else add_output_quota b quota (the_usage u))"

definition output_image_quota :: "output_billing_context \<Rightarrow> int \<Rightarrow> image_pricing \<Rightarrow> int" where
  "output_image_quota b count pricing =
     (let dims = (if i_default_size pricing = [] then ''1024x1024'' else i_default_size pricing);
          quality = (if i_default_quality pricing = [] then ''standard'' else i_default_quality pricing);
          req = \<lparr>ir_model = ob_model_name b, ir_prompt_length = 0, ir_size = dims, ir_quality = quality, ir_n = count\<rparr> in
      case get_image_cost_ratio req (Some pricing) of
        Inl e \<Rightarrow> 0
      | Inr r \<Rightarrow>
          let r = (case get_channel_image_tier_override (ob_channel_model_ratio b) (ob_model_name b) dims quality of
                     None \<Rightarrow> r | Some override \<Rightarrow> override) in
          calculate_image_base_quota (i_price_per_image_usd pricing) 0 r (ob_group_ratio b) count)"

definition apply_output_image_charges ::
  "output_billing_context \<Rightarrow> int \<Rightarrow> usage option \<times> gpm \<Rightarrow> usage option \<times> gpm" where
  "apply_output_image_charges b raw_count ug =
     (case ug of (u, g) \<Rightarrow>
      let count = max raw_count 0 in
      if count = 0 \<or> ob_pricing_adaptor b = None then (u, g)
      else
        (case resolve_image_pricing (ob_model_name b) (ob_channel_model_configs b) (ob_pricing_adaptor b) g of
           (pricing, g) \<Rightarrow>
           (case pricing of
              None \<Rightarrow> (Some (the_usage u), g)
            | Some p \<Rightarrow>
                if i_price_per_image_usd p \<le> 0 then (Some (the_usage u), g)
                else
                  (charge_output b (output_image_quota b count p) u, g))))"

definition apply_output_audio_charges ::
  "output_billing_context \<Rightarrow> rat \<Rightarrow> int \<Rightarrow> usage option \<times> gpm \<Rightarrow> usage option \<times> gpm" where
  "apply_output_audio_charges b raw_seconds raw_tokens ug =
     (case ug of (u, g) \<Rightarrow>
      let seconds = max raw_seconds 0; tokens = max raw_tokens 0 in
      if seconds \<le> 0 \<and> tokens = 0 \<or> ob_pricing_adaptor b = None then (u, g)
      else
        (case resolve_audio_pricing (ob_model_name b) (ob_channel_model_configs b) (ob_pricing_adaptor b) g of
           (pricing, g) \<Rightarrow>
           (case pricing of
              None \<Rightarrow> (Some (the_usage u), g)
            | Some p \<Rightarrow>
                if \<not> audio_has_data (Some p) then (Some (the_usage u), g)
                else
                  (case (if seconds > 0 \<and> a_usd_per_second p > 0
                     then (\<lceil>fmul (fmul (fmul seconds (a_usd_per_second p)) quota_per_usd) (ob_group_ratio b)\<rceil>, g)
                     else if tokens > 0 then
                       (case get_model_ratio_with_three_layers (ob_model_name b) (ob_channel_model_ratio b)
                               (ob_pricing_adaptor b) g of
                          (model_ratio, g) \<Rightarrow>
                            let prompt_ratio = (if a_prompt_ratio p > 0 then a_prompt_ratio p else 16);
                                completion_ratio = (if a_completion_ratio p > 0 then a_completion_ratio p else 2) in
                            (\<lceil>fmul (fmul (fmul (fmul (of_go_int tokens) prompt_ratio) completion_ratio) model_ratio)
                                (ob_group_ratio b)\<rceil>, g))
                     else (0, g)) of
                     (quota, g) \<Rightarrow> (charge_output b quota u, g)))))"

definition apply_output_video_charges ::
  "output_billing_context \<Rightarrow> rat \<Rightarrow> string \<Rightarrow> usage option \<times> gpm \<Rightarrow> usage option \<times> gpm" where
  "apply_output_video_charges b raw_seconds resolution ug =
     (case ug of (u, g) \<Rightarrow>
      let seconds = max raw_seconds 0 in
      if seconds \<le> 0 \<or> ob_pricing_adaptor b = None then (u, g)
      else
        let override = (case map_of (ob_channel_model_configs b) (ob_model_name b) of None \<Rightarrow> None
                        | Some cfg \<Rightarrow> convert_local_video (lc_video cfg)) in
        (case get_video_pricing_with_three_layers (ob_model_name b) override (ob_pricing_adaptor b) g of
           (pricing, g) \<Rightarrow>
           (case pricing of
              None \<Rightarrow> (Some (the_usage u), g)
            | Some p \<Rightarrow>
                if v_per_second_usd p \<le> 0 then (Some (the_usage u), g)
                else
                  let multiplier = effective_multiplier (Some p) (trim_space resolution);
                      cost_usd = fmul (fmul (v_per_second_usd p) multiplier) seconds;
                      quota = \<lceil>fmul (fmul cost_usd quota_per_usd) (ob_group_ratio b)\<rceil> in
                  (charge_output b quota u, g))))"

definition apply_output_charges ::
  "output_billing_context \<Rightarrow> output_counts \<Rightarrow> usage option \<times> gpm \<Rightarrow> usage option \<times> gpm" where
  "apply_output_charges b c ug =
     apply_output_video_charges b (output_video_seconds c) (output_video_resolution c)
       (apply_output_audio_charges b (output_audio_seconds c) (output_audio_tokens c)
         (apply_output_image_charges b (output_image_count c) ug))"

subsection \<open>Accepted requests have a price\<close>

lemma positive_tier_pos: "positive_tier t k = Some v \<Longrightarrow> 0 < v"
  by (auto simp: positive_tier_def split: option.splits if_splits)

lemma tier_of_pos: "tier_of t k = Some v \<Longrightarrow> 0 < v"
  by (auto simp: tier_of_def positive_tier_pos split: option.splits)

lemma get_image_cost_ratio_pos: "get_image_cost_ratio req cfg = Inr r \<Longrightarrow> 0 < r"
  by (auto simp: get_image_cost_ratio_def Let_def tier_of_pos split: option.splits sum.splits if_splits)

text \<open>The multipliers of a configuration are positive, as those of a stored channel table are.\<close>

definition positive_table :: "(string, rat) gomap \<Rightarrow> bool" where
  "positive_table t \<longleftrightarrow> (\<forall>k v. map_of t k = Some v \<longrightarrow> 0 < v)"

definition positive_tables :: "image_pricing \<Rightarrow> bool" where
  "positive_tables c \<longleftrightarrow> positive_table (i_size_multipliers c) \<and>
     (\<forall>q t. map_of (i_quality_size_multipliers c) q = Some t \<longrightarrow> positive_table t)"

lemma positive_tier_listed: "positive_table t \<Longrightarrow> map_of t k = Some v \<Longrightarrow> positive_tier t k = Some v"
  by (simp add: positive_table_def positive_tier_def)

lemma listed_size_tier:
  "positive_tables c \<Longrightarrow> listed_size c q dims \<Longrightarrow>
   \<exists>v. tier_of (map_of (i_quality_size_multipliers c) q) dims = Some v"
  by (auto simp: listed_size_def tier_of_def positive_tables_def positive_tier_listed split: option.splits)

definition quality_known :: "image_pricing \<Rightarrow> image_request \<Rightarrow> bool" where
  "quality_known c req \<longleftrightarrow> i_quality_size_multipliers c \<noteq> [] \<or> i_quality_multipliers c = [] \<or>
     quality_key req = ''default'' \<or> positive_tier (i_quality_multipliers c) (quality_key req) \<noteq> None"



text \<open>After the defaults the image count is in range, so that check cannot fail for a configured model.\<close>

lemma defaults_within_range:
  assumes "i_max_images c \<le> 0 \<or> i_min_images c \<le> i_max_images c"
  shows "is_within_range (apply_image_defaults (Some c) req) (Some c)"
  using assms by (auto simp: apply_image_defaults_def is_within_range_def Let_def)

subsection \<open>Media only adds\<close>

definition only_adds :: "usage option \<Rightarrow> usage option \<Rightarrow> bool" where
  "only_adds u v \<longleftrightarrow> tools_cost (the_usage u) \<le> tools_cost (the_usage v) \<and>
     (v = None \<longrightarrow> u = None) \<and>
     completion_tokens (the_usage v) = completion_tokens (the_usage u) \<and>
     (prompt_tokens (the_usage u) \<noteq> 0 \<longrightarrow> prompt_tokens (the_usage v) = prompt_tokens (the_usage u)) \<and>
     (prompt_tokens (the_usage u) = 0 \<longrightarrow> 0 \<le> prompt_tokens (the_usage v))"

lemma only_adds_refl [simp]: "only_adds u u"
  by (simp add: only_adds_def)

lemma only_adds_trans: "only_adds u v \<Longrightarrow> only_adds v w \<Longrightarrow> only_adds u w"
  by (auto simp: only_adds_def)

lemma only_adds_filled [simp]: "only_adds u (Some (the_usage u))"
  by (auto simp: only_adds_def the_usage_def)

lemma only_adds_charge [simp]: "only_adds u (charge_output b quota u)"
  by (auto simp: only_adds_def charge_output_def add_output_quota_def the_usage_def Let_def)

lemma image_only_adds: "only_adds (fst ug) (fst (apply_output_image_charges b n ug))"
  by (auto simp: apply_output_image_charges_def Let_def split: prod.splits option.splits)

lemma audio_only_adds: "only_adds (fst ug) (fst (apply_output_audio_charges b secs n ug))"
  by (auto simp: apply_output_audio_charges_def Let_def
      split: prod.splits option.splits)

lemma video_only_adds: "only_adds (fst ug) (fst (apply_output_video_charges b secs r ug))"
  by (auto simp: apply_output_video_charges_def Let_def
      split: prod.splits option.splits)

lemma output_only_adds: "only_adds u (fst (apply_output_charges b c (u, g)))"
  unfolding apply_output_charges_def
  using image_only_adds [of "(u, g)"] audio_only_adds video_only_adds
  by (metis fst_conv only_adds_trans)

text \<open>
  Whatever media an answer carries and whatever its prices are, charging for it never lowers the cost of
  the request, drops a reported usage or changes its completion tokens, and it replaces the prompt tokens
  only where the upstream reported none.
\<close>

theorem output_charges_only_add: "only_adds u (fst (apply_output_charges b c (u, g)))"
  by (rule output_only_adds)

subsection \<open>Free groups\<close>

lemma image_hundred: "bucket_cost 100 40 = 2000" "bucket_cost 0 r = 0" "fadd 0 2000 = 2000" "fadd 0 0 = 0"
  by (simp_all add: bucket_cost_def milli_tokens_usd_def float_ops f64_numeral)

text \<open>
  A group with ratio zero, where everything else is free, pays the full price for the tokens of an
  image: the group ratio is applied only when it is positive. Here 100 output tokens of \<open>gpt-image-1\<close> cost
  2000 units.
\<close>

theorem free_group_pays_image_tokens:
  "image_total_quota (finalize_image_quota 0 False ''gpt-image-1'' ''gpt-image-1'' (Some (example_usage 0 100)) 0) = 2000"
  by (simp add: finalize_image_quota_def compute_image_usage_quota_def gpt_image_models_def
      compute_gpt_image_token_quota_def gpt_image_token_bucket_prices_def example_usage_def no_details_def
      split_cached_def image_hundred Let_def)

end
