(* ===== verification/SteadyPrices.thy ===== *)
theory SteadyPrices
  imports MediaCharges
begin

text \<open>
  The global pricing manager is filled at the first lookup that reaches it, so a price computation may
  change it. Every lookup of \<open>Pricing\<close>, \<open>QuotaCompute\<close> and \<open>MediaCharges\<close> is \<open>steady\<close>: it reads the manager
  only once it is filled, and changes nothing else. So the price of a usage is the same before and after any
  other computation.
\<close>

lemma ensure_initialized_idem [simp]: "ensure_initialized (ensure_initialized g) = ensure_initialized g"
  by (simp add: ensure_initialized_def initialize_unsafe_def split: option.split)

definition steady :: "(gpm \<Rightarrow> 'r \<times> gpm) \<Rightarrow> bool" where
  "steady f \<longleftrightarrow> (\<forall>g. fst (f (ensure_initialized g)) = fst (f g) \<and>
     ensure_initialized (snd (f g)) = ensure_initialized g)"

named_theorems steady_intros

lemma steady_return [steady_intros]: "steady (\<lambda>g. (r, g))"
  by (simp add: steady_def)

lemma steady_bind [steady_intros]:
  assumes "steady f" and "\<And>r. steady (k r)"
  shows "steady (\<lambda>g. case f g of (r, g) \<Rightarrow> k r g)"
proof -
  have k: "fst (k r (ensure_initialized g)) = fst (k r g)"
    "ensure_initialized (snd (k r g)) = ensure_initialized g" for r g
    using assms(2) [of r] by (auto simp: steady_def)
  have f: "fst (f (ensure_initialized g)) = fst (f g)"
    "ensure_initialized (snd (f g)) = ensure_initialized g" for g
    using assms(1) by (auto simp: steady_def)
  show ?thesis
    unfolding steady_def
  proof (intro allI conjI)
    fix g
    obtain r g1 where 1: "f g = (r, g1)" by (cases "f g")
    obtain r2 g2 where 2: "f (ensure_initialized g) = (r2, g2)" by (cases "f (ensure_initialized g)")
    have e: "r2 = r" "ensure_initialized g1 = ensure_initialized g" "ensure_initialized g2 = ensure_initialized g"
      using f(1) [of g] f(2) [of g] f(2) [of "ensure_initialized g"] by (simp_all add: 1 2)
    show "fst (case f (ensure_initialized g) of (r, g) \<Rightarrow> k r g) = fst (case f g of (r, g) \<Rightarrow> k r g)"
      using k(1) [of r g1] k(1) [of r g2] by (simp add: 1 2 e)
    show "ensure_initialized (snd (case f g of (r, g) \<Rightarrow> k r g)) = ensure_initialized g"
      using k(2) [of r g1] by (simp add: 1 e)
  qed
qed

lemma steady_option [steady_intros]:
  "(x = None \<Longrightarrow> steady f) \<Longrightarrow> (\<And>y. x = Some y \<Longrightarrow> steady (h y)) \<Longrightarrow>
   steady (\<lambda>g. case x of None \<Rightarrow> f g | Some y \<Rightarrow> h y g)"
  by (cases x) simp_all

lemma steady_if [steady_intros]:
  "(c \<Longrightarrow> steady f) \<Longrightarrow> (\<not> c \<Longrightarrow> steady h) \<Longrightarrow> steady (\<lambda>g. if c then f g else h g)"
  by (cases c) simp_all

lemma steady_pair [steady_intros]:
  "(\<And>a b. x = (a, b) \<Longrightarrow> steady (h a b)) \<Longrightarrow> steady (\<lambda>g. case x of (a, b) \<Rightarrow> h a b g)"
  by (cases x) simp

lemma steady_D:
  assumes "steady f" and "f g = (r, g')"
  shows "ensure_initialized g' = ensure_initialized g"
    and "ensure_initialized g = ensure_initialized h \<Longrightarrow> fst (f h) = r"
proof -
  show "ensure_initialized g' = ensure_initialized g"
    using assms by (metis steady_def snd_conv)
  assume "ensure_initialized g = ensure_initialized h"
  then show "fst (f h) = r" using assms by (metis steady_def fst_conv)
qed

subsection \<open>Lookups\<close>

lemma steady_globals [steady_intros]:
  "steady (get_global_model_ratio name)" "steady (get_global_completion_ratio name)"
  "steady (get_global_model_config name)" "steady (get_global_model_config_ratio_only name)"
  "steady (get_global_video_pricing name)" "steady (get_global_audio_pricing name)"
  "steady (get_global_image_pricing name)"
  by (simp_all add: steady_def get_global_model_ratio_def get_global_completion_ratio_def
      get_global_model_config_def get_global_model_config_ratio_only_def get_global_video_pricing_def
      get_global_audio_pricing_def get_global_image_pricing_def Let_def)

lemma steady_resolve_model_config_ratio_only [steady_intros]:
  "steady (resolve_model_config_ratio_only name cfgs provider)"
  unfolding resolve_model_config_ratio_only_def by (intro steady_intros)

lemma steady_model_ratio [steady_intros]: "steady (get_model_ratio_with_three_layers name overrides adaptor)"
  unfolding get_model_ratio_with_three_layers_def by (intro steady_intros)

lemma steady_completion_ratio [steady_intros]:
  "steady (get_completion_ratio_with_three_layers name overrides adaptor)"
  unfolding get_completion_ratio_with_three_layers_def by (intro steady_intros)

lemma steady_resolve_completion [steady_intros]:
  "steady (resolve_completion_ratio name resolved overrides adaptor)"
  unfolding resolve_completion_ratio_def by (intro steady_intros)

lemma steady_video [steady_intros]: "steady (get_video_pricing_with_three_layers name override provider)"
  unfolding get_video_pricing_with_three_layers_def Let_def by (intro steady_intros)

lemma steady_audio [steady_intros]: "steady (resolve_audio_pricing name cfgs provider)"
  unfolding resolve_audio_pricing_def Let_def by (intro steady_intros)

lemma steady_image [steady_intros]: "steady (resolve_image_pricing name cfgs provider)"
  unfolding resolve_image_pricing_def Let_def by (intro steady_intros)

lemma steady_compute: "steady (compute i)"
  unfolding compute_def Let_def by (intro steady_intros)


text \<open>The media charges thread the usage beside the manager.\<close>

lemma steady_image_charges [steady_intros]: "steady (\<lambda>g. apply_output_image_charges b n (u, g))"
  unfolding apply_output_image_charges_def Let_def by (simp, intro steady_intros)

lemma steady_audio_charges [steady_intros]: "steady (\<lambda>g. apply_output_audio_charges b secs n (u, g))"
  unfolding apply_output_audio_charges_def Let_def by (simp, intro steady_intros)

lemma steady_video_charges [steady_intros]: "steady (\<lambda>g. apply_output_video_charges b secs r (u, g))"
  unfolding apply_output_video_charges_def Let_def by (simp, intro steady_intros)

lemma steady_output_charges: "steady (\<lambda>g. apply_output_charges b c (u, g))"
proof -
  have "(\<lambda>g. apply_output_charges b c (u, g)) =
      (\<lambda>g. case apply_output_image_charges b (output_image_count c) (u, g) of (u, g) \<Rightarrow>
         case apply_output_audio_charges b (output_audio_seconds c) (output_audio_tokens c) (u, g) of (u, g) \<Rightarrow>
           apply_output_video_charges b (output_video_seconds c) (output_video_resolution c) (u, g))"
    by (simp add: apply_output_charges_def fun_eq_iff split: prod.split)
  then show ?thesis by (simp only:) (intro steady_intros)
qed

end
