(* ===== verification/Store.thy ===== *)
theory Store
  imports Prelude
begin

text \<open>
  The database and cache that the \<open>model\<close> package works on, as an explicit state.

  The tables are maps from primary keys to rows; only the columns the modelled code reads or
  writes are kept. A SQL statement of the source is a function on the tables with the number
  of rows it touched, written from its \<open>WHERE\<close> and \<open>SET\<close> parts. Whether the driver runs it
  is the environment's choice: \<open>outcomes\<close> lists what the next external calls (SQL or Redis)
  will report, \<open>Done\<close> once the list is used up. A call that does not report \<open>Done\<close> has no
  effect, as a single SQL statement is atomic. Theorems quantify over all outcome lists, so
  every failure at every point is covered. Later theories add their tables by extending the
  record.
\<close>

datatype outcome = Done | Busy | Failed

record user_row =
  u_quota :: int
  u_used_quota :: int
  u_request_count :: int
  u_email :: string

record token_row =
  t_user_id :: int
  t_key :: string
  t_name :: string
  t_status :: int
  t_expired_time :: int
  t_remain_quota :: int
  t_unlimited_quota :: bool
  t_used_quota :: int
  t_accessed_time :: int

datatype batch_type = BatchUserQuota | BatchTokenQuota | BatchUsedQuota | BatchChannelUsedQuota
  | BatchRequestCount

record world =
  users :: "int \<rightharpoonup> user_row"
  tokens :: "int \<rightharpoonup> token_row"
  channel_used_quota :: "int \<rightharpoonup> int"
  token_key_index :: "string \<rightharpoonup> int"          \<comment> \<open>the unique index on \<open>tokens.key\<close>\<close>
  token_cache :: "string \<rightharpoonup> int \<times> token_row" \<comment> \<open>Redis, keys \<open>token:KEY\<close>\<close>
  batch_stores :: "batch_type \<Rightarrow> int \<rightharpoonup> int"
  reminders :: "(string \<times> bool \<times> int) list"  \<comment> \<open>reminder mails handed to the mailer\<close>
  clock :: int
  using_sqlite :: bool
  redis_enabled :: bool
  batch_update_enabled :: bool
  quota_remind_threshold :: int
  outcomes :: "outcome list"
  wait_cancelled :: "nat \<Rightarrow> bool"             \<comment> \<open>context done while waiting before attempt \<open>n\<close>\<close>

subsection \<open>External calls\<close>

definition next_outcome :: "'a world_scheme \<Rightarrow> outcome \<times> 'a world_scheme" where
  "next_outcome s =
     (case outcomes s of [] \<Rightarrow> (Done, s) | r # rs \<Rightarrow> (r, s\<lparr>outcomes := rs\<rparr>))"

definition exec ::
  "('a world_scheme \<Rightarrow> 'r \<times> 'a world_scheme) \<Rightarrow> 'a world_scheme \<Rightarrow>
   (outcome + 'r) \<times> 'a world_scheme" where
  "exec f s =
     (case next_outcome s of
        (Done, s') \<Rightarrow> (case f s' of (r, s'') \<Rightarrow> (Inr r, s''))
      | (e, s') \<Rightarrow> (Inl e, s'))"

text \<open>
  \<open>runWithSQLiteBusyRetry\<close> (\<open>model/sqlite_retry.go\<close>): \<open>busy_loop k n\<close> has \<open>k\<close> attempts left
  and is about to make attempt \<open>n\<close>. \<open>Busy\<close> is an error whose message
  \<open>shouldRetrySQLiteBusy\<close> recognises.
\<close>

definition sqlite_busy_retry_attempts :: nat where
  "sqlite_busy_retry_attempts = 5"

definition should_retry_sqlite_busy :: "string \<Rightarrow> bool" where
  "should_retry_sqlite_busy err =
     (let msg = to_lower err in
      contains_sub msg ''database is locked'' \<or> contains_sub msg ''database table is locked'' \<or>
      contains_sub msg ''database is busy'')"

fun busy_loop ::
  "nat \<Rightarrow> nat \<Rightarrow> (nat \<Rightarrow> bool) \<Rightarrow> ('s \<Rightarrow> (outcome + 'r) \<times> 's) \<Rightarrow> 's \<Rightarrow> (outcome + 'r) \<times> 's" where
  "busy_loop 0 n cancelled op s = (Inl Busy, s)"
| "busy_loop (Suc k) n cancelled op s =
     (if n > 0 \<and> cancelled n then (Inl Busy, s)
      else (case op s of
              (Inl Busy, s') \<Rightarrow> busy_loop k (Suc n) cancelled op s'
            | r \<Rightarrow> r))"

definition run_with_sqlite_busy_retry ::
  "bool \<Rightarrow> (nat \<Rightarrow> bool) \<Rightarrow> ('s \<Rightarrow> (outcome + 'r) \<times> 's) \<Rightarrow> 's \<Rightarrow> (outcome + 'r) \<times> 's" where
  "run_with_sqlite_busy_retry sqlite cancelled op s =
     (if \<not> sqlite then op s
      else busy_loop (Suc sqlite_busy_retry_attempts) 0 cancelled op s)"

definition update ::
  "('a world_scheme \<Rightarrow> 'r \<times> 'a world_scheme) \<Rightarrow> 'a world_scheme \<Rightarrow>
   (outcome + 'r) \<times> 'a world_scheme" where
  "update f s = run_with_sqlite_busy_retry (using_sqlite s) (wait_cancelled s) (exec f) s"

subsection \<open>What an external call can do\<close>

text \<open>Two states that differ only in the outcomes still to come.\<close>

definition same_data :: "'a world_scheme \<Rightarrow> 'a world_scheme \<Rightarrow> bool" where
  "same_data s t \<longleftrightarrow> (\<exists>rs. t = s\<lparr>outcomes := rs\<rparr>)"

lemma same_data_refl [simp, intro]: "same_data s s"
  unfolding same_data_def by (rule exI [of _ "outcomes s"]) simp

lemma same_data_outcomes [simp, intro]: "same_data s (s\<lparr>outcomes := rs\<rparr>)"
  by (auto simp: same_data_def)

lemma same_data_trans: "same_data s t \<Longrightarrow> same_data t u \<Longrightarrow> same_data s u"
  by (auto simp: same_data_def)

lemma next_outcome_same: "next_outcome s = (r, s') \<Longrightarrow> same_data s s'"
  by (auto simp: next_outcome_def split: list.splits)

lemma next_outcome_nil [simp]: "outcomes s = [] \<Longrightarrow> next_outcome s = (Done, s)"
  by (simp add: next_outcome_def)

text \<open>A call either fails and leaves the data, or takes effect exactly once.\<close>

definition call_result ::
  "('a world_scheme \<Rightarrow> 'r \<times> 'a world_scheme) \<Rightarrow> 'a world_scheme \<Rightarrow> outcome + 'r \<Rightarrow>
   'a world_scheme \<Rightarrow> bool" where
  "call_result f s r s' \<longleftrightarrow>
     (\<exists>e. r = Inl e \<and> same_data s s') \<or> (\<exists>t a. same_data s t \<and> f t = (a, s') \<and> r = Inr a)"

lemma call_result_later: "same_data s t \<Longrightarrow> call_result f t r s' \<Longrightarrow> call_result f s r s'"
  unfolding call_result_def by (blast intro: same_data_trans)

lemma call_result_failed: "same_data s s' \<Longrightarrow> call_result f s (Inl e) s'"
  unfolding call_result_def by blast

lemma exec_call: "exec f s = (r, s') \<Longrightarrow> call_result f s r s'"
proof (cases "next_outcome s")
  case (Pair q t)
  assume e: "exec f s = (r, s')"
  from Pair have t: "same_data s t" by (rule next_outcome_same)
  show ?thesis
    using e Pair t by (cases q) (auto simp: exec_def call_result_def split: prod.splits)
qed

lemma busy_loop_call: "busy_loop k n c (exec f) s = (r, s') \<Longrightarrow> call_result f s r s'"
proof (induction k arbitrary: n s)
  case 0
  then show ?case by (auto intro: call_result_failed)
next
  case (Suc k)
  obtain q u where e: "exec f s = (q, u)" by fastforce
  show ?case
  proof (cases "n > 0 \<and> c n")
    case True
    with Suc.prems show ?thesis by (auto intro: call_result_failed)
  next
    case go: False
    show ?thesis
    proof (cases "q = Inl Busy")
      case True
      with e have "same_data s u" by (auto dest: exec_call simp: call_result_def)
      moreover from True e go Suc.prems have "busy_loop k (Suc n) c (exec f) u = (r, s')" by auto
      ultimately show ?thesis by (blast intro: Suc.IH call_result_later)
    next
      case False
      with e go Suc.prems have "r = q" "s' = u" by (auto split: sum.splits outcome.splits)
      with e show ?thesis by (simp add: exec_call)
    qed
  qed
qed

lemma update_call: "update f s = (r, s') \<Longrightarrow> call_result f s r s'"
  by (auto simp: update_def run_with_sqlite_busy_retry_def simp del: busy_loop.simps
      dest: exec_call busy_loop_call split: if_splits)

lemma update_cases:
  assumes "update f s = (r, s')"
  obtains (failed) e where "r = Inl e" and "same_data s s'"
  | (done_) t a where "same_data s t" and "f t = (a, s')" and "r = Inr a"
  using update_call [OF assms] by (auto simp: call_result_def)

lemma exec_cases:
  assumes "exec f s = (r, s')"
  obtains (failed) e where "r = Inl e" and "same_data s s'"
  | (done_) t a where "same_data s t" and "f t = (a, s')" and "r = Inr a"
  using exec_call [OF assms] by (auto simp: call_result_def)

lemma busy_loop_first:
  "fst (exec f s) \<noteq> Inl Busy \<Longrightarrow> busy_loop (Suc k) 0 c (exec f) s = exec f s"
  by (auto split: prod.splits sum.splits outcome.splits)

text \<open>With nothing going wrong a call is its statement.\<close>

lemma exec_ok: "outcomes s = [] \<Longrightarrow> exec f s = (case f s of (r, s') \<Rightarrow> (Inr r, s'))"
  by (simp add: exec_def)

lemma update_ok: "outcomes s = [] \<Longrightarrow> update f s = (case f s of (r, s') \<Rightarrow> (Inr r, s'))"
  by (simp add: update_def run_with_sqlite_busy_retry_def busy_loop_first exec_ok
      del: busy_loop.simps split: prod.splits)

subsection \<open>Statements and transactions\<close>

text \<open>A statement whose driver error becomes the caller's error \<open>e\<close>.\<close>

definition stmt :: "'e \<Rightarrow> ('a world_scheme \<Rightarrow> 'r \<times> 'a world_scheme) \<Rightarrow> 'a world_scheme \<Rightarrow>
    ('e + 'r) \<times> 'a world_scheme" where
  "stmt e f s = (case exec f s of (Inl _, s') \<Rightarrow> (Inl e, s') | (Inr r, s') \<Rightarrow> (Inr r, s'))"

text \<open>
  A transaction: the body's tables are kept only if it succeeds and the commit does. The
  outcomes the driver used up are gone either way.
\<close>

definition in_tx :: "'e \<Rightarrow> ('a world_scheme \<Rightarrow> ('e + 'r) \<times> 'a world_scheme) \<Rightarrow> 'a world_scheme \<Rightarrow>
    ('e + 'r) \<times> 'a world_scheme" where
  "in_tx e body s =
     (case body s of
        (Inl e', s') \<Rightarrow> (Inl e', s\<lparr>outcomes := outcomes s'\<rparr>)
      | (Inr r, s') \<Rightarrow>
          (case next_outcome s' of
             (Done, s'') \<Rightarrow> (Inr r, s'')
           | (_, s'') \<Rightarrow> (Inl e, s\<lparr>outcomes := outcomes s''\<rparr>)))"

lemma stmt_result:
  assumes "stmt e f s = (r, s')"
  obtains (failed) rs where "r = Inl e" and "s' = s\<lparr>outcomes := rs\<rparr>"
  | (done_) rs a where "f (s\<lparr>outcomes := rs\<rparr>) = (a, s')" and "r = Inr a"
  using assms
  by (auto simp: stmt_def same_data_def split: prod.splits sum.splits elim!: exec_cases)

lemma in_tx_result:
  assumes "in_tx e body s = (r, s')"
  obtains (failed) e' where "r = Inl e'" and "same_data s s'"
  | (done_) a t where "r = Inr a" and "body s = (Inr a, t)" and "same_data t s'"
  using assms
  by (auto simp: in_tx_def split: prod.splits sum.splits outcome.splits dest: next_outcome_same)

lemma stmt_ok: "outcomes s = [] \<Longrightarrow> stmt e f s = (case f s of (r, s') \<Rightarrow> (Inr r, s'))"
  by (simp add: stmt_def exec_ok split: prod.splits)

lemma in_tx_ok:
  "body s = (Inr r, s') \<Longrightarrow> outcomes s' = [] \<Longrightarrow> in_tx e body s = (Inr r, s')"
  by (simp add: in_tx_def)

text \<open>The retry loop makes at most six attempts, and never more than one that takes effect.\<close>

fun attempts :: "nat \<Rightarrow> nat \<Rightarrow> (nat \<Rightarrow> bool) \<Rightarrow> ('s \<Rightarrow> (outcome + 'r) \<times> 's) \<Rightarrow> 's \<Rightarrow> nat" where
  "attempts 0 n c op s = 0"
| "attempts (Suc k) n c op s =
     (if n > 0 \<and> c n then 0
      else Suc (case op s of (Inl Busy, s') \<Rightarrow> attempts k (Suc n) c op s' | _ \<Rightarrow> 0))"

lemma attempts_bound: "attempts k n c op s \<le> k"
  by (induction k arbitrary: n s) (auto split: sum.splits outcome.splits prod.splits)

lemma busy_loop_outwaits:
  assumes "outcomes s = replicate j Busy @ rs" and "j < k" and "\<And>i. \<not> c i"
  shows "busy_loop k n c (exec f) s = exec f (s\<lparr>outcomes := rs\<rparr>) \<or> \<not> (rs = [] \<or> hd rs \<noteq> Busy)"
  using assms(1,2)
proof (induction j arbitrary: k n s)
  case 0
  then obtain k' where k: "k = Suc k'" by (cases k) auto
  show ?case
  proof (cases "rs = [] \<or> hd rs \<noteq> Busy")
    case True
    have s: "s\<lparr>outcomes := rs\<rparr> = s" using 0 by simp
    have "fst (exec f s) \<noteq> Inl Busy"
      using True 0 by (cases rs) (auto simp: exec_def next_outcome_def split: outcome.splits prod.splits)
    then have "busy_loop k n c (exec f) s = exec f s"
      using k assms(3) by (auto split: prod.splits sum.splits outcome.splits)
    with s show ?thesis by simp
  qed simp
next
  case (Suc j)
  then obtain k' where k: "k = Suc k'" by (cases k) auto
  have "exec f s = (Inl Busy, s\<lparr>outcomes := replicate j Busy @ rs\<rparr>)"
    using Suc.prems by (simp add: exec_def next_outcome_def)
  then have "busy_loop k n c (exec f) s =
      busy_loop k' (Suc n) c (exec f) (s\<lparr>outcomes := replicate j Busy @ rs\<rparr>)"
    using k assms(3) by simp
  then show ?case
    using Suc.IH [of "s\<lparr>outcomes := replicate j Busy @ rs\<rparr>" k' "Suc n"] Suc.prems k by simp
qed

subsection \<open>Properties\<close>

text \<open>
  C19. A SQLite statement that meets up to five "database is locked" errors and then runs is
  executed exactly once, and the caller sees only its result; the retry loop never makes more
  than six attempts.
\<close>

theorem sqlite_retry_once:
  assumes "outcomes s = replicate j Busy @ rs" and "j \<le> sqlite_busy_retry_attempts"
    and "rs = [] \<or> hd rs \<noteq> Busy" and "\<And>i. \<not> wait_cancelled s i" and "using_sqlite s"
  shows "update f s = exec f (s\<lparr>outcomes := rs\<rparr>) \<and>
    attempts (Suc sqlite_busy_retry_attempts) 0 (wait_cancelled s) (exec f) s \<le> 6"
proof -
  have "j < Suc sqlite_busy_retry_attempts" using assms(2) by simp
  from busy_loop_outwaits [OF assms(1) this assms(4), where n = 0 and f = f] assms(3,5)
  have "update f s = exec f (s\<lparr>outcomes := rs\<rparr>)"
    by (simp add: update_def run_with_sqlite_busy_retry_def)
  then show ?thesis
    using attempts_bound [of "Suc sqlite_busy_retry_attempts"]
    by (simp add: sqlite_busy_retry_attempts_def)
qed

definition example_user :: user_row where
  "example_user = \<lparr>u_quota = 100, u_used_quota = 0, u_request_count = 0, u_email = ''a@b''\<rparr>"

definition example_token :: token_row where
  "example_token = \<lparr>t_user_id = 1, t_key = ''k'', t_name = ''n'', t_status = 1, t_expired_time = -1,
     t_remain_quota = 50, t_unlimited_quota = False, t_used_quota = 0, t_accessed_time = 0\<rparr>"

definition example_world :: world where
  "example_world = \<lparr>users = [1 \<mapsto> example_user], tokens = [5 \<mapsto> example_token],
     channel_used_quota = [3 \<mapsto> 0], token_key_index = [''k'' \<mapsto> 5], token_cache = Map.empty,
     batch_stores = (\<lambda>_. Map.empty), reminders = [], clock = 1000, using_sqlite = True,
     redis_enabled = False, batch_update_enabled = False, quota_remind_threshold = 10,
     outcomes = [], wait_cancelled = (\<lambda>_. False)\<rparr>"

theorem sqlite_retry_once_witness:
  "update (\<lambda>s. (1 :: int, s)) (example_world\<lparr>outcomes := [Busy, Busy]\<rparr>) =
     exec (\<lambda>s. (1, s)) (example_world\<lparr>outcomes := []\<rparr>) \<and>
   attempts (Suc sqlite_busy_retry_attempts) 0
     (wait_cancelled (example_world\<lparr>outcomes := [Busy, Busy]\<rparr>))
     (exec (\<lambda>s. (1 :: int, s))) (example_world\<lparr>outcomes := [Busy, Busy]\<rparr>) \<le> 6"
  using sqlite_retry_once [of "example_world\<lparr>outcomes := [Busy, Busy]\<rparr>" 2 "[]" "\<lambda>s. (1 :: int, s)"]
  by (simp add: example_world_def sqlite_busy_retry_attempts_def numeral_2_eq_2)

end
