(* ===== verification/Accounts.thy ===== *)
theory Accounts
  imports Store
begin

text \<open>
  Quota accounts of users and tokens: the quota operations of \<open>model/user.go\<close> and \<open>model/token.go\<close>
  and \<open>ReturnPreConsumedQuota\<close> of \<open>relay/billing/billing.go\<close>.

  Operations ending in \<open>_now\<close> are the lower-case Go functions that go to the database
  (\<open>increaseUserQuota\<close> and its kin); those without are the exported ones, which may defer to
  the batch stores. \<open>ledger\<close> is the interface both account tables provide.
\<close>

datatype model_error = NegativeQuota | InvalidId | RecordNotFound | DbError | RedisError
  | InsufficientUserQuota | InsufficientTokenQuota

subsection \<open>Statements\<close>

definition user_credit :: "int \<Rightarrow> int \<Rightarrow> 'a world_scheme \<Rightarrow> int \<times> 'a world_scheme" where
  "user_credit uid q s =
     (case users s uid of
        None \<Rightarrow> (0, s)
      | Some u \<Rightarrow> (1, s\<lparr>users := (users s)(uid \<mapsto> u\<lparr>u_quota := u_quota u + q\<rparr>)\<rparr>))"

definition user_debit :: "int \<Rightarrow> int \<Rightarrow> 'a world_scheme \<Rightarrow> int \<times> 'a world_scheme" where
  "user_debit uid q s =
     (case users s uid of
        None \<Rightarrow> (0, s)
      | Some u \<Rightarrow>
          if u_quota u \<ge> q
          then (1, s\<lparr>users := (users s)(uid \<mapsto> u\<lparr>u_quota := u_quota u - q\<rparr>)\<rparr>)
          else (0, s))"

definition token_move :: "int \<Rightarrow> token_row \<Rightarrow> int \<Rightarrow> token_row" where
  "token_move now t q = t\<lparr>t_remain_quota := t_remain_quota t + q,
     t_used_quota := t_used_quota t - q, t_accessed_time := now\<rparr>"

definition token_credit :: "int \<Rightarrow> int \<Rightarrow> 'a world_scheme \<Rightarrow> int \<times> 'a world_scheme" where
  "token_credit tid q s =
     (case tokens s tid of
        None \<Rightarrow> (0, s)
      | Some t \<Rightarrow> (1, s\<lparr>tokens := (tokens s)(tid \<mapsto> token_move (clock s) t q)\<rparr>))"

definition token_debit :: "int \<Rightarrow> int \<Rightarrow> 'a world_scheme \<Rightarrow> int \<times> 'a world_scheme" where
  "token_debit tid q s =
     (case tokens s tid of
        None \<Rightarrow> (0, s)
      | Some t \<Rightarrow>
          if t_remain_quota t \<ge> q
          then (1, s\<lparr>tokens := (tokens s)(tid \<mapsto> token_move (clock s) t (- q))\<rparr>)
          else (0, s))"

subsection \<open>Lookups and the token cache\<close>

definition get_token_by_id ::
  "int \<Rightarrow> 'a world_scheme \<Rightarrow> (model_error + token_row) \<times> 'a world_scheme" where
  "get_token_by_id tid s =
     (if tid = 0 then (Inl InvalidId, s)
      else (case exec (\<lambda>s. (tokens s tid, s)) s of
              (Inl _, s') \<Rightarrow> (Inl DbError, s')
            | (Inr None, s') \<Rightarrow> (Inl RecordNotFound, s')
            | (Inr (Some t), s') \<Rightarrow> (Inr t, s')))"

definition get_user_quota ::
  "int \<Rightarrow> 'a world_scheme \<Rightarrow> (model_error + int) \<times> 'a world_scheme" where
  "get_user_quota uid s =
     (case exec (\<lambda>s. (case users s uid of None \<Rightarrow> 0 | Some u \<Rightarrow> u_quota u, s)) s of
        (Inl _, s') \<Rightarrow> (Inl DbError, s')
      | (Inr q, s') \<Rightarrow> (Inr q, s'))"

definition get_user_email ::
  "int \<Rightarrow> 'a world_scheme \<Rightarrow> (model_error + string) \<times> 'a world_scheme" where
  "get_user_email uid s =
     (case exec (\<lambda>s. (case users s uid of None \<Rightarrow> [] | Some u \<Rightarrow> u_email u, s)) s of
        (Inl _, s') \<Rightarrow> (Inl DbError, s')
      | (Inr e, s') \<Rightarrow> (Inr e, s'))"

definition clear_token_cache :: "string \<Rightarrow> 'a world_scheme \<Rightarrow> 'a world_scheme" where
  "clear_token_cache key s =
     (if redis_enabled s
      then snd (exec (\<lambda>s. ((), s\<lparr>token_cache := (token_cache s)(key := None)\<rparr>)) s)
      else s)"

text \<open>What both token updates do after a successful statement.\<close>

definition drop_cached_token :: "int \<Rightarrow> 'a world_scheme \<Rightarrow> 'a world_scheme" where
  "drop_cached_token tid s =
     (case get_token_by_id tid s of
        (Inr t, s') \<Rightarrow> clear_token_cache (t_key t) s'
      | (Inl _, s') \<Rightarrow> s')"

subsection \<open>Immediate operations\<close>

definition increase_user_quota_now ::
  "int \<Rightarrow> int \<Rightarrow> 'a world_scheme \<Rightarrow> (model_error + unit) \<times> 'a world_scheme" where
  "increase_user_quota_now uid q s =
     (case update (user_credit uid q) s of
        (Inl _, s') \<Rightarrow> (Inl DbError, s')
      | (Inr _, s') \<Rightarrow> (Inr (), s'))"

definition decrease_user_quota_now ::
  "int \<Rightarrow> int \<Rightarrow> 'a world_scheme \<Rightarrow> (model_error + unit) \<times> 'a world_scheme" where
  "decrease_user_quota_now uid q s =
     (case update (user_debit uid q) s of
        (Inl _, s') \<Rightarrow> (Inl DbError, s')
      | (Inr n, s') \<Rightarrow> (if n = 0 then Inl InsufficientUserQuota else Inr (), s'))"

definition increase_token_quota_now ::
  "int \<Rightarrow> int \<Rightarrow> 'a world_scheme \<Rightarrow> (model_error + unit) \<times> 'a world_scheme" where
  "increase_token_quota_now tid q s =
     (case update (token_credit tid q) s of
        (Inl _, s') \<Rightarrow> (Inl DbError, s')
      | (Inr _, s') \<Rightarrow> (Inr (), drop_cached_token tid s'))"

definition decrease_token_quota_now ::
  "int \<Rightarrow> int \<Rightarrow> 'a world_scheme \<Rightarrow> (model_error + unit) \<times> 'a world_scheme" where
  "decrease_token_quota_now tid q s =
     (case update (token_debit tid q) s of
        (Inl _, s') \<Rightarrow> (Inl DbError, s')
      | (Inr n, s') \<Rightarrow>
          if n = 0 then (Inl InsufficientTokenQuota, s')
          else (Inr (), drop_cached_token tid s'))"

subsection \<open>Exported operations, with the batch stores\<close>

definition add_new_record :: "batch_type \<Rightarrow> int \<Rightarrow> int \<Rightarrow> 'a world_scheme \<Rightarrow> 'a world_scheme" where
  "add_new_record ty k v s =
     s\<lparr>batch_stores := (batch_stores s)(ty := (batch_stores s ty)(k \<mapsto>
        (case batch_stores s ty k of None \<Rightarrow> v | Some w \<Rightarrow> i64 (w + v))))\<rparr>"

definition increase_user_quota ::
  "int \<Rightarrow> int \<Rightarrow> 'a world_scheme \<Rightarrow> (model_error + unit) \<times> 'a world_scheme" where
  "increase_user_quota uid q s =
     (if q < 0 then (Inl NegativeQuota, s)
      else if batch_update_enabled s then (Inr (), add_new_record BatchUserQuota uid q s)
      else increase_user_quota_now uid q s)"

definition decrease_user_quota ::
  "int \<Rightarrow> int \<Rightarrow> 'a world_scheme \<Rightarrow> (model_error + unit) \<times> 'a world_scheme" where
  "decrease_user_quota uid q s =
     (if q < 0 then (Inl NegativeQuota, s)
      else if batch_update_enabled s then (Inr (), add_new_record BatchUserQuota uid (- q) s)
      else decrease_user_quota_now uid q s)"

definition increase_token_quota ::
  "int \<Rightarrow> int \<Rightarrow> 'a world_scheme \<Rightarrow> (model_error + unit) \<times> 'a world_scheme" where
  "increase_token_quota tid q s =
     (if q < 0 then (Inl NegativeQuota, s)
      else if batch_update_enabled s then (Inr (), add_new_record BatchTokenQuota tid q s)
      else increase_token_quota_now tid q s)"

definition decrease_token_quota ::
  "int \<Rightarrow> int \<Rightarrow> 'a world_scheme \<Rightarrow> (model_error + unit) \<times> 'a world_scheme" where
  "decrease_token_quota tid q s =
     (if q < 0 then (Inl NegativeQuota, s)
      else if batch_update_enabled s then (Inr (), add_new_record BatchTokenQuota tid (- q) s)
      else decrease_token_quota_now tid q s)"

subsection \<open>Reserving before a relay and settling after it\<close>

definition remind_low_quota :: "int \<Rightarrow> int \<Rightarrow> int \<Rightarrow> 'a world_scheme \<Rightarrow> 'a world_scheme" where
  "remind_low_quota uid userQuota q s =
     (let thr = quota_remind_threshold s;
          left = i64 (userQuota - q);
          quotaTooLow = (userQuota \<ge> thr \<and> left < thr);
          noMoreQuota = (left \<le> 0)
      in if quotaTooLow \<or> noMoreQuota
         then (case get_user_email uid s of
                 (Inl _, s') \<Rightarrow> s'
               | (Inr email, s') \<Rightarrow>
                   if email = [] then s'
                   else s'\<lparr>reminders := reminders s' @ [(email, noMoreQuota, userQuota)]\<rparr>)
         else s)"

definition pre_consume_token_quota ::
  "int \<Rightarrow> int \<Rightarrow> 'a world_scheme \<Rightarrow> (model_error + unit) \<times> 'a world_scheme" where
  "pre_consume_token_quota tid q s =
     (if q < 0 then (Inl NegativeQuota, s)
      else case get_token_by_id tid s of
        (Inl e, s1) \<Rightarrow> (Inl e, s1)
      | (Inr t, s1) \<Rightarrow>
          if \<not> t_unlimited_quota t \<and> t_remain_quota t < q then (Inl InsufficientTokenQuota, s1)
          else (case get_user_quota (t_user_id t) s1 of
              (Inl e, s2) \<Rightarrow> (Inl e, s2)
            | (Inr userQuota, s2) \<Rightarrow>
                if userQuota < q then (Inl InsufficientUserQuota, s2)
                else (let s3 = remind_low_quota (t_user_id t) userQuota q s2 in
                  case (if t_unlimited_quota t then (Inr (), s3) else decrease_token_quota tid q s3) of
                    (Inl e, s4) \<Rightarrow> (Inl e, s4)
                  | (Inr _, s4) \<Rightarrow> decrease_user_quota (t_user_id t) q s4)))"

text \<open>The error of the user part is overwritten (limited token) or dropped (unlimited token).\<close>

definition post_consume_token_quota ::
  "int \<Rightarrow> int \<Rightarrow> 'a world_scheme \<Rightarrow> (model_error + unit) \<times> 'a world_scheme" where
  "post_consume_token_quota tid q s =
     (case get_token_by_id tid s of
        (Inl e, s1) \<Rightarrow> (Inl e, s1)
      | (Inr t, s1) \<Rightarrow>
          (let (err, s2) = (if q > 0 then decrease_user_quota (t_user_id t) q s1
                            else increase_user_quota (t_user_id t) (i64 (- q)) s1)
           in if t_unlimited_quota t then (Inr (), s2)
              else (if q > 0 then decrease_token_quota tid q s2
                    else increase_token_quota tid (i64 (- q)) s2)))"

definition return_pre_consumed_quota :: "int \<Rightarrow> int \<Rightarrow> 'a world_scheme \<Rightarrow> 'a world_scheme" where
  "return_pre_consumed_quota pre tid s =
     (if pre = 0 then s else snd (post_consume_token_quota tid (i64 (- pre)) s))"

subsection \<open>The ledger interface\<close>

text \<open>
  What the code relies on in an account table: a credit adds the amount, a debit takes it
  only where it is covered, a failed call changes no balance. \<open>balance\<close> is \<open>None\<close> for a
  missing row.
\<close>

datatype ledger_op = Credit int int | Debit int int

locale ledger =
  fixes balance :: "'s \<Rightarrow> int \<Rightarrow> int option"
    and credit debit :: "int \<Rightarrow> int \<Rightarrow> 's \<Rightarrow> ('e + unit) \<times> 's"
  assumes credit_ok: "credit k n s = (Inr (), s') \<Longrightarrow>
      balance s' = (balance s)(k := map_option (\<lambda>b. b + n) (balance s k))"
    and credit_failed: "credit k n s = (Inl e, s') \<Longrightarrow> balance s' = balance s"
    and debit_ok: "debit k n s = (Inr (), s') \<Longrightarrow>
      \<exists>b. balance s k = Some b \<and> n \<le> b \<and> balance s' = (balance s)(k \<mapsto> b - n)"
    and debit_failed: "debit k n s = (Inl e, s') \<Longrightarrow> balance s' = balance s"
begin

definition solvent :: "'s \<Rightarrow> bool" where
  "solvent s \<longleftrightarrow> (\<forall>k b. balance s k = Some b \<longrightarrow> 0 \<le> b)"

fun step :: "ledger_op \<Rightarrow> 's \<Rightarrow> ('e + unit) \<times> 's" where
  "step (Credit k n) s = credit k n s"
| "step (Debit k n) s = debit k n s"

fun amount :: "ledger_op \<Rightarrow> int" where
  "amount (Credit _ n) = n"
| "amount (Debit _ n) = n"

lemma step_solvent:
  assumes "solvent s" and "0 \<le> amount x" and st: "step x s = (r, s')"
  shows "solvent s'"
proof (cases x)
  case (Credit k n)
  show ?thesis
  proof (cases r)
    case (Inl e)
    with Credit st credit_failed [of k n s e s'] assms(1) show ?thesis by (simp add: solvent_def)
  next
    case (Inr u)
    with Credit st credit_ok [of k n s s'] assms show ?thesis
      by (fastforce simp: solvent_def split: if_splits)
  qed
next
  case (Debit k n)
  show ?thesis
  proof (cases r)
    case (Inl e)
    with Debit st debit_failed [of k n s e s'] assms(1) show ?thesis by (simp add: solvent_def)
  next
    case (Inr u)
    with Debit st debit_ok [of k n s s'] assms show ?thesis
      by (fastforce simp: solvent_def split: if_splits)
  qed
qed

lemma steps_solvent:
  "solvent s \<Longrightarrow> (\<And>x. x \<in> set xs \<Longrightarrow> 0 \<le> amount x) \<Longrightarrow> solvent (foldl (\<lambda>s x. snd (step x s)) s xs)"
proof (induction xs arbitrary: s)
  case Nil
  then show ?case by simp
next
  case (Cons x xs)
  then have "solvent (snd (step x s))"
    using step_solvent [of s x "fst (step x s)" "snd (step x s)"] by simp
  with Cons show ?case by simp
qed

lemma debit_credit:
  assumes "debit k n s = (Inr (), s')" and "credit k n s' = (Inr (), s'')"
  shows "balance s'' = balance s"
  using debit_ok [OF assms(1)] credit_ok [OF assms(2)] by (auto simp: fun_eq_iff)

end

subsection \<open>Users and tokens are ledgers\<close>

definition user_balance :: "'a world_scheme \<Rightarrow> int \<Rightarrow> int option" where
  "user_balance s k = map_option u_quota (users s k)"

definition token_balance :: "'a world_scheme \<Rightarrow> int \<Rightarrow> int option" where
  "token_balance s k = map_option t_remain_quota (tokens s k)"

lemma same_data_balances:
  "same_data s t \<Longrightarrow> user_balance t = user_balance s"
  "same_data s t \<Longrightarrow> token_balance t = token_balance s"
  "same_data s t \<Longrightarrow> users t = users s"
  "same_data s t \<Longrightarrow> tokens t = tokens s"
  by (auto simp: same_data_def user_balance_def token_balance_def fun_eq_iff)

lemma get_token_same:
  "get_token_by_id tid s = (r, s') \<Longrightarrow> same_data s s'"
  by (auto simp: get_token_by_id_def split: if_splits prod.splits sum.splits option.splits
      elim!: exec_cases)

lemma get_user_quota_same: "get_user_quota uid s = (r, s') \<Longrightarrow> same_data s s'"
  by (auto simp: get_user_quota_def split: prod.splits sum.splits elim!: exec_cases)

lemma get_user_email_same: "get_user_email uid s = (r, s') \<Longrightarrow> same_data s s'"
  by (auto simp: get_user_email_def split: prod.splits sum.splits elim!: exec_cases)

text \<open>Clearing the cache touches nothing but the cache.\<close>

definition same_tables :: "'a world_scheme \<Rightarrow> 'a world_scheme \<Rightarrow> bool" where
  "same_tables s t \<longleftrightarrow> users t = users s \<and> tokens t = tokens s \<and> batch_stores t = batch_stores s \<and>
     batch_update_enabled t = batch_update_enabled s \<and> clock t = clock s \<and>
     channel_used_quota t = channel_used_quota s \<and> redis_enabled t = redis_enabled s \<and>
     world.more t = world.more s"

lemma same_tables_refl [simp]: "same_tables s s"
  by (simp add: same_tables_def)

lemma same_data_tables: "same_data s t \<Longrightarrow> same_tables s t"
  by (auto simp: same_data_def same_tables_def)

lemma same_tables_trans: "same_tables s t \<Longrightarrow> same_tables t u \<Longrightarrow> same_tables s u"
  by (simp add: same_tables_def)

lemma clear_token_cache_tables: "same_tables s (clear_token_cache key s)"
proof -
  obtain r s' where e: "exec (\<lambda>s. ((), s\<lparr>token_cache := (token_cache s)(key := None)\<rparr>)) s = (r, s')"
    by fastforce
  then have "same_tables s s'"
    by (elim exec_cases) (auto dest: same_data_tables simp: same_tables_def)
  with e show ?thesis by (simp add: clear_token_cache_def)
qed

lemma drop_cached_token_tables: "same_tables s (drop_cached_token tid s)"
  using clear_token_cache_tables get_token_same
  by (auto simp: drop_cached_token_def split: prod.splits sum.splits
      dest!: get_token_same same_data_tables intro: same_tables_trans)

lemma remind_low_quota_tables: "same_tables s (remind_low_quota uid uq q s)"
  by (auto simp: remind_low_quota_def Let_def split: prod.splits sum.splits
      dest!: get_user_email_same same_data_tables simp: same_tables_def)

lemma same_tables_balances:
  "same_tables s t \<Longrightarrow> user_balance t = user_balance s"
  "same_tables s t \<Longrightarrow> token_balance t = token_balance s"
  by (simp_all add: same_tables_def user_balance_def token_balance_def fun_eq_iff)

text \<open>The four immediate operations, whatever the driver reports.\<close>

lemma increase_user_quota_now_cases:
  assumes "increase_user_quota_now uid q s = (r, s')"
  shows "r = Inl DbError \<and> same_data s s' \<or>
    r = Inr () \<and> (\<exists>t. same_data s t \<and> s' = snd (user_credit uid q t))"
  using assms
  by (auto simp: increase_user_quota_now_def split: prod.splits sum.splits elim!: update_cases)

lemma decrease_user_quota_now_cases:
  assumes "decrease_user_quota_now uid q s = (r, s')"
  shows "(\<exists>e. r = Inl e) \<and> same_data s s' \<or>
    r = Inr () \<and> (\<exists>t u. same_data s t \<and> users s uid = Some u \<and> q \<le> u_quota u \<and>
      s' = t\<lparr>users := (users t)(uid \<mapsto> u\<lparr>u_quota := u_quota u - q\<rparr>)\<rparr>)"
  using assms
  by (auto simp: decrease_user_quota_now_def user_debit_def same_data_balances
      split: prod.splits sum.splits if_splits option.splits elim!: update_cases)

lemma increase_token_quota_now_cases:
  assumes "increase_token_quota_now tid q s = (r, s')"
  shows "r = Inl DbError \<and> same_data s s' \<or>
    r = Inr () \<and> (\<exists>t. same_data s t \<and> same_tables (snd (token_credit tid q t)) s')"
proof -
  obtain c u where u: "update (token_credit tid q) s = (c, u)" by fastforce
  then show ?thesis
  proof (cases rule: update_cases)
    case (failed e)
    with u assms show ?thesis by (auto simp: increase_token_quota_now_def)
  next
    case (done_ t a)
    with u assms have "r = Inr ()" "s' = drop_cached_token tid u"
      by (simp_all add: increase_token_quota_now_def)
    with done_ drop_cached_token_tables [of u tid] show ?thesis by auto
  qed
qed

lemma decrease_token_quota_now_cases:
  assumes "decrease_token_quota_now tid q s = (r, s')"
  shows "(\<exists>e. r = Inl e) \<and> same_data s s' \<or>
    r = Inr () \<and> (\<exists>t k. same_data s t \<and> tokens s tid = Some k \<and> q \<le> t_remain_quota k \<and>
      same_tables (t\<lparr>tokens := (tokens t)(tid \<mapsto> token_move (clock s) k (- q))\<rparr>) s')"
proof -
  obtain c u where u: "update (token_debit tid q) s = (c, u)" by fastforce
  then show ?thesis
  proof (cases rule: update_cases)
    case (failed e)
    with u assms show ?thesis by (auto simp: decrease_token_quota_now_def)
  next
    case (done_ t a)
    then have t: "tokens t = tokens s" "clock t = clock s" by (auto simp: same_data_def)
    show ?thesis
    proof (cases "a = 0")
      case True
      with done_ have "u = t" by (auto simp: token_debit_def split: option.splits if_splits)
      with True u done_ assms show ?thesis by (auto simp: decrease_token_quota_now_def)
    next
      case False
      with done_ t obtain k where k: "tokens s tid = Some k" "q \<le> t_remain_quota k"
        and w: "u = t\<lparr>tokens := (tokens t)(tid \<mapsto> token_move (clock s) k (- q))\<rparr>"
        by (auto simp: token_debit_def split: option.splits if_splits)
      from False u done_ assms have "r = Inr ()" "s' = drop_cached_token tid u"
        by (simp_all add: decrease_token_quota_now_def)
      with k w done_ drop_cached_token_tables [of u tid] show ?thesis by blast
    qed
  qed
qed

interpretation user_ledger: ledger user_balance increase_user_quota_now decrease_user_quota_now
proof (unfold_locales, goal_cases)
  case (1 k n s s')
  from increase_user_quota_now_cases [OF 1] obtain t
    where "same_data s t" "s' = snd (user_credit k n t)" by auto
  then show ?case
    by (auto simp: user_credit_def user_balance_def fun_eq_iff same_data_balances
        split: option.splits)
next
  case (2 k n s e s')
  from increase_user_quota_now_cases [OF 2] show ?case by (auto simp: same_data_balances)
next
  case (3 k n s s')
  from decrease_user_quota_now_cases [OF 3] show ?case
    by (auto simp: user_balance_def fun_eq_iff same_data_balances)
next
  case (4 k n s e s')
  from decrease_user_quota_now_cases [OF 4] show ?case by (auto simp: same_data_balances)
qed

interpretation token_ledger: ledger token_balance increase_token_quota_now decrease_token_quota_now
proof (unfold_locales, goal_cases)
  case (1 k n s s')
  from increase_token_quota_now_cases [OF 1] obtain t
    where "same_data s t" "same_tables (snd (token_credit k n t)) s'" by auto
  then show ?case
    by (auto simp: token_credit_def token_balance_def fun_eq_iff same_data_balances token_move_def
        same_tables_def split: option.splits)
next
  case (2 k n s e s')
  from increase_token_quota_now_cases [OF 2] show ?case by (auto simp: same_data_balances)
next
  case (3 k n s s')
  from decrease_token_quota_now_cases [OF 3] show ?case
    by (auto simp: token_balance_def fun_eq_iff same_data_balances same_tables_def token_move_def)
next
  case (4 k n s e s')
  from decrease_token_quota_now_cases [OF 4] show ?case by (auto simp: same_data_balances)
qed

subsection \<open>What every operation keeps\<close>

text \<open>No user and no limited token is overdrawn.\<close>

definition funded :: "'a world_scheme \<Rightarrow> bool" where
  "funded s \<longleftrightarrow> (\<forall>k u. users s k = Some u \<longrightarrow> 0 \<le> u_quota u) \<and>
     (\<forall>k t. tokens s k = Some t \<longrightarrow> \<not> t_unlimited_quota t \<longrightarrow> 0 \<le> t_remain_quota t)"

text \<open>What a token was given in total: the rest and what it has used.\<close>

definition token_total :: "'a world_scheme \<Rightarrow> int \<Rightarrow> int option" where
  "token_total s k = map_option (\<lambda>t. t_remain_quota t + t_used_quota t) (tokens s k)"

text \<open>One account step in immediate mode keeps the mode, the totals and solvency.\<close>

definition keeps :: "'a world_scheme \<Rightarrow> 'a world_scheme \<Rightarrow> bool" where
  "keeps s s' \<longleftrightarrow> (\<not> batch_update_enabled s \<longrightarrow> \<not> batch_update_enabled s' \<and>
     token_total s' = token_total s \<and> (funded s \<longrightarrow> funded s'))"

lemma keeps_refl [simp]: "keeps s s"
  by (simp add: keeps_def)

lemma keeps_trans: "keeps s t \<Longrightarrow> keeps t u \<Longrightarrow> keeps s u"
  by (simp add: keeps_def)

lemma same_tables_keeps: "same_tables s t \<Longrightarrow> keeps s t"
  by (simp add: keeps_def same_tables_def token_total_def fun_eq_iff funded_def)

lemma same_data_keeps: "same_data s t \<Longrightarrow> keeps s t"
  by (blast intro: same_tables_keeps same_data_tables)

lemma user_credit_keeps: "0 \<le> q \<Longrightarrow> keeps s (snd (user_credit uid q s))"
  by (auto simp: user_credit_def keeps_def funded_def token_total_def fun_eq_iff
      split: option.splits if_splits)

lemma user_debit_keeps:
  "users s uid = Some u \<Longrightarrow> q \<le> u_quota u \<Longrightarrow>
   keeps s (s\<lparr>users := (users s)(uid \<mapsto> u\<lparr>u_quota := u_quota u - q\<rparr>)\<rparr>)"
  by (auto simp: keeps_def funded_def token_total_def fun_eq_iff split: if_splits)

lemma token_credit_keeps: "0 \<le> q \<Longrightarrow> keeps s (snd (token_credit tid q s))"
  by (auto simp: token_credit_def keeps_def funded_def token_total_def fun_eq_iff token_move_def
      split: option.splits if_splits)

lemma token_debit_keeps:
  "tokens s tid = Some k \<Longrightarrow> q \<le> t_remain_quota k \<Longrightarrow>
   keeps s (s\<lparr>tokens := (tokens s)(tid \<mapsto> token_move now k (- q))\<rparr>)"
  by (auto simp: keeps_def funded_def token_total_def fun_eq_iff token_move_def split: if_splits)

lemma increase_user_quota_keeps: "keeps s (snd (increase_user_quota uid q s))"
proof -
  have "keeps s s'" if "0 \<le> q" "increase_user_quota_now uid q s = (r, s')" for r s'
    using increase_user_quota_now_cases [OF that(2)] that(1)
    by (metis keeps_trans same_data_keeps user_credit_keeps)
  then show ?thesis
    by (cases "increase_user_quota_now uid q s")
       (auto simp: increase_user_quota_def keeps_def)
qed

lemma decrease_user_quota_keeps: "keeps s (snd (decrease_user_quota uid q s))"
proof -
  have "keeps s s'" if "decrease_user_quota_now uid q s = (r, s')" for r s'
    using decrease_user_quota_now_cases [OF that]
    by (metis keeps_trans same_data_keeps user_debit_keeps same_data_balances(3))
  then show ?thesis
    by (cases "decrease_user_quota_now uid q s")
       (auto simp: decrease_user_quota_def keeps_def)
qed

lemma increase_token_quota_keeps: "keeps s (snd (increase_token_quota tid q s))"
proof -
  have "keeps s s'" if "0 \<le> q" "increase_token_quota_now tid q s = (r, s')" for r s'
    using increase_token_quota_now_cases [OF that(2)] that(1)
    by (metis keeps_trans same_data_keeps same_tables_keeps token_credit_keeps)
  then show ?thesis
    by (cases "increase_token_quota_now tid q s")
       (auto simp: increase_token_quota_def keeps_def)
qed

lemma decrease_token_quota_keeps: "keeps s (snd (decrease_token_quota tid q s))"
proof -
  have "keeps s s'" if "decrease_token_quota_now tid q s = (r, s')" for r s'
    using decrease_token_quota_now_cases [OF that]
    by (metis keeps_trans same_data_keeps same_tables_keeps token_debit_keeps same_data_balances(4))
  then show ?thesis
    by (cases "decrease_token_quota_now tid q s")
       (auto simp: decrease_token_quota_def keeps_def)
qed

lemmas quota_ops_keep = increase_user_quota_keeps decrease_user_quota_keeps
  increase_token_quota_keeps decrease_token_quota_keeps

lemma quota_ops_keep_eq:
  "increase_user_quota uid q s = (r, s') \<Longrightarrow> keeps s s'"
  "decrease_user_quota uid q s = (r, s') \<Longrightarrow> keeps s s'"
  "increase_token_quota tid q s = (r, s') \<Longrightarrow> keeps s s'"
  "decrease_token_quota tid q s = (r, s') \<Longrightarrow> keeps s s'"
  by (metis quota_ops_keep snd_conv)+

lemma pre_consume_keeps: "keeps s (snd (pre_consume_token_quota tid q s))"
proof (cases "get_token_by_id tid s")
  case (Pair r s1)
  then have k1: "keeps s s1" by (simp add: get_token_same same_data_keeps)
  show ?thesis
  proof (cases "q < 0 \<or> (\<exists>e. r = Inl e)")
    case True
    with Pair k1 show ?thesis by (auto simp: pre_consume_token_quota_def)
  next
    case False
    then obtain t where r: "r = Inr t" by (cases r) auto
    obtain g s2 where g: "get_user_quota (t_user_id t) s1 = (g, s2)" by fastforce
    then have k2: "keeps s s2" by (meson k1 keeps_trans get_user_quota_same same_data_keeps)
    have k3: "keeps s (remind_low_quota (t_user_id t) uq q s2)" for uq
      by (meson k2 keeps_trans remind_low_quota_tables same_tables_keeps)
    show ?thesis
      using False Pair r g k1 k2 k3
      by (auto simp: pre_consume_token_quota_def Let_def split: sum.splits prod.splits
          intro: keeps_trans quota_ops_keep dest!: quota_ops_keep_eq)
  qed
qed

lemma post_consume_keeps: "keeps s (snd (post_consume_token_quota tid q s))"
proof (cases "get_token_by_id tid s")
  case (Pair r s1)
  then have k1: "keeps s s1" by (simp add: get_token_same same_data_keeps)
  show ?thesis
  proof (cases r)
    case (Inl e)
    with Pair k1 show ?thesis by (simp add: post_consume_token_quota_def)
  next
    case (Inr t)
    obtain err s2 where u: "(if q > 0 then decrease_user_quota (t_user_id t) q s1
        else increase_user_quota (t_user_id t) (i64 (- q)) s1) = (err, s2)" by fastforce
    then have "keeps s1 s2" by (auto dest: quota_ops_keep_eq split: if_splits)
    with k1 have k2: "keeps s s2" by (rule keeps_trans)
    show ?thesis
      using Pair Inr u k2
      by (auto simp: post_consume_token_quota_def Let_def intro: keeps_trans quota_ops_keep)
  qed
qed

datatype account_op = PreConsume int int | PostConsume int int | ReturnPre int int

fun account_step :: "account_op \<Rightarrow> 'a world_scheme \<Rightarrow> 'a world_scheme" where
  "account_step (PreConsume tid q) s = snd (pre_consume_token_quota tid q s)"
| "account_step (PostConsume tid q) s = snd (post_consume_token_quota tid q s)"
| "account_step (ReturnPre tid q) s = return_pre_consumed_quota q tid s"

lemma account_step_keeps: "keeps s (account_step x s)"
  by (cases x) (auto simp: pre_consume_keeps post_consume_keeps return_pre_consumed_quota_def)

lemma account_steps_keep: "keeps s (fold account_step xs s)"
proof (induction xs arbitrary: s)
  case Nil
  then show ?case by simp
next
  case (Cons x xs)
  from keeps_trans [OF account_step_keeps this] show ?case by simp
qed

subsection \<open>What lies outside the accounts\<close>

text \<open>No quota operation touches the clock or the tables of a theory that extends the world.\<close>

definition aside :: "'a world_scheme \<Rightarrow> 'a world_scheme \<Rightarrow> bool" where
  "aside s t \<longleftrightarrow> world.more t = world.more s \<and> clock t = clock s \<and> redis_enabled t = redis_enabled s"

lemma aside_refl [simp]: "aside s s"
  by (simp add: aside_def)

lemma aside_trans: "aside s t \<Longrightarrow> aside t u \<Longrightarrow> aside s u"
  by (simp add: aside_def)

lemma same_data_aside: "same_data s t \<Longrightarrow> aside s t"
  by (auto simp: same_data_def aside_def)

lemma same_tables_aside: "same_tables s t \<Longrightarrow> aside s t"
  by (simp add: same_tables_def aside_def)

lemma statements_aside [simp]: "aside s (snd (user_credit uid q s))"
  "aside s (snd (token_credit tid q s))" "aside s (add_new_record ty k v s)"
  by (auto simp: aside_def user_credit_def token_credit_def add_new_record_def split: option.splits)

lemma quota_ops_now_aside:
  "increase_user_quota_now uid q s = (r, s') \<Longrightarrow> aside s s'"
  "decrease_user_quota_now uid q s = (r, s') \<Longrightarrow> aside s s'"
  "increase_token_quota_now tid q s = (r, s') \<Longrightarrow> aside s s'"
  "decrease_token_quota_now tid q s = (r, s') \<Longrightarrow> aside s s'"
proof -
  show "increase_user_quota_now uid q s = (r, s') \<Longrightarrow> aside s s'"
    by (drule increase_user_quota_now_cases)
       (auto dest: same_data_aside intro: aside_trans [OF same_data_aside statements_aside(1)])
  show "decrease_user_quota_now uid q s = (r, s') \<Longrightarrow> aside s s'"
    by (drule decrease_user_quota_now_cases) (auto dest: same_data_aside simp: aside_def)
  show "increase_token_quota_now tid q s = (r, s') \<Longrightarrow> aside s s'"
    by (drule increase_token_quota_now_cases)
       (auto dest: same_data_aside same_tables_aside
        intro: aside_trans [OF aside_trans [OF same_data_aside statements_aside(2)]])
  show "decrease_token_quota_now tid q s = (r, s') \<Longrightarrow> aside s s'"
    by (drule decrease_token_quota_now_cases)
       (auto simp: same_data_def same_tables_def aside_def)
qed

lemma quota_ops_aside:
  "aside s (snd (increase_user_quota uid q s))" "aside s (snd (decrease_user_quota uid q s))"
  "aside s (snd (increase_token_quota tid q s))" "aside s (snd (decrease_token_quota tid q s))"
  by (auto simp: increase_user_quota_def decrease_user_quota_def increase_token_quota_def
      decrease_token_quota_def intro: quota_ops_now_aside surjective_pairing)

lemma quota_ops_aside_eq:
  "increase_user_quota uid q s = (r, s') \<Longrightarrow> aside s s'"
  "decrease_user_quota uid q s = (r, s') \<Longrightarrow> aside s s'"
  "increase_token_quota tid q s = (r, s') \<Longrightarrow> aside s s'"
  "decrease_token_quota tid q s = (r, s') \<Longrightarrow> aside s s'"
  by (metis quota_ops_aside snd_conv)+

lemma remind_low_quota_aside: "aside s (remind_low_quota uid uq q s)"
  by (rule same_tables_aside [OF remind_low_quota_tables])

lemma pre_consume_aside: "aside s (snd (pre_consume_token_quota tid q s))"
proof (cases "get_token_by_id tid s")
  case (Pair r s1)
  then have k1: "aside s s1" by (simp add: get_token_same same_data_aside)
  show ?thesis
  proof (cases "q < 0 \<or> (\<exists>e. r = Inl e)")
    case True
    with Pair k1 show ?thesis by (auto simp: pre_consume_token_quota_def)
  next
    case False
    then obtain t where r: "r = Inr t" by (cases r) auto
    obtain g s2 where g: "get_user_quota (t_user_id t) s1 = (g, s2)" by fastforce
    then have k2: "aside s s2" by (meson k1 aside_trans get_user_quota_same same_data_aside)
    have k3: "aside s (remind_low_quota (t_user_id t) uq q s2)" for uq
      by (meson k2 aside_trans remind_low_quota_aside)
    show ?thesis
      using False Pair r g k1 k2 k3
      by (auto simp: pre_consume_token_quota_def Let_def split: sum.splits prod.splits
          intro: aside_trans quota_ops_aside dest!: quota_ops_aside_eq)
  qed
qed

lemma post_consume_aside: "aside s (snd (post_consume_token_quota tid q s))"
proof (cases "get_token_by_id tid s")
  case (Pair r s1)
  then have k1: "aside s s1" by (simp add: get_token_same same_data_aside)
  show ?thesis
  proof (cases r)
    case (Inl e)
    with Pair k1 show ?thesis by (simp add: post_consume_token_quota_def)
  next
    case (Inr t)
    obtain err s2 where u: "(if q > 0 then decrease_user_quota (t_user_id t) q s1
        else increase_user_quota (t_user_id t) (i64 (- q)) s1) = (err, s2)" by fastforce
    then have "aside s1 s2" by (auto dest: quota_ops_aside_eq split: if_splits)
    with k1 have k2: "aside s s2" by (rule aside_trans)
    show ?thesis
      using Pair Inr u k2
      by (auto simp: post_consume_token_quota_def Let_def intro: aside_trans quota_ops_aside)
  qed
qed

subsection \<open>With nothing failing\<close>

text \<open>A world in immediate mode where every external call succeeds.\<close>

definition calm :: "'a world_scheme \<Rightarrow> bool" where
  "calm s \<longleftrightarrow> outcomes s = [] \<and> \<not> batch_update_enabled s"

lemma exec_calm: "calm s \<Longrightarrow> exec f s = (case f s of (r, s') \<Rightarrow> (Inr r, s'))"
  by (simp add: calm_def exec_ok)

lemma update_calm: "calm s \<Longrightarrow> update f s = (case f s of (r, s') \<Rightarrow> (Inr r, s'))"
  by (simp add: calm_def update_ok)

lemma get_token_calm:
  "calm s \<Longrightarrow> tid \<noteq> 0 \<Longrightarrow> tokens s tid = Some t \<Longrightarrow> get_token_by_id tid s = (Inr t, s)"
  by (simp add: get_token_by_id_def exec_calm)

lemma get_user_quota_calm:
  "calm s \<Longrightarrow> users s uid = Some u \<Longrightarrow> get_user_quota uid s = (Inr (u_quota u), s)"
  by (simp add: get_user_quota_def exec_calm)

lemma drop_cached_token_calm:
  "calm s \<Longrightarrow> calm (drop_cached_token tid s) \<and> same_tables s (drop_cached_token tid s)"
proof -
  assume c: "calm s"
  then have "outcomes (drop_cached_token tid s) = []"
    by (auto simp: drop_cached_token_def get_token_by_id_def exec_calm clear_token_cache_def
        calm_def exec_ok split: option.splits)
  with c drop_cached_token_tables [of s tid] show ?thesis
    by (simp add: calm_def same_tables_def)
qed

lemma remind_low_quota_calm:
  "calm s \<Longrightarrow> calm (remind_low_quota uid uq q s)"
  by (auto simp: remind_low_quota_def get_user_email_def exec_calm calm_def exec_ok Let_def)

lemma increase_user_quota_calm:
  "calm s \<Longrightarrow> 0 \<le> q \<Longrightarrow> users s uid = Some u \<Longrightarrow>
   increase_user_quota uid q s =
     (Inr (), s\<lparr>users := (users s)(uid \<mapsto> u\<lparr>u_quota := u_quota u + q\<rparr>)\<rparr>)"
  by (simp add: increase_user_quota_def increase_user_quota_now_def update_calm user_credit_def)
     (simp add: calm_def)

lemma decrease_user_quota_calm:
  "calm s \<Longrightarrow> 0 \<le> q \<Longrightarrow> users s uid = Some u \<Longrightarrow>
   decrease_user_quota uid q s =
     (if q \<le> u_quota u
      then (Inr (), s\<lparr>users := (users s)(uid \<mapsto> u\<lparr>u_quota := u_quota u - q\<rparr>)\<rparr>)
      else (Inl InsufficientUserQuota, s))"
  by (simp add: decrease_user_quota_def decrease_user_quota_now_def update_calm user_debit_def)
     (simp add: calm_def)

lemma increase_token_quota_calm:
  assumes "calm s" and "0 \<le> q" and "tokens s tid = Some t"
  shows "\<exists>s'. increase_token_quota tid q s = (Inr (), s') \<and> calm s' \<and>
    same_tables (s\<lparr>tokens := (tokens s)(tid \<mapsto> token_move (clock s) t q)\<rparr>) s'"
proof -
  let ?u = "s\<lparr>tokens := (tokens s)(tid \<mapsto> token_move (clock s) t q)\<rparr>"
  have "calm ?u" using assms by (simp add: calm_def)
  moreover have "increase_token_quota tid q s = (Inr (), drop_cached_token tid ?u)"
    using assms update_calm [of s "token_credit tid q"]
    by (simp add: increase_token_quota_def increase_token_quota_now_def token_credit_def calm_def)
  ultimately show ?thesis using drop_cached_token_calm by blast
qed

lemma decrease_token_quota_calm:
  assumes "calm s" and "0 \<le> q" and "tokens s tid = Some t" and "q \<le> t_remain_quota t"
  shows "\<exists>s'. decrease_token_quota tid q s = (Inr (), s') \<and> calm s' \<and>
    same_tables (s\<lparr>tokens := (tokens s)(tid \<mapsto> token_move (clock s) t (- q))\<rparr>) s'"
proof -
  let ?u = "s\<lparr>tokens := (tokens s)(tid \<mapsto> token_move (clock s) t (- q))\<rparr>"
  have "calm ?u" using assms by (simp add: calm_def)
  moreover have "decrease_token_quota tid q s = (Inr (), drop_cached_token tid ?u)"
    using assms update_calm [of s "token_debit tid q"]
    by (simp add: decrease_token_quota_def decrease_token_quota_now_def token_debit_def calm_def)
  ultimately show ?thesis using drop_cached_token_calm by blast
qed

text \<open>A row of the token table and its owner's row.\<close>

definition owned :: "'a world_scheme \<Rightarrow> int \<Rightarrow> token_row \<Rightarrow> user_row \<Rightarrow> bool" where
  "owned s tid t u \<longleftrightarrow> tid \<noteq> 0 \<and> tokens s tid = Some t \<and> users s (t_user_id t) = Some u"

definition charge :: "int \<Rightarrow> token_row \<Rightarrow> user_row \<Rightarrow> int \<Rightarrow> 'a world_scheme \<Rightarrow> 'a world_scheme" where
  "charge tid t u q s =
     s\<lparr>users := (users s)(t_user_id t \<mapsto> u\<lparr>u_quota := u_quota u - q\<rparr>),
       tokens := (if t_unlimited_quota t then tokens s
                  else (tokens s)(tid \<mapsto> token_move (clock s) t (- q)))\<rparr>"

lemma pre_consume_calm:
  assumes c: "calm s" and o: "owned s tid t u" and q: "0 \<le> q"
  shows "if (t_unlimited_quota t \<or> q \<le> t_remain_quota t) \<and> q \<le> u_quota u
    then fst (pre_consume_token_quota tid q s) = Inr () \<and>
         same_tables (charge tid t u q s) (snd (pre_consume_token_quota tid q s)) \<and>
         calm (snd (pre_consume_token_quota tid q s))
    else (\<exists>e. fst (pre_consume_token_quota tid q s) = Inl e) \<and>
         same_tables s (snd (pre_consume_token_quota tid q s))"
proof -
  note tok = get_token_calm [OF c, of tid t] and usr = get_user_quota_calm [OF c, of "t_user_id t" u]
  let ?s3 = "remind_low_quota (t_user_id t) (u_quota u) q s"
  have c3: "calm ?s3" using c by (rule remind_low_quota_calm)
  have t3: "same_tables s ?s3" by (rule remind_low_quota_tables)
  have u3: "users ?s3 (t_user_id t) = Some u" and k3: "tokens ?s3 tid = Some t"
    using o t3 by (simp_all add: owned_def same_tables_def)
  show ?thesis
  proof (cases "(t_unlimited_quota t \<or> q \<le> t_remain_quota t) \<and> q \<le> u_quota u")
    case False
    then show ?thesis
      using o q tok usr by (auto simp: pre_consume_token_quota_def owned_def)
  next
    case ok: True
    show ?thesis
    proof (cases "t_unlimited_quota t")
      case True
      have "pre_consume_token_quota tid q s = decrease_user_quota (t_user_id t) q ?s3"
        using ok True o q tok usr by (simp add: pre_consume_token_quota_def owned_def Let_def)
      with ok decrease_user_quota_calm [OF c3 q u3] True t3 c3 show ?thesis
        by (simp add: charge_def same_tables_def calm_def)
    next
      case False
      with ok have "q \<le> t_remain_quota t" by simp
      from decrease_token_quota_calm [OF c3 q k3 this] obtain s4
        where s4: "decrease_token_quota tid q ?s3 = (Inr (), s4)" "calm s4"
          "same_tables (?s3\<lparr>tokens := (tokens ?s3)(tid \<mapsto> token_move (clock ?s3) t (- q))\<rparr>) s4"
        by blast
      have u4: "users s4 (t_user_id t) = Some u" using s4 u3 by (simp add: same_tables_def)
      have "pre_consume_token_quota tid q s = decrease_user_quota (t_user_id t) q s4"
        using ok False o q tok usr s4
        by (simp add: pre_consume_token_quota_def owned_def Let_def)
      with ok decrease_user_quota_calm [OF s4(2) q u4] False t3 s4(2,3) show ?thesis
        by (simp add: charge_def same_tables_def calm_def)
    qed
  qed
qed

lemma post_consume_credit_calm:
  assumes c: "calm s" and o: "owned s tid t u" and q: "q \<le> 0" and i: "in_i64 (- q)"
  shows "fst (post_consume_token_quota tid q s) = Inr () \<and>
    same_tables (charge tid t u q s) (snd (post_consume_token_quota tid q s)) \<and>
    calm (snd (post_consume_token_quota tid q s))"
proof -
  have q': "0 \<le> - q" using q by simp
  let ?s2 = "s\<lparr>users := (users s)(t_user_id t \<mapsto> u\<lparr>u_quota := u_quota u + - q\<rparr>)\<rparr>"
  have u: "increase_user_quota (t_user_id t) (- q) s = (Inr (), ?s2)"
    using c q' o by (intro increase_user_quota_calm) (simp_all add: owned_def)
  have c2: "calm ?s2" using c by (simp add: calm_def)
  have k2: "tokens ?s2 tid = Some t" using o by (simp add: owned_def)
  from increase_token_quota_calm [OF c2 q' k2] obtain s3
    where "increase_token_quota tid (- q) ?s2 = (Inr (), s3)" "calm s3"
      "same_tables (?s2\<lparr>tokens := (tokens ?s2)(tid \<mapsto> token_move (clock ?s2) t (- q))\<rparr>) s3" by blast
  then show ?thesis
    using q i o u c2 get_token_calm [OF c, of tid t]
    by (auto simp: post_consume_token_quota_def owned_def charge_def same_tables_def)
qed

lemma post_consume_debit_calm:
  assumes c: "calm s" and o: "owned s tid t u" and q: "0 < q" and e: "q \<le> u_quota u"
    and r: "t_unlimited_quota t \<or> q \<le> t_remain_quota t"
  shows "fst (post_consume_token_quota tid q s) = Inr () \<and>
    same_tables (charge tid t u q s) (snd (post_consume_token_quota tid q s)) \<and>
    calm (snd (post_consume_token_quota tid q s))"
proof -
  let ?s2 = "s\<lparr>users := (users s)(t_user_id t \<mapsto> u\<lparr>u_quota := u_quota u - q\<rparr>)\<rparr>"
  have q': "0 \<le> q" using q by simp
  have u: "decrease_user_quota (t_user_id t) q s = (Inr (), ?s2)"
    using c q' o e by (simp add: decrease_user_quota_calm owned_def)
  have c2: "calm ?s2" using c by (simp add: calm_def)
  have k2: "tokens ?s2 tid = Some t" using o by (simp add: owned_def)
  show ?thesis
  proof (cases "t_unlimited_quota t")
    case True
    then show ?thesis
      using q o u c2 get_token_calm [OF c, of tid t]
      by (auto simp: post_consume_token_quota_def owned_def charge_def same_tables_def)
  next
    case False
    with r have "q \<le> t_remain_quota t" by simp
    from decrease_token_quota_calm [OF c2 q' k2 this] obtain s3
      where "decrease_token_quota tid q ?s2 = (Inr (), s3)" "calm s3"
        "same_tables (?s2\<lparr>tokens := (tokens ?s2)(tid \<mapsto> token_move (clock ?s2) t (- q))\<rparr>) s3"
      by blast
    then show ?thesis
      using q o u c2 False get_token_calm [OF c, of tid t]
      by (auto simp: post_consume_token_quota_def owned_def charge_def same_tables_def)
  qed
qed

subsection \<open>The token's side of a reservation and a settlement\<close>

text \<open>A limited token with \<open>v\<close> left, belonging to \<open>uid\<close>.\<close>

definition limited_at :: "'a world_scheme \<Rightarrow> int \<Rightarrow> int \<Rightarrow> bool" where
  "limited_at s tid v \<longleftrightarrow> tid \<noteq> 0 \<and>
     (\<exists>t. tokens s tid = Some t \<and> \<not> t_unlimited_quota t \<and> t_remain_quota t = v)"

lemma user_quota_op_calm:
  assumes "calm s" and "(if q > 0 then decrease_user_quota uid q s else increase_user_quota uid (- q) s) = (r, s')"
  shows "calm s' \<and> tokens s' = tokens s"
  using assms update_calm [of s "user_debit uid q"] update_calm [of s "user_credit uid (- q)"]
  by (auto simp: increase_user_quota_def decrease_user_quota_def increase_user_quota_now_def
      decrease_user_quota_now_def user_credit_def user_debit_def calm_def split: if_splits option.splits)

lemma token_op_limited:
  assumes c: "calm s" and l: "limited_at s tid v"
    and e: "(if q > 0 then decrease_token_quota tid q s else increase_token_quota tid (- q) s) = (r, s')"
  shows "calm s' \<and> limited_at s' tid (if r = Inr () then v - q else v)"
proof -
  from l obtain t where t: "tokens s tid = Some t" "\<not> t_unlimited_quota t" "t_remain_quota t = v"
    and n: "tid \<noteq> 0" by (auto simp: limited_at_def)
  show ?thesis
  proof (cases "q > 0")
    case pos: True
    show ?thesis
    proof (cases "q \<le> v")
      case True
      from decrease_token_quota_calm [OF c _ t(1), of q] pos True t e show ?thesis
        by (auto simp: limited_at_def same_tables_def token_move_def n)
    next
      case False
      have "decrease_token_quota tid q s = (Inl InsufficientTokenQuota, s)"
        using c pos t False update_calm [OF c, of "token_debit tid q"]
        by (simp add: decrease_token_quota_def decrease_token_quota_now_def token_debit_def calm_def)
      with e pos c l show ?thesis by auto
    qed
  next
    case False
    from increase_token_quota_calm [OF c _ t(1), of "- q"] False t e show ?thesis
      by (auto simp: limited_at_def same_tables_def token_move_def n)
  qed
qed

lemma post_consume_limited:
  assumes c: "calm s" and l: "limited_at s tid v" and i: "in_i64 q" "in_i64 (- q)"
    and e: "post_consume_token_quota tid q s = (r, s')"
  shows "calm s' \<and> limited_at s' tid (if r = Inr () then v - q else v)"
proof -
  from l obtain t where t: "tokens s tid = Some t" "\<not> t_unlimited_quota t" "t_remain_quota t = v"
    and n: "tid \<noteq> 0" by (auto simp: limited_at_def)
  obtain err s2 where u: "(if q > 0 then decrease_user_quota (t_user_id t) q s
      else increase_user_quota (t_user_id t) (- q) s) = (err, s2)" by fastforce
  from user_quota_op_calm [OF c u] have s2: "calm s2" "limited_at s2 tid v"
    using l by (auto simp: limited_at_def)
  have "post_consume_token_quota tid q s =
      (if q > 0 then decrease_token_quota tid q s2 else increase_token_quota tid (- q) s2)"
    using t u i get_token_calm [OF c n t(1)]
    by (auto simp: post_consume_token_quota_def Let_def split: if_splits)
  with token_op_limited [OF s2] e show ?thesis by metis
qed

lemma post_consume_credits:
  assumes c: "calm s" and l: "limited_at s tid v" and i: "in_i64 q" "in_i64 (- q)" and q: "q \<le> 0"
    and e: "post_consume_token_quota tid q s = (r, s')"
  shows "r = Inr ()"
proof -
  from l obtain t where t: "tokens s tid = Some t" "\<not> t_unlimited_quota t" and n: "tid \<noteq> 0"
    by (auto simp: limited_at_def)
  obtain err s2 where u: "increase_user_quota (t_user_id t) (- q) s = (err, s2)" by fastforce
  with q have "(if q > 0 then decrease_user_quota (t_user_id t) q s
      else increase_user_quota (t_user_id t) (- q) s) = (err, s2)" by simp
  from user_quota_op_calm [OF c this] t have s2: "calm s2" "tokens s2 tid = Some t" by auto
  have "post_consume_token_quota tid q s = increase_token_quota tid (- q) s2"
    using t u i q get_token_calm [OF c n t(1)] by (simp add: post_consume_token_quota_def Let_def)
  with increase_token_quota_calm [OF s2(1) _ s2(2), of "- q"] q e show ?thesis by auto
qed

lemma pre_consume_limited:
  assumes c: "calm s" and l: "limited_at s tid v" and q: "0 < q"
    and e: "pre_consume_token_quota tid q s = (r, s')"
  shows "calm s' \<and> limited_at s' tid (if r = Inr () then v - q else v)"
proof -
  from l obtain t where t: "tokens s tid = Some t" "\<not> t_unlimited_quota t" "t_remain_quota t = v"
    and n: "tid \<noteq> 0" by (auto simp: limited_at_def)
  show ?thesis
  proof (cases "users s (t_user_id t)")
    case None
    then have "get_user_quota (t_user_id t) s = (Inr 0, s)"
      by (simp add: get_user_quota_def exec_calm [OF c])
    then have "pre_consume_token_quota tid q s =
        (if v < q then Inl InsufficientTokenQuota else Inl InsufficientUserQuota, s)"
      using q t get_token_calm [OF c n t(1)] by (simp add: pre_consume_token_quota_def)
    with e c l show ?thesis by (auto split: if_splits)
  next
    case (Some u)
    with t n have o: "owned s tid t u" by (simp add: owned_def)
    have q0: "0 \<le> q" using q by simp
    note p = pre_consume_calm [OF c o q0, unfolded e fst_conv snd_conv]
    show ?thesis
    proof (cases "(t_unlimited_quota t \<or> q \<le> t_remain_quota t) \<and> q \<le> u_quota u")
      case True
      with p t n show ?thesis
        by (auto simp: limited_at_def same_tables_def charge_def token_move_def)
    next
      case False
      then have "pre_consume_token_quota tid q s = (Inl (if v < q then InsufficientTokenQuota
          else InsufficientUserQuota), s)"
        using q t get_token_calm [OF c n t(1)] get_user_quota_calm [OF c Some]
        by (auto simp: pre_consume_token_quota_def)
      with e c l show ?thesis by auto
    qed
  qed
qed

subsection \<open>Reserving, returning and settling\<close>

lemma charge_balances:
  assumes "owned s tid t u" and "same_tables (charge tid t u q s) s'"
  shows "user_balance s' = (user_balance s)(t_user_id t \<mapsto> u_quota u - q)"
    and "token_balance s' = (if t_unlimited_quota t then token_balance s
           else (token_balance s)(tid \<mapsto> t_remain_quota t - q))"
  using assms
  by (auto simp: charge_def same_tables_def user_balance_def token_balance_def owned_def
      token_move_def fun_eq_iff)

lemma charge_owned:
  assumes "owned s tid t u" and "same_tables (charge tid t u q s) s'"
  obtains t' where "owned s' tid t' (u\<lparr>u_quota := u_quota u - q\<rparr>)" and "t_user_id t' = t_user_id t"
    and "t_unlimited_quota t' = t_unlimited_quota t"
    and "t_remain_quota t' = (if t_unlimited_quota t then t_remain_quota t else t_remain_quota t - q)"
proof -
  have "owned s' tid (if t_unlimited_quota t then t else token_move (clock s) t (- q))
      (u\<lparr>u_quota := u_quota u - q\<rparr>)"
    using assms by (auto simp: owned_def same_tables_def charge_def token_move_def)
  then show ?thesis
    by (rule that) (simp_all add: token_move_def)
qed

lemma charge_charge:
  assumes o: "owned s tid t u" and s1: "same_tables (charge tid t u p s) s1"
    and o': "owned s1 tid t' (u\<lparr>u_quota := u_quota u - p\<rparr>)"
    and f: "t_user_id t' = t_user_id t" "t_unlimited_quota t' = t_unlimited_quota t"
      "t_remain_quota t' = (if t_unlimited_quota t then t_remain_quota t else t_remain_quota t - p)"
    and s2: "same_tables (charge tid t' (u\<lparr>u_quota := u_quota u - p\<rparr>) q s1) s2"
  shows "user_balance s2 = (user_balance s)(t_user_id t \<mapsto> u_quota u - p - q)"
    and "token_balance s2 = (if t_unlimited_quota t then token_balance s
           else (token_balance s)(tid \<mapsto> t_remain_quota t - p - q))"
  using charge_balances [OF o s1] charge_balances [OF o' s2] f by simp_all

subsection \<open>Properties\<close>

text \<open>
  C1. Solvency and conservation. In immediate mode, whatever the database and Redis report
  at every step, no sequence of reservations, settlements and returns (of any amounts)
  overdraws a user or a limited token, and what a token has left plus what it has used never
  changes.
\<close>

theorem accounts_stay_funded:
  assumes "\<not> batch_update_enabled s" and "funded s"
  shows "funded (fold account_step xs s) \<and> token_total (fold account_step xs s) = token_total s"
  using account_steps_keep [of s xs] assms by (simp add: keeps_def)

theorem accounts_stay_funded_witness:
  "funded (fold account_step [PreConsume 5 30, PostConsume 5 (-10), PreConsume 5 90, ReturnPre 5 7]
      (example_world\<lparr>outcomes := [Done, Busy, Failed]\<rparr>)) \<and>
   token_total (fold account_step
      [PreConsume 5 30, PostConsume 5 (-10), PreConsume 5 90, ReturnPre 5 7]
      (example_world\<lparr>outcomes := [Done, Busy, Failed]\<rparr>)) =
   token_total (example_world\<lparr>outcomes := [Done, Busy, Failed]\<rparr>)"
  by (rule accounts_stay_funded)
     (simp_all add: example_world_def example_user_def example_token_def funded_def)

text \<open>
  \<open>PreConsumeTokenQuota\<close>, with no failing call: it succeeds exactly when the user and (if
  limited) the token cover the amount; then both are charged by it and no other row changes;
  otherwise no row changes.
\<close>

theorem pre_consume_exact:
  assumes "calm s" and "owned s tid t u" and "0 \<le> q"
  shows "if (t_unlimited_quota t \<or> q \<le> t_remain_quota t) \<and> q \<le> u_quota u
    then fst (pre_consume_token_quota tid q s) = Inr () \<and>
         same_tables (charge tid t u q s) (snd (pre_consume_token_quota tid q s))
    else (\<exists>e. fst (pre_consume_token_quota tid q s) = Inl e) \<and>
         same_tables s (snd (pre_consume_token_quota tid q s))"
  using pre_consume_calm [OF assms] by (auto split: if_splits)

lemma example_calm: "calm example_world"
  by (simp add: calm_def example_world_def)

lemma example_owned: "owned example_world 5 example_token example_user"
  by (simp add: owned_def example_world_def example_token_def)

theorem pre_consume_exact_witness:
  "fst (pre_consume_token_quota 5 30 example_world) = Inr () \<and>
   same_tables (charge 5 example_token example_user 30 example_world)
     (snd (pre_consume_token_quota 5 30 example_world))"
  using pre_consume_exact [OF example_calm example_owned, of 30]
  by (simp add: example_user_def example_token_def)

text \<open>
  C2. Settlement. A reservation of \<open>p\<close> followed by the settlement of a final amount \<open>f\<close>
  (\<open>PostConsumeTokenQuota\<close> with \<open>f - p\<close>) charges the user and a limited token exactly \<open>f\<close>;
  with \<open>f = 0\<close> this is the full return of an unused reservation.
\<close>

theorem reserve_settle:
  assumes c: "calm s" and o: "owned s tid t u" and p: "0 \<le> p" and f: "0 \<le> f" and i: "in_i64 p"
    and "max p f \<le> u_quota u" and "t_unlimited_quota t \<or> max p f \<le> t_remain_quota t"
  shows "let s1 = snd (pre_consume_token_quota tid p s);
             s2 = snd (post_consume_token_quota tid (f - p) s1)
    in user_balance s2 = (user_balance s)(t_user_id t \<mapsto> u_quota u - f) \<and>
       token_balance s2 = (if t_unlimited_quota t then token_balance s
         else (token_balance s)(tid \<mapsto> t_remain_quota t - f))"
proof -
  let ?s1 = "snd (pre_consume_token_quota tid p s)"
  let ?s2 = "snd (post_consume_token_quota tid (f - p) ?s1)"
  let ?u = "u\<lparr>u_quota := u_quota u - p\<rparr>"
  from pre_consume_calm [OF c o p] assms(6,7)
  have s1: "same_tables (charge tid t u p s) ?s1" and c1: "calm ?s1"
    by (auto split: if_splits)
  from o s1 obtain t' where o1: "owned ?s1 tid t' ?u" and uid: "t_user_id t' = t_user_id t"
    and un: "t_unlimited_quota t' = t_unlimited_quota t"
    and re: "t_remain_quota t' = (if t_unlimited_quota t then t_remain_quota t else t_remain_quota t - p)"
    by (rule charge_owned)
  have "same_tables (charge tid t' ?u (f - p) ?s1) ?s2"
  proof (cases "f - p \<le> 0")
    case True
    have "in_i64 (- (f - p))" using i p f True by (simp add: in_i64_def)
    from post_consume_credit_calm [OF c1 o1 True this] show ?thesis by simp
  next
    case False
    then have "0 < f - p" by simp
    from post_consume_debit_calm [OF c1 o1 this] assms(6,7) un re show ?thesis by auto
  qed
  from charge_charge [OF o s1 o1 uid un re this] show ?thesis by (simp add: Let_def)
qed

theorem reserve_settle_witness:
  "let s1 = snd (pre_consume_token_quota 5 30 example_world);
       s2 = snd (post_consume_token_quota 5 (12 - 30) s1)
   in user_balance s2 = (user_balance example_world)(1 \<mapsto> 88) \<and>
      token_balance s2 = (token_balance example_world)(5 \<mapsto> 38)"
  using reserve_settle [OF example_calm example_owned, of 30 12]
  by (simp add: example_user_def example_token_def in_i64_def)

text \<open>
  \<open>PostConsumeTokenQuota\<close> hides the user's shortfall: when the user cannot cover the
  amount, it still reports success as long as the token is unlimited or covers it. The user
  is charged nothing, and its error never reaches the caller.
\<close>

theorem post_consume_hides_shortfall:
  assumes c: "calm s" and o: "owned s tid t u" and q: "0 < q" and short: "u_quota u < q"
    and "t_unlimited_quota t \<or> q \<le> t_remain_quota t"
  shows "fst (post_consume_token_quota tid q s) = Inr () \<and>
    user_balance (snd (post_consume_token_quota tid q s)) = user_balance s"
proof -
  have q': "0 \<le> q" using q by simp
  have u: "decrease_user_quota (t_user_id t) q s = (Inl InsufficientUserQuota, s)"
    using c q' o short by (simp add: decrease_user_quota_calm owned_def)
  show ?thesis
  proof (cases "t_unlimited_quota t")
    case True
    then show ?thesis
      using q o u get_token_calm [OF c, of tid t]
      by (simp add: post_consume_token_quota_def owned_def)
  next
    case False
    with assms(5) o decrease_token_quota_calm [OF c q', of tid t] obtain s3
      where "decrease_token_quota tid q s = (Inr (), s3)"
        "same_tables (s\<lparr>tokens := (tokens s)(tid \<mapsto> token_move (clock s) t (- q))\<rparr>) s3"
      by (auto simp: owned_def)
    then show ?thesis
      using q o u False get_token_calm [OF c, of tid t]
      by (auto simp: post_consume_token_quota_def owned_def same_tables_def user_balance_def
          fun_eq_iff)
  qed
qed

theorem post_consume_hides_shortfall_witness:
  "fst (post_consume_token_quota 5 40 (example_world\<lparr>users := [1 \<mapsto> example_user\<lparr>u_quota := 3\<rparr>]\<rparr>)) =
     Inr () \<and>
   user_balance (snd (post_consume_token_quota 5 40
     (example_world\<lparr>users := [1 \<mapsto> example_user\<lparr>u_quota := 3\<rparr>]\<rparr>))) =
   user_balance (example_world\<lparr>users := [1 \<mapsto> example_user\<lparr>u_quota := 3\<rparr>]\<rparr>)"
  by (rule post_consume_hides_shortfall
      [where t = example_token and u = "example_user\<lparr>u_quota := 3\<rparr>"])
     (simp_all add: calm_def owned_def example_world_def example_user_def example_token_def)

text \<open>
  \<open>PreConsumeTokenQuota\<close> is not atomic: when the user's update fails after the token's
  succeeded, the caller gets an error but the token stays charged.
\<close>

theorem pre_consume_leaks_token:
  "\<exists>s'. pre_consume_token_quota 5 30 (example_world\<lparr>outcomes := [Done, Done, Done, Done, Failed]\<rparr>) =
      (Inl DbError, s') \<and>
    user_balance s' = user_balance example_world \<and>
    token_balance s' = (token_balance example_world)(5 \<mapsto> 20)"
  by (simp add: pre_consume_token_quota_def get_token_by_id_def get_user_quota_def exec_def
      next_outcome_def example_world_def example_token_def example_user_def remind_low_quota_def
      i64_def decrease_token_quota_def decrease_token_quota_now_def update_def
      run_with_sqlite_busy_retry_def sqlite_busy_retry_attempts_def token_debit_def token_move_def
      drop_cached_token_def clear_token_cache_def decrease_user_quota_def
      decrease_user_quota_now_def user_debit_def user_balance_def token_balance_def fun_eq_iff
      numeral_eq_Suc)

end
