(* ===== verification/BatchUpdater.thy ===== *)
theory BatchUpdater
  imports Accounts
begin

text \<open>
  The batch updater of \<open>model/utils.go\<close>: \<open>batchUpdate\<close> takes each in-memory store in turn,
  empties it, and applies its entries to the database. A Go map is iterated in an order the
  language leaves open: \<open>ord\<close> gives the order used for each store. \<open>budget\<close> is the number of
  context checks that still find the context alive (\<open>None\<close>: it never expires).
\<close>

subsection \<open>The flush\<close>

definition update_user_used_quota :: "int \<Rightarrow> int \<Rightarrow> 'a world_scheme \<Rightarrow> 'a world_scheme" where
  "update_user_used_quota uid q s =
     snd (exec (\<lambda>s. case users s uid of
        None \<Rightarrow> (0 :: int, s)
      | Some u \<Rightarrow> (1, s\<lparr>users := (users s)(uid \<mapsto> u\<lparr>u_used_quota := u_used_quota u + q\<rparr>)\<rparr>)) s)"

definition update_user_request_count :: "int \<Rightarrow> int \<Rightarrow> 'a world_scheme \<Rightarrow> 'a world_scheme" where
  "update_user_request_count uid n s =
     snd (exec (\<lambda>s. case users s uid of
        None \<Rightarrow> (0 :: int, s)
      | Some u \<Rightarrow> (1, s\<lparr>users := (users s)(uid \<mapsto> u\<lparr>u_request_count := u_request_count u + n\<rparr>)\<rparr>)) s)"

definition update_user_used_quota_and_request_count_now ::
  "int \<Rightarrow> int \<Rightarrow> int \<Rightarrow> 'a world_scheme \<Rightarrow> 'a world_scheme" where
  "update_user_used_quota_and_request_count_now uid q n s =
     snd (exec (\<lambda>s. case users s uid of
        None \<Rightarrow> (0 :: int, s)
      | Some u \<Rightarrow> (1, s\<lparr>users := (users s)(uid \<mapsto> u\<lparr>u_used_quota := u_used_quota u + q,
                                    u_request_count := u_request_count u + n\<rparr>)\<rparr>)) s)"

definition update_user_used_quota_and_request_count ::
  "int \<Rightarrow> int \<Rightarrow> 'a world_scheme \<Rightarrow> 'a world_scheme" where
  "update_user_used_quota_and_request_count uid q s =
     (if batch_update_enabled s
      then add_new_record BatchRequestCount uid 1 (add_new_record BatchUsedQuota uid q s)
      else update_user_used_quota_and_request_count_now uid q 1 s)"

definition update_channel_used_quota_now :: "int \<Rightarrow> int \<Rightarrow> 'a world_scheme \<Rightarrow> 'a world_scheme" where
  "update_channel_used_quota_now cid q s =
     snd (exec (\<lambda>s. case channel_used_quota s cid of
        None \<Rightarrow> (0 :: int, s)
      | Some n \<Rightarrow> (1, s\<lparr>channel_used_quota := (channel_used_quota s)(cid \<mapsto> n + q)\<rparr>)) s)"

definition update_channel_used_quota :: "int \<Rightarrow> int \<Rightarrow> 'a world_scheme \<Rightarrow> 'a world_scheme" where
  "update_channel_used_quota cid q s =
     (if batch_update_enabled s then add_new_record BatchChannelUsedQuota cid q s
      else update_channel_used_quota_now cid q s)"

fun apply_batch :: "batch_type \<Rightarrow> int \<Rightarrow> int \<Rightarrow> 'a world_scheme \<Rightarrow> 'a world_scheme" where
  "apply_batch BatchUserQuota k v s = snd (increase_user_quota_now k v s)"
| "apply_batch BatchTokenQuota k v s = snd (increase_token_quota_now k v s)"
| "apply_batch BatchUsedQuota k v s = update_user_used_quota k v s"
| "apply_batch BatchRequestCount k v s = update_user_request_count k v s"
| "apply_batch BatchChannelUsedQuota k v s = update_channel_used_quota_now k v s"

fun spend :: "nat option \<Rightarrow> nat option option" where
  "spend None = Some None"
| "spend (Some 0) = None"
| "spend (Some (Suc n)) = Some (Some n)"

text \<open>\<open>None\<close>: the context had expired and \<open>batchUpdate\<close> returned.\<close>

fun flush_entries ::
  "batch_type \<Rightarrow> (int \<times> int) list \<Rightarrow> nat option \<Rightarrow> 'a world_scheme \<Rightarrow> nat option option \<times> 'a world_scheme" where
  "flush_entries ty [] b s = (Some b, s)"
| "flush_entries ty ((k, v) # kvs) b s =
     (case spend b of
        None \<Rightarrow> (None, s)
      | Some b' \<Rightarrow> flush_entries ty kvs b' (apply_batch ty k v s))"

definition entries_of :: "int list \<Rightarrow> (int \<rightharpoonup> int) \<Rightarrow> (int \<times> int) list" where
  "entries_of ks m = List.map_filter (\<lambda>k. map_option (Pair k) (m k)) ks"

fun flush_stores ::
  "(batch_type \<Rightarrow> int list) \<Rightarrow> batch_type list \<Rightarrow> nat option \<Rightarrow> 'a world_scheme \<Rightarrow> 'a world_scheme" where
  "flush_stores ord [] b s = s"
| "flush_stores ord (ty # tys) b s =
     (case spend b of
        None \<Rightarrow> s
      | Some b' \<Rightarrow>
          (let store = batch_stores s ty;
               s' = s\<lparr>batch_stores := (batch_stores s)(ty := Map.empty)\<rparr>
           in case flush_entries ty (entries_of (ord ty) store) b' s' of
                (None, s'') \<Rightarrow> s''
              | (Some b'', s'') \<Rightarrow> flush_stores ord tys b'' s''))"

definition batch_types :: "batch_type list" where
  "batch_types = [BatchUserQuota, BatchTokenQuota, BatchUsedQuota, BatchChannelUsedQuota,
     BatchRequestCount]"

definition batch_update ::
  "(batch_type \<Rightarrow> int list) \<Rightarrow> nat option \<Rightarrow> 'a world_scheme \<Rightarrow> 'a world_scheme" where
  "batch_update ord budget s = flush_stores ord batch_types budget s"

subsection \<open>What a calm flush does\<close>

definition pending :: "'a world_scheme \<Rightarrow> batch_type \<Rightarrow> int \<Rightarrow> int" where
  "pending s ty k = (case batch_stores s ty k of None \<Rightarrow> 0 | Some v \<Rightarrow> v)"

text \<open>The sum of the values listed for a key.\<close>

definition total_for :: "int \<Rightarrow> (int \<times> int) list \<Rightarrow> int" where
  "total_for k kvs = (\<Sum>kv \<leftarrow> filter (\<lambda>kv. fst kv = k) kvs. snd kv)"

lemma total_for_simps [simp]:
  "total_for k [] = 0"
  "total_for k ((k', v) # kvs) = (if k' = k then v else 0) + total_for k kvs"
  by (simp_all add: total_for_def)

lemma total_for_absent: "k \<notin> fst ` set kvs \<Longrightarrow> total_for k kvs = 0"
  by (induction kvs) auto

lemma entries_of_Cons:
  "entries_of (k # ks) m = (case m k of None \<Rightarrow> entries_of ks m | Some v \<Rightarrow> (k, v) # entries_of ks m)"
  by (simp add: entries_of_def List.map_filter_def split: option.splits)

lemma entries_of_keys: "fst ` set (entries_of ks m) \<subseteq> set ks"
  by (induction ks) (auto simp: entries_of_Cons entries_of_def List.map_filter_def split: option.splits)

lemma total_for_entries:
  "distinct ks \<Longrightarrow> total_for k (entries_of ks m) =
    (if k \<in> set ks then case m k of None \<Rightarrow> 0 | Some v \<Rightarrow> v else 0)"
proof (induction ks)
  case Nil
  then show ?case by (simp add: entries_of_def List.map_filter_def)
next
  case (Cons a ks)
  have "a \<notin> fst ` set (entries_of ks m)" using Cons.prems entries_of_keys by fastforce
  then show ?case
    using Cons by (auto simp: entries_of_Cons total_for_absent split: option.splits)
qed

text \<open>What one calm statement of the flush adds to each account.\<close>

definition delta :: "batch_type \<Rightarrow> batch_type \<Rightarrow> int \<Rightarrow> int" where
  "delta want ty v = (if ty = want then v else 0)"

definition bump_user :: "int \<Rightarrow> int \<Rightarrow> int \<Rightarrow> user_row \<Rightarrow> user_row" where
  "bump_user q uq rc u = u\<lparr>u_quota := u_quota u + q, u_used_quota := u_used_quota u + uq,
     u_request_count := u_request_count u + rc\<rparr>"

definition bump_token :: "int \<Rightarrow> token_row \<Rightarrow> token_row" where
  "bump_token q t = t\<lparr>t_remain_quota := t_remain_quota t + q, t_used_quota := t_used_quota t - q\<rparr>"

text \<open>The token rows without their access time.\<close>

definition untimed :: "token_row \<Rightarrow> token_row" where
  "untimed t = t\<lparr>t_accessed_time := 0\<rparr>"

definition token_view :: "'a world_scheme \<Rightarrow> int \<Rightarrow> token_row option" where
  "token_view s k = map_option untimed (tokens s k)"

lemma bump_user_0 [simp]: "bump_user 0 0 0 = (\<lambda>u. u)"
  by (simp add: bump_user_def fun_eq_iff)

lemma bump_user_add: "bump_user a b c (bump_user d e f u) = bump_user (d + a) (e + b) (f + c) u"
  by (simp add: bump_user_def algebra_simps)

lemma bump_token_0 [simp]: "bump_token 0 = (\<lambda>t. t)"
  by (simp add: bump_token_def fun_eq_iff)

lemma bump_token_add: "bump_token a (bump_token b t) = bump_token (b + a) t"
  by (simp add: bump_token_def algebra_simps)

definition no_failures :: "'a world_scheme \<Rightarrow> bool" where
  "no_failures s \<longleftrightarrow> outcomes s = []"

lemma drop_cached_token_no_failures: "no_failures s \<Longrightarrow> no_failures (drop_cached_token tid s)"
  by (auto simp: no_failures_def drop_cached_token_def get_token_by_id_def exec_ok clear_token_cache_def
      split: option.splits)

text \<open>The effect of one entry, seen as sums.\<close>

definition flushed ::
  "'a world_scheme \<Rightarrow> (batch_type \<Rightarrow> int \<Rightarrow> int) \<Rightarrow> 'a world_scheme \<Rightarrow> bool" where
  "flushed s d s' \<longleftrightarrow> no_failures s' \<and> batch_stores s' = batch_stores s \<and>
     batch_update_enabled s' = batch_update_enabled s \<and>
     (\<forall>k. users s' k = map_option
        (bump_user (d BatchUserQuota k) (d BatchUsedQuota k) (d BatchRequestCount k)) (users s k)) \<and>
     (\<forall>k. token_view s' k = map_option (bump_token (d BatchTokenQuota k)) (token_view s k)) \<and>
     (\<forall>k. channel_used_quota s' k = map_option (\<lambda>n. n + d BatchChannelUsedQuota k) (channel_used_quota s k))"

lemma flushed_refl: "no_failures s \<Longrightarrow> flushed s (\<lambda>_ _. 0) s"
  by (simp add: flushed_def option.map_ident)

lemma flushed_trans:
  assumes "flushed s d s1" and "flushed s1 e s2"
  shows "flushed s (\<lambda>ty k. d ty k + e ty k) s2"
  using assms
  by (simp add: flushed_def option.map_comp comp_def bump_user_add bump_token_add algebra_simps)

lemma apply_batch_flushed:
  assumes q: "no_failures s"
  shows "flushed s (\<lambda>ty' k'. if ty' = ty \<and> k' = k then v else 0) (apply_batch ty k v s)"
proof (cases ty)
  case BatchTokenQuota
  let ?u = "snd (token_credit k v s)"
  have u: "no_failures ?u" using q by (simp add: no_failures_def token_credit_def split: option.splits)
  have a: "apply_batch ty k v s = drop_cached_token k ?u"
    using q BatchTokenQuota
    by (simp add: increase_token_quota_now_def update_ok no_failures_def split: prod.splits)
  have "flushed s (\<lambda>ty' k'. if ty' = ty \<and> k' = k then v else 0) ?u"
    using q u BatchTokenQuota
    by (auto simp: flushed_def token_credit_def token_move_def token_view_def untimed_def
        bump_token_def option.map_ident split: option.splits)
  with drop_cached_token_tables [of ?u k] drop_cached_token_no_failures [OF u, of k] a show ?thesis
    by (simp add: flushed_def same_tables_def token_view_def)
qed (use q in \<open>auto simp: flushed_def no_failures_def increase_user_quota_now_def update_ok exec_ok token_view_def
      user_credit_def update_user_used_quota_def update_user_request_count_def
      update_channel_used_quota_now_def bump_user_def bump_token_def option.map_ident
      split: option.splits prod.splits\<close>)

lemma flush_entries_flushed:
  "no_failures s \<Longrightarrow> \<exists>s'. flush_entries ty kvs None s = (Some None, s') \<and>
    flushed s (\<lambda>ty' k. if ty' = ty then total_for k kvs else 0) s'"
proof (induction kvs arbitrary: s)
  case Nil
  have "(\<lambda>ty' k. if ty' = ty then total_for k [] else 0) = (\<lambda>_ _. 0)" by (simp add: fun_eq_iff)
  then show ?case using flushed_refl [OF Nil] by simp
next
  case (Cons kv kvs)
  obtain k v where kv: "kv = (k, v)" by fastforce
  let ?s1 = "apply_batch ty k v s"
  have a: "flushed s (\<lambda>ty' k'. if ty' = ty \<and> k' = k then v else 0) ?s1"
    using Cons.prems by (rule apply_batch_flushed)
  then have "no_failures ?s1" by (simp add: flushed_def)
  from Cons.IH [OF this] obtain s' where
    f: "flush_entries ty kvs None ?s1 = (Some None, s')" and
    b: "flushed ?s1 (\<lambda>ty' k. if ty' = ty then total_for k kvs else 0) s'" by blast
  have "(\<lambda>ty' k'. (if ty' = ty \<and> k' = k then v else 0) + (if ty' = ty then total_for k' kvs else 0))
      = (\<lambda>ty' k'. if ty' = ty then total_for k' (kv # kvs) else 0)"
    by (auto simp: fun_eq_iff kv)
  with flushed_trans [OF a b] f kv show ?case by auto
qed

lemma flush_stores_flushed:
  assumes "no_failures s" and "distinct tys"
    and "\<And>ty. distinct (ord ty)" and "\<And>ty. dom (batch_stores s ty) \<subseteq> set (ord ty)"
  shows "\<exists>s'. flush_stores ord tys None s = s' \<and>
    flushed (s\<lparr>batch_stores := (\<lambda>ty. if ty \<in> set tys then Map.empty else batch_stores s ty)\<rparr>)
      (\<lambda>ty k. if ty \<in> set tys then pending s ty k else 0) s'"
  using assms
proof (induction tys arbitrary: s)
  case Nil
  then show ?case using flushed_refl [of s] by simp
next
  case (Cons ty tys)
  let ?s0 = "s\<lparr>batch_stores := (batch_stores s)(ty := Map.empty)\<rparr>"
  let ?e = "entries_of (ord ty) (batch_stores s ty)"
  have "no_failures ?s0" using Cons.prems by (simp add: no_failures_def)
  from flush_entries_flushed [OF this, of ty ?e] obtain s1 where
    f: "flush_entries ty ?e None ?s0 = (Some None, s1)" and
    a: "flushed ?s0 (\<lambda>ty' k. if ty' = ty then total_for k ?e else 0) s1" by blast
  have tot: "total_for k ?e = pending s ty k" for k
    using Cons.prems(3,4) [of ty]
    by (auto simp: total_for_entries pending_def split: option.splits)
  have a': "flushed ?s0 (\<lambda>ty' k. if ty' = ty then pending s ty k else 0) s1"
    using a by (simp add: tot cong: if_cong)
  have st: "batch_stores s1 = (batch_stores s)(ty := Map.empty)" using a by (simp add: flushed_def)
  have "\<exists>s'. flush_stores ord tys None s1 = s' \<and>
      flushed (s1\<lparr>batch_stores := (\<lambda>ty. if ty \<in> set tys then Map.empty else batch_stores s1 ty)\<rparr>)
        (\<lambda>ty k. if ty \<in> set tys then pending s1 ty k else 0) s'"
    using Cons.prems st a by (intro Cons.IH) (auto simp: flushed_def)
  then obtain s' where g: "flush_stores ord tys None s1 = s'" and
    b: "flushed (s1\<lparr>batch_stores := (\<lambda>ty. if ty \<in> set tys then Map.empty else batch_stores s1 ty)\<rparr>)
        (\<lambda>ty k. if ty \<in> set tys then pending s1 ty k else 0) s'" by blast
  let ?B = "\<lambda>t. if t \<in> set (ty # tys) then Map.empty else batch_stores s t"
  have B: "(\<lambda>t. if t \<in> set tys then Map.empty else batch_stores s1 t) = ?B"
    using st by (auto simp: fun_eq_iff)
  have "flushed (s\<lparr>batch_stores := ?B\<rparr>) (\<lambda>ty' k. if ty' = ty then pending s ty k else 0)
      (s1\<lparr>batch_stores := (\<lambda>t. if t \<in> set tys then Map.empty else batch_stores s1 t)\<rparr>)"
    unfolding B using a' by (simp add: flushed_def no_failures_def token_view_def)
  from flushed_trans [OF this b]
  have "flushed (s\<lparr>batch_stores := ?B\<rparr>) (\<lambda>ty' k. if ty' \<in> set (ty # tys) then pending s ty' k else 0) s'"
    using Cons.prems(2) st
    by (elim back_subst [of "\<lambda>d. flushed (s\<lparr>batch_stores := ?B\<rparr>) d s'"])
       (auto simp: fun_eq_iff pending_def)
  with f g show ?case by simp
qed

subsection \<open>Deferred and immediate accounting\<close>

datatype quota_op = IncUser int int | DecUser int int | IncToken int int | DecToken int int

fun quota_step :: "quota_op \<Rightarrow> 'a world_scheme \<Rightarrow> (model_error + unit) \<times> 'a world_scheme" where
  "quota_step (IncUser k q) s = increase_user_quota k q s"
| "quota_step (DecUser k q) s = decrease_user_quota k q s"
| "quota_step (IncToken k q) s = increase_token_quota k q s"
| "quota_step (DecToken k q) s = decrease_token_quota k q s"

text \<open>A run that stops at the first error.\<close>

fun quota_run :: "quota_op list \<Rightarrow> 'a world_scheme \<Rightarrow> 'a world_scheme option" where
  "quota_run [] s = Some s"
| "quota_run (x # xs) s =
     (case quota_step x s of (Inl _, _) \<Rightarrow> None | (Inr _, s') \<Rightarrow> quota_run xs s')"

fun op_amount :: "quota_op \<Rightarrow> int" where
  "op_amount (IncUser _ q) = q"
| "op_amount (DecUser _ q) = q"
| "op_amount (IncToken _ q) = q"
| "op_amount (DecToken _ q) = q"

fun op_delta :: "quota_op \<Rightarrow> batch_type \<Rightarrow> int \<Rightarrow> int" where
  "op_delta (IncUser k q) ty i = (if ty = BatchUserQuota \<and> i = k then q else 0)"
| "op_delta (DecUser k q) ty i = (if ty = BatchUserQuota \<and> i = k then - q else 0)"
| "op_delta (IncToken k q) ty i = (if ty = BatchTokenQuota \<and> i = k then q else 0)"
| "op_delta (DecToken k q) ty i = (if ty = BatchTokenQuota \<and> i = k then - q else 0)"

definition ops_delta :: "quota_op list \<Rightarrow> batch_type \<Rightarrow> int \<Rightarrow> int" where
  "ops_delta xs ty k = (\<Sum>x \<leftarrow> xs. op_delta x ty k)"

lemma ops_delta_simps [simp]:
  "ops_delta [] ty k = 0" "ops_delta (x # xs) ty k = op_delta x ty k + ops_delta xs ty k"
  by (simp_all add: ops_delta_def)

lemma op_delta_bound: "0 \<le> op_amount x \<Longrightarrow> \<bar>op_delta x ty k\<bar> \<le> op_amount x"
  by (cases x) auto

lemma quota_step_amount: "quota_step x s = (Inr u, s') \<Longrightarrow> 0 \<le> op_amount x"
  by (cases x) (auto simp: increase_user_quota_def decrease_user_quota_def
      increase_token_quota_def decrease_token_quota_def split: if_splits)

lemma quota_step_immediate:
  assumes "\<not> batch_update_enabled s" and "quota_step x s = (Inr u, s')"
  shows "user_balance s' k = map_option (\<lambda>b. b + op_delta x BatchUserQuota k) (user_balance s k)"
    and "token_balance s' k = map_option (\<lambda>b. b + op_delta x BatchTokenQuota k) (token_balance s k)"
proof -
  have u: "u = ()" by simp
  have "user_balance s' k = map_option (\<lambda>b. b + op_delta x BatchUserQuota k) (user_balance s k) \<and>
    token_balance s' k = map_option (\<lambda>b. b + op_delta x BatchTokenQuota k) (token_balance s k)"
  proof (cases x)
    case (IncUser i q)
    with assms have e: "increase_user_quota_now i q s = (Inr (), s')"
      by (simp add: increase_user_quota_def split: if_splits)
    from user_ledger.credit_ok [OF e] increase_user_quota_now_cases [OF e] IncUser show ?thesis
      by (auto simp: option.map_ident token_balance_def user_credit_def same_data_balances
          split: option.splits)
  next
    case (DecUser i q)
    with assms have e: "decrease_user_quota_now i q s = (Inr (), s')"
      by (simp add: decrease_user_quota_def split: if_splits)
    from user_ledger.debit_ok [OF e] decrease_user_quota_now_cases [OF e] DecUser show ?thesis
      by (auto simp: option.map_ident token_balance_def same_data_balances)
  next
    case (IncToken i q)
    with assms have e: "increase_token_quota_now i q s = (Inr (), s')"
      by (simp add: increase_token_quota_def split: if_splits)
    from token_ledger.credit_ok [OF e] increase_token_quota_now_cases [OF e] IncToken show ?thesis
      by (auto simp: option.map_ident user_balance_def token_credit_def same_data_balances
          same_tables_def split: option.splits)
  next
    case (DecToken i q)
    with assms have e: "decrease_token_quota_now i q s = (Inr (), s')"
      by (simp add: decrease_token_quota_def split: if_splits)
    from token_ledger.debit_ok [OF e] decrease_token_quota_now_cases [OF e] DecToken show ?thesis
      by (auto simp: option.map_ident user_balance_def same_data_balances same_tables_def)
  qed
  then show
    "user_balance s' k = map_option (\<lambda>b. b + op_delta x BatchUserQuota k) (user_balance s k)"
    "token_balance s' k = map_option (\<lambda>b. b + op_delta x BatchTokenQuota k) (token_balance s k)"
    by auto
qed

lemma quota_step_mode:
  "\<not> batch_update_enabled s \<Longrightarrow> quota_step x s = (r, s') \<Longrightarrow> \<not> batch_update_enabled s'"
  by (cases x) (auto dest: quota_ops_keep_eq simp: keeps_def)

lemma quota_run_immediate:
  "\<not> batch_update_enabled s \<Longrightarrow> quota_run xs s = Some s' \<Longrightarrow>
   user_balance s' k = map_option (\<lambda>b. b + ops_delta xs BatchUserQuota k) (user_balance s k) \<and>
   token_balance s' k = map_option (\<lambda>b. b + ops_delta xs BatchTokenQuota k) (token_balance s k)"
proof (induction xs arbitrary: s)
  case Nil
  then show ?case by (simp add: option.map_ident)
next
  case (Cons x xs)
  then obtain u s1 where st: "quota_step x s = (Inr u, s1)" and r: "quota_run xs s1 = Some s'"
    by (auto split: prod.splits sum.splits)
  have "\<not> batch_update_enabled s1" using Cons.prems(1) st by (rule quota_step_mode)
  from Cons.IH [OF this r] quota_step_immediate [OF Cons.prems(1) st, of k] show ?case
    by (simp add: option.map_comp comp_def algebra_simps)
qed

lemma quota_run_amounts:
  "quota_run xs s = Some s' \<Longrightarrow> x \<in> set xs \<Longrightarrow> 0 \<le> op_amount x"
  by (induction xs arbitrary: s) (auto split: prod.splits sum.splits dest: quota_step_amount)

text \<open>A batched step only moves the pending sum.\<close>

lemma add_new_record_pending:
  "in_i64 (pending s ty k + v) \<Longrightarrow> in_i64 v \<Longrightarrow>
   pending (add_new_record ty k v s) ty' k' =
     pending s ty' k' + (if ty' = ty \<and> k' = k then v else 0)"
  by (auto simp: add_new_record_def pending_def split: option.splits)

lemma add_new_record_frame [simp]:
  "users (add_new_record ty k v s) = users s" "tokens (add_new_record ty k v s) = tokens s"
  "outcomes (add_new_record ty k v s) = outcomes s"
  "batch_update_enabled (add_new_record ty k v s) = batch_update_enabled s"
  "user_balance (add_new_record ty k v s) = user_balance s"
  "token_balance (add_new_record ty k v s) = token_balance s"
  by (simp_all add: add_new_record_def user_balance_def token_balance_def fun_eq_iff)

lemma quota_run_batched:
  assumes "batch_update_enabled s" and "\<And>x. x \<in> set xs \<Longrightarrow> 0 \<le> op_amount x"
    and "\<And>ty k. \<bar>pending s ty k\<bar> + (\<Sum>x \<leftarrow> xs. op_amount x) < 2 ^ 63"
  shows "\<exists>s'. quota_run xs s = Some s' \<and> outcomes s' = outcomes s \<and>
    user_balance s' = user_balance s \<and> token_balance s' = token_balance s \<and>
    (\<forall>ty k. pending s' ty k = pending s ty k + ops_delta xs ty k)"
  using assms
proof (induction xs arbitrary: s)
  case Nil
  then show ?case by simp
next
  case (Cons x xs)
  have a: "0 \<le> op_amount x" using Cons.prems(2) by simp
  have tl: "0 \<le> (\<Sum>x \<leftarrow> xs. op_amount x)" using Cons.prems(2) by (intro sum_list_nonneg) auto
  obtain ty0 k0 v where v: "quota_step x s = (Inr (), add_new_record ty0 k0 v s)"
    and d: "\<And>ty k. op_delta x ty k = (if ty = ty0 \<and> k = k0 then v else 0)" and va: "\<bar>v\<bar> \<le> op_amount x"
    using a Cons.prems(1)
    by (cases x) (auto simp: increase_user_quota_def decrease_user_quota_def
        increase_token_quota_def decrease_token_quota_def)
  let ?s1 = "add_new_record ty0 k0 v s"
  have p: "pending ?s1 ty k = pending s ty k + op_delta x ty k" for ty k
    using Cons.prems(3) [of ty0 k0] va tl
    by (subst add_new_record_pending) (auto simp: in_i64_def d)
  have "\<exists>s'. quota_run xs ?s1 = Some s' \<and> outcomes s' = outcomes ?s1 \<and>
    user_balance s' = user_balance ?s1 \<and> token_balance s' = token_balance ?s1 \<and>
    (\<forall>ty k. pending s' ty k = pending ?s1 ty k + ops_delta xs ty k)"
  proof (rule Cons.IH)
    fix ty k
    show "\<bar>pending ?s1 ty k\<bar> + (\<Sum>x \<leftarrow> xs. op_amount x) < 2 ^ 63"
      using Cons.prems(3) [of ty k] op_delta_bound [OF a, of ty k] by (simp add: p)
  qed (use Cons.prems in auto)
  with v p show ?case by auto
qed

lemma flushed_balances:
  assumes "flushed s0 d s'"
  shows "user_balance s' k = map_option (\<lambda>b. b + d BatchUserQuota k) (user_balance s0 k)"
    and "token_balance s' k = map_option (\<lambda>b. b + d BatchTokenQuota k) (token_balance s0 k)"
proof -
  show "user_balance s' k = map_option (\<lambda>b. b + d BatchUserQuota k) (user_balance s0 k)"
    using assms by (simp add: flushed_def user_balance_def option.map_comp comp_def bump_user_def)
  have t: "token_balance u k = map_option t_remain_quota (token_view u k)" for u :: "'a world_scheme"
    by (simp add: token_balance_def token_view_def option.map_comp comp_def untimed_def)
  show "token_balance s' k = map_option (\<lambda>b. b + d BatchTokenQuota k) (token_balance s0 k)"
    using assms by (simp add: flushed_def t option.map_comp comp_def bump_token_def)
qed

lemma batch_update_flushed:
  assumes "outcomes s = []" and "\<And>ty. distinct (ord ty)"
    and "\<And>ty. dom (batch_stores s ty) \<subseteq> set (ord ty)"
  shows "flushed (s\<lparr>batch_stores := (\<lambda>_. Map.empty)\<rparr>) (pending s) (batch_update ord None s)"
proof -
  have all: "set batch_types = UNIV" by (auto simp: batch_types_def intro: batch_type.exhaust)
  have d: "distinct batch_types" by (simp add: batch_types_def)
  have "no_failures s" using assms(1) by (simp add: no_failures_def)
  from flush_stores_flushed [OF this d, of ord] assms(2,3) show ?thesis
    by (simp add: all batch_update_def)
qed

subsection \<open>Properties\<close>

text \<open>
  A flush that is not cut short applies every pending entry exactly once, in whatever
  order the Go map is iterated: each user's quota, used quota and request count, each token's
  rest and each channel's used quota move by their pending sums, and nothing stays pending.
\<close>

theorem batch_flush_exact:
  assumes "outcomes s = []" and "\<And>ty. distinct (ord ty)"
    and "\<And>ty. dom (batch_stores s ty) \<subseteq> set (ord ty)"
  shows "let s' = batch_update ord None s in
    batch_stores s' = (\<lambda>_. Map.empty) \<and>
    (\<forall>k. users s' k = map_option (bump_user (pending s BatchUserQuota k)
      (pending s BatchUsedQuota k) (pending s BatchRequestCount k)) (users s k)) \<and>
    (\<forall>k. token_view s' k = map_option (bump_token (pending s BatchTokenQuota k)) (token_view s k)) \<and>
    (\<forall>k. channel_used_quota s' k =
      map_option (\<lambda>n. n + pending s BatchChannelUsedQuota k) (channel_used_quota s k))"
  using batch_update_flushed [OF assms] by (simp add: flushed_def token_view_def)

definition example_pending :: world where
  "example_pending = example_world\<lparr>batch_update_enabled := True,
     batch_stores := (\<lambda>ty. if ty = BatchUserQuota then [1 \<mapsto> - 40]
       else if ty = BatchTokenQuota then [5 \<mapsto> - 40] else Map.empty)\<rparr>"

theorem batch_flush_exact_witness:
  "batch_stores (batch_update (\<lambda>_. [5, 1]) None example_pending) = (\<lambda>_. Map.empty) \<and>
   users (batch_update (\<lambda>_. [5, 1]) None example_pending) 1 = Some (example_user\<lparr>u_quota := 60\<rparr>)"
proof -
  have "outcomes example_pending = []" and "\<And>ty :: batch_type. distinct [5, 1 :: int]"
    and "dom (batch_stores example_pending ty) \<subseteq> set [5, 1]" for ty
    by (auto simp: example_pending_def example_world_def split: if_splits)
  from batch_flush_exact [OF this]
  have "batch_stores (batch_update (\<lambda>_. [5, 1]) None example_pending) = (\<lambda>_. Map.empty)"
    and "users (batch_update (\<lambda>_. [5, 1]) None example_pending) 1 =
      map_option (bump_user (pending example_pending BatchUserQuota 1)
        (pending example_pending BatchUsedQuota 1) (pending example_pending BatchRequestCount 1))
        (users example_pending 1)"
    by (simp_all add: Let_def)
  then show ?thesis
    by (simp add: example_pending_def example_world_def pending_def bump_user_def example_user_def)
qed



text \<open>
  When the flush's context expires after a store was taken, the rest of that store is
  lost: it is gone from memory and was never written, so the charges in it are dropped.
\<close>

theorem batch_expiry_loses:
  assumes "entries_of (ord BatchUserQuota) (batch_stores s BatchUserQuota) \<noteq> []"
  shows "batch_stores (batch_update ord (Some 1) s) BatchUserQuota = Map.empty \<and>
    users (batch_update ord (Some 1) s) = users s \<and> tokens (batch_update ord (Some 1) s) = tokens s"
proof -
  obtain k v r where "entries_of (ord BatchUserQuota) (batch_stores s BatchUserQuota) = (k, v) # r"
    using assms by (cases "entries_of (ord BatchUserQuota) (batch_stores s BatchUserQuota)") auto
  then show ?thesis
    by (simp add: batch_update_def batch_types_def)
qed

theorem batch_expiry_loses_witness:
  "batch_stores (batch_update (\<lambda>_. [1, 5]) (Some 1) example_pending) BatchUserQuota = Map.empty \<and>
   users (batch_update (\<lambda>_. [1, 5]) (Some 1) example_pending) = users example_pending \<and>
   tokens (batch_update (\<lambda>_. [1, 5]) (Some 1) example_pending) = tokens example_pending"
  by (rule batch_expiry_loses)
     (simp add: example_pending_def example_world_def entries_of_def List.map_filter_def)

end
