(* ===== verification/RelayState.thy ===== *)
theory RelayState
  imports SteadyPrices BatchUpdater
begin

text \<open>
  What the relay keeps beside the accounts: the cached balance of a user (\<open>model/cache.go\<close>), the consume
  logs (\<open>model/log.go\<close>), the recorded cost of a request (\<open>model/cost.go\<close>), the entry points of
  \<open>relay/billing/billing.go\<close> and the refund rules of \<open>relay/controller/billing_safety.go\<close>.

  The text of a log entry and its user name are left out. \<open>removeOldRequestCost\<close>, which
  \<open>UpdateUserRequestCostQuotaByRequestID\<close> starts now and then in the background, is not modelled.
\<close>

subsection \<open>State\<close>

datatype log_type = LogTypeConsume | LogTypeProvisional

record relay_log =
  log_user_id :: int
  log_channel_id :: int
  log_model_name :: string
  log_request_id :: string
  log_is_stream :: bool
  log_kind :: log_type
  log_quota :: int
  log_prompt_tokens :: int
  log_completion_tokens :: int
  log_cached_prompt_tokens :: int
  log_provisional :: bool               \<comment> \<open>the \<open>provisional\<close> key of the metadata\<close>

record relay_world = world +
  user_quota_cache :: "int \<rightharpoonup> string"    \<comment> \<open>Redis, keys \<open>user_quota:ID\<close>\<close>
  relay_logs :: "int \<rightharpoonup> relay_log"
  next_log_id :: int
  log_consume_enabled :: bool
  request_costs :: "string \<rightharpoonup> int \<times> int"  \<comment> \<open>user and quota by request id\<close>
  pre_consumed_quota_config :: int       \<comment> \<open>\<open>config.PreConsumedQuota\<close>\<close>
  global_pricing :: gpm

subsection \<open>The cached balance\<close>

definition redis_set_user_quota ::
  "int \<Rightarrow> int \<Rightarrow> 'a relay_world_scheme \<Rightarrow> (model_error + unit) \<times> 'a relay_world_scheme" where
  "redis_set_user_quota uid q =
     stmt RedisError (\<lambda>s. ((), s\<lparr>user_quota_cache := (user_quota_cache s)(uid \<mapsto> itoa q)\<rparr>))"

text \<open>The result parameter \<open>err\<close> of \<open>fetchAndUpdateUserQuota\<close> still holds the error of \<open>RedisSet\<close> at its return.\<close>

definition fetch_and_update_user_quota ::
  "int \<Rightarrow> 'a relay_world_scheme \<Rightarrow> (model_error + int) \<times> 'a relay_world_scheme" where
  "fetch_and_update_user_quota uid s =
     bindE (get_user_quota uid s) (\<lambda>q s. bindE (redis_set_user_quota uid q s) (\<lambda>_ s. (Inr q, s)))"

definition cache_get_user_quota ::
  "int \<Rightarrow> 'a relay_world_scheme \<Rightarrow> (model_error + int) \<times> 'a relay_world_scheme" where
  "cache_get_user_quota uid s =
     (if \<not> redis_enabled s then get_user_quota uid s
      else (case exec (\<lambda>s. (user_quota_cache s uid, s)) s of
              (Inr (Some str), s) \<Rightarrow>
                (case atoi str of
                   None \<Rightarrow> (Inr 0, s)
                 | Some q \<Rightarrow> if q \<le> pre_consumed_quota_config s then fetch_and_update_user_quota uid s
                             else (Inr q, s))
            | (_, s) \<Rightarrow> fetch_and_update_user_quota uid s))"

definition cache_update_user_quota ::
  "int \<Rightarrow> 'a relay_world_scheme \<Rightarrow> (model_error + unit) \<times> 'a relay_world_scheme" where
  "cache_update_user_quota uid s =
     (if \<not> redis_enabled s then (Inr (), s)
      else bindE (get_user_quota uid s) (\<lambda>q s. redis_set_user_quota uid q s))"

text \<open>\<open>DECRBY\<close>: a missing key counts as zero, a value that is no number is an error.\<close>

definition redis_decrease_user_quota ::
  "int \<Rightarrow> int \<Rightarrow> 'a relay_world_scheme \<Rightarrow> (model_error + unit) \<times> 'a relay_world_scheme" where
  "redis_decrease_user_quota uid q s =
     bindE (stmt RedisError (\<lambda>s.
         case (case user_quota_cache s uid of None \<Rightarrow> Some 0 | Some str \<Rightarrow> atoi str) of
           None \<Rightarrow> (False, s)
         | Some v \<Rightarrow> (True, s\<lparr>user_quota_cache := (user_quota_cache s)(uid \<mapsto> itoa (v - q))\<rparr>)) s)
       (\<lambda>ok s. (if ok then Inr () else Inl RedisError, s))"

definition cache_decrease_user_quota ::
  "int \<Rightarrow> int \<Rightarrow> 'a relay_world_scheme \<Rightarrow> (model_error + unit) \<times> 'a relay_world_scheme" where
  "cache_decrease_user_quota uid q s =
     (if \<not> redis_enabled s then (Inr (), s) else redis_decrease_user_quota uid q s)"

definition sync_user_quota_cache_after_pre_consume ::
  "int \<Rightarrow> int \<Rightarrow> 'a relay_world_scheme \<Rightarrow> 'a relay_world_scheme" where
  "sync_user_quota_cache_after_pre_consume uid q s =
     (if uid \<le> 0 \<or> q \<le> 0 then s else snd (cache_decrease_user_quota uid q s))"

subsection \<open>Logs and request costs\<close>

definition insert_log :: "relay_log \<Rightarrow> 'a relay_world_scheme \<Rightarrow> (model_error + int) \<times> 'a relay_world_scheme" where
  "insert_log l = stmt DbError (\<lambda>s. (next_log_id s,
     s\<lparr>relay_logs := (relay_logs s)(next_log_id s \<mapsto> l), next_log_id := next_log_id s + 1\<rparr>))"

text \<open>\<open>GetUsernameById\<close>: one query, whose error is ignored.\<close>

definition look_up_username :: "'a relay_world_scheme \<Rightarrow> 'a relay_world_scheme" where
  "look_up_username s = snd (exec (\<lambda>s. ((), s)) s)"

definition record_consume_log_entry :: "relay_log \<Rightarrow> 'a relay_world_scheme \<Rightarrow> 'a relay_world_scheme" where
  "record_consume_log_entry l s =
     (if \<not> log_consume_enabled s then s
      else snd (insert_log (l\<lparr>log_kind := LogTypeConsume\<rparr>) (look_up_username s)))"

definition record_provisional_consume_log ::
  "relay_log \<Rightarrow> int \<Rightarrow> 'a relay_world_scheme \<Rightarrow> int \<times> 'a relay_world_scheme" where
  "record_provisional_consume_log l estimated s =
     (if estimated \<le> 0 then (0, s)
      else if \<not> log_consume_enabled s then (0, s)
      else
        (case insert_log (l\<lparr>log_kind := LogTypeProvisional, log_quota := estimated, log_provisional := True\<rparr>)
                (look_up_username s) of
           (Inl _, s) \<Rightarrow> (0, s)
         | (Inr i, s) \<Rightarrow> (i, s)))"

record reconcile_detail =
  rd_final_quota :: int
  rd_prompt_tokens :: int
  rd_completion_tokens :: int
  rd_cached_prompt_tokens :: int

definition reconcile_consume_log_detailed ::
  "int \<Rightarrow> reconcile_detail \<Rightarrow> 'a relay_world_scheme \<Rightarrow> (model_error + unit) \<times> 'a relay_world_scheme" where
  "reconcile_consume_log_detailed log_id d s =
     (if log_id \<le> 0 then (Inr (), s)
      else stmt DbError (\<lambda>s. ((), s\<lparr>relay_logs := (relay_logs s)(log_id := map_option (\<lambda>l.
             l\<lparr>log_kind := LogTypeConsume, log_quota := rd_final_quota d, log_prompt_tokens := rd_prompt_tokens d,
               log_completion_tokens := rd_completion_tokens d,
               log_cached_prompt_tokens := rd_cached_prompt_tokens d, log_provisional := False\<rparr>)
             (relay_logs s log_id))\<rparr>)) s)"

definition reconcile_consume_log ::
  "int \<Rightarrow> int \<Rightarrow> int \<Rightarrow> int \<Rightarrow> 'a relay_world_scheme \<Rightarrow> (model_error + unit) \<times> 'a relay_world_scheme" where
  "reconcile_consume_log log_id final_quota prompt completion =
     reconcile_consume_log_detailed log_id \<lparr>rd_final_quota = final_quota, rd_prompt_tokens = prompt,
       rd_completion_tokens = completion, rd_cached_prompt_tokens = 0\<rparr>"

definition set_request_cost :: "string \<Rightarrow> int \<Rightarrow> 'a relay_world_scheme \<Rightarrow> int \<times> 'a relay_world_scheme" where
  "set_request_cost rid q s =
     (case request_costs s rid of
        None \<Rightarrow> (0, s)
      | Some (uid, _) \<Rightarrow> (1, s\<lparr>request_costs := (request_costs s)(rid \<mapsto> (uid, q))\<rparr>))"

definition create_request_cost ::
  "int \<Rightarrow> string \<Rightarrow> int \<Rightarrow> 'a relay_world_scheme \<Rightarrow> bool \<times> 'a relay_world_scheme" where
  "create_request_cost uid rid q s =
     (case request_costs s rid of
        None \<Rightarrow> (True, s\<lparr>request_costs := (request_costs s)(rid \<mapsto> (uid, q))\<rparr>)
      | Some _ \<Rightarrow> (False, s))"

definition update_user_request_cost_quota_by_request_id ::
  "int \<Rightarrow> string \<Rightarrow> int \<Rightarrow> 'a relay_world_scheme \<Rightarrow> (model_error + unit) \<times> 'a relay_world_scheme" where
  "update_user_request_cost_quota_by_request_id uid rid q s =
     (if rid = [] then (Inl InvalidId, s)
      else bindE (stmt DbError (set_request_cost rid q) s) (\<lambda>affected s.
        if affected > 0 then (Inr (), s)
        else (case exec (create_request_cost uid rid q) s of
                (Inr True, s) \<Rightarrow> (Inr (), s)
              | (_, s) \<Rightarrow> bindE (stmt DbError (set_request_cost rid q) s) (\<lambda>_ s. (Inr (), s)))))"

subsection \<open>The billing entry\<close>

definition post_consume_quota_with_log ::
  "int \<Rightarrow> int \<Rightarrow> int \<Rightarrow> relay_log \<Rightarrow> int \<Rightarrow> 'a relay_world_scheme \<Rightarrow> 'a relay_world_scheme" where
  "post_consume_quota_with_log tid quota_delta total_q l prov_log_id s =
     (if tid \<le> 0 \<or> log_user_id l \<le> 0 \<or> log_channel_id l \<le> 0 \<or> log_model_name l = [] then s
      else
        let s = snd (post_consume_token_quota tid quota_delta s);
            s = snd (cache_update_user_quota (log_user_id l) s);
            l = l\<lparr>log_quota := total_q\<rparr>;
            s = (if prov_log_id > 0
                 then (case reconcile_consume_log_detailed prov_log_id
                         \<lparr>rd_final_quota = total_q, rd_prompt_tokens = log_prompt_tokens l,
                          rd_completion_tokens = log_completion_tokens l,
                          rd_cached_prompt_tokens = log_cached_prompt_tokens l\<rparr> s of
                         (Inl _, s) \<Rightarrow> record_consume_log_entry l s
                       | (Inr _, s) \<Rightarrow> s)
                 else record_consume_log_entry l s) in
        if total_q > 0
        then update_channel_used_quota (log_channel_id l) total_q
               (update_user_used_quota_and_request_count (log_user_id l) total_q s)
        else s)"

record consume_detail =
  cd_token_id :: int
  cd_quota_delta :: int
  cd_total_quota :: int
  cd_user_id :: int
  cd_channel_id :: int
  cd_prompt_tokens :: int
  cd_completion_tokens :: int
  cd_model_name :: string
  cd_is_stream :: bool
  cd_cached_prompt_tokens :: int
  cd_request_id :: string
  cd_provisional_log_id :: int

definition post_consume_quota_detailed :: "consume_detail \<Rightarrow> 'a relay_world_scheme \<Rightarrow> 'a relay_world_scheme" where
  "post_consume_quota_detailed d s =
     (if cd_token_id d \<le> 0 \<or> cd_user_id d \<le> 0 \<or> cd_channel_id d \<le> 0 \<or>
         cd_prompt_tokens d < 0 \<or> cd_completion_tokens d < 0 \<or> cd_model_name d = [] then s
      else post_consume_quota_with_log (cd_token_id d) (cd_quota_delta d) (cd_total_quota d)
        \<lparr>log_user_id = cd_user_id d, log_channel_id = cd_channel_id d, log_model_name = cd_model_name d,
         log_request_id = cd_request_id d, log_is_stream = cd_is_stream d, log_kind = LogTypeConsume,
         log_quota = 0, log_prompt_tokens = cd_prompt_tokens d,
         log_completion_tokens = cd_completion_tokens d,
         log_cached_prompt_tokens = cd_cached_prompt_tokens d, log_provisional = False\<rparr>
        (cd_provisional_log_id d) s)"

subsection \<open>Refunds\<close>

text \<open>What the billing code keeps in the context of a request; it outlives a retry on another channel.\<close>

record gin_context =
  possibly_forwarded :: bool
  billing_reconciled :: bool
  pre_consumed_amount :: "int option"
  provisional_log_id :: int

definition should_skip_pre_consumed_refund :: "gin_context \<Rightarrow> bool" where
  "should_skip_pre_consumed_refund c = possibly_forwarded c"

definition mark_pre_consumed :: "int \<Rightarrow> gin_context \<Rightarrow> gin_context" where
  "mark_pre_consumed amount c = c\<lparr>pre_consumed_amount := Some amount\<rparr>"

definition mark_billing_reconciled :: "gin_context \<Rightarrow> gin_context" where
  "mark_billing_reconciled c = c\<lparr>billing_reconciled := True\<rparr>"

definition return_pre_consumed_quota_conservative ::
  "int \<Rightarrow> int \<Rightarrow> gin_context \<times> 'a relay_world_scheme \<Rightarrow> bool \<times> gin_context \<times> 'a relay_world_scheme" where
  "return_pre_consumed_quota_conservative pre tid cs =
     (case cs of (c, s) \<Rightarrow>
      if pre \<le> 0 then (False, c, s)
      else if should_skip_pre_consumed_refund c then (False, mark_billing_reconciled c, s)
      else
        let s = (if provisional_log_id c > 0
                 then snd (reconcile_consume_log (provisional_log_id c) 0 0 0 s) else s) in
        (True, mark_billing_reconciled c, return_pre_consumed_quota pre tid s))"

definition billing_audit_safety_net ::
  "int \<Rightarrow> gin_context \<Rightarrow> 'a relay_world_scheme \<Rightarrow> 'a relay_world_scheme" where
  "billing_audit_safety_net tid c s =
     (if billing_reconciled c then s
      else (case pre_consumed_amount c of
              None \<Rightarrow> s
            | Some pre \<Rightarrow>
                if pre \<le> 0 then s
                else if should_skip_pre_consumed_refund c then s
                else return_pre_consumed_quota pre tid s))"

subsection \<open>Steps that leave the balances alone\<close>

definition quiet :: "'a world_scheme \<Rightarrow> 'a world_scheme \<Rightarrow> bool" where
  "quiet s t \<longleftrightarrow> (calm s \<longrightarrow> calm t) \<and> redis_enabled t = redis_enabled s \<and> tokens t = tokens s \<and>
     (\<forall>k. map_option u_quota (users t k) = map_option u_quota (users s k))"

lemma quiet_refl [simp]: "quiet s s"
  by (simp add: quiet_def)

lemma quiet_trans: "quiet s t \<Longrightarrow> quiet t u \<Longrightarrow> quiet s u"
  by (simp add: quiet_def)

lemma calm_stmt: "calm s \<Longrightarrow> stmt e f s = (case f s of (r, s') \<Rightarrow> (Inr r, s'))"
  by (simp add: calm_def stmt_ok)

lemma insert_log_calm: "calm s \<Longrightarrow> insert_log l s = (Inr (next_log_id s),
    s\<lparr>relay_logs := (relay_logs s)(next_log_id s \<mapsto> l), next_log_id := next_log_id s + 1\<rparr>)"
  by (simp add: insert_log_def calm_stmt)

lemma look_up_username_calm: "calm s \<Longrightarrow> look_up_username s = s"
  by (simp add: look_up_username_def exec_calm)

lemma calm_fields [simp]:
  "calm (s\<lparr>relay_logs := l\<rparr>) = calm s" "calm (s\<lparr>next_log_id := i\<rparr>) = calm s"
  "calm (s\<lparr>request_costs := c\<rparr>) = calm s" "calm (s\<lparr>global_pricing := g\<rparr>) = calm s"
  by (simp_all add: calm_def)

lemma quiet_fields [simp]:
  "quiet s (s\<lparr>relay_logs := l\<rparr>)" "quiet s (s\<lparr>relay_logs := l, next_log_id := i\<rparr>)"
  "quiet s (s\<lparr>request_costs := c\<rparr>)" "quiet s (s\<lparr>global_pricing := g\<rparr>)"
  by (simp_all add: quiet_def)

lemma record_consume_log_quiet: "calm s \<Longrightarrow> quiet s (record_consume_log_entry l s)"
  by (simp add: record_consume_log_entry_def look_up_username_calm insert_log_calm)

lemma record_provisional_quiet: "calm s \<Longrightarrow> quiet s (snd (record_provisional_consume_log l q s))"
  by (simp add: record_provisional_consume_log_def look_up_username_calm insert_log_calm)

lemma reconcile_quiet: "calm s \<Longrightarrow> quiet s (snd (reconcile_consume_log_detailed i d s))"
  by (simp add: reconcile_consume_log_detailed_def calm_stmt)

lemma reconcile_calm_ok: "calm s \<Longrightarrow> fst (reconcile_consume_log_detailed i d s) = Inr ()"
  by (simp add: reconcile_consume_log_detailed_def calm_stmt)

lemma request_cost_calm:
  assumes c: "calm s" and r: "rid \<noteq> []"
  shows "\<exists>u. update_user_request_cost_quota_by_request_id uid rid q s =
     (Inr (), s\<lparr>request_costs := (request_costs s)(rid \<mapsto> (u, q))\<rparr>)"
proof (cases "request_costs s rid")
  case None
  then have "set_request_cost rid q s = (0, s)" "create_request_cost uid rid q s =
      (True, s\<lparr>request_costs := (request_costs s)(rid \<mapsto> (uid, q))\<rparr>)"
    by (simp_all add: set_request_cost_def create_request_cost_def)
  then show ?thesis
    by (simp add: update_user_request_cost_quota_by_request_id_def calm_stmt [OF c] exec_calm [OF c] r)
      (rule exI, rule refl)
next
  case (Some p)
  then have "set_request_cost rid q s = (1, s\<lparr>request_costs := (request_costs s)(rid \<mapsto> (fst p, q))\<rparr>)"
    by (cases p) (simp add: set_request_cost_def)
  then show ?thesis
    by (simp add: update_user_request_cost_quota_by_request_id_def calm_stmt [OF c] r) (rule exI, rule refl)
qed

lemma request_cost_quiet:
  "calm s \<Longrightarrow> quiet s (snd (update_user_request_cost_quota_by_request_id uid rid q s))"
proof (cases "rid = []")
  case True
  then show ?thesis by (simp add: update_user_request_cost_quota_by_request_id_def)
next
  case False
  assume "calm s"
  from request_cost_calm [OF this False, of uid q] show ?thesis by auto
qed

lemma aggregates_quiet:
  "calm s \<Longrightarrow> quiet s (update_user_used_quota_and_request_count uid q s)"
  "calm s \<Longrightarrow> quiet s (update_channel_used_quota cid q s)"
  by (auto simp: update_user_used_quota_and_request_count_def update_channel_used_quota_def
      update_user_used_quota_and_request_count_now_def update_channel_used_quota_now_def exec_calm
      quiet_def calm_def split: option.split)

lemma quiet_calm: "quiet s t \<Longrightarrow> calm s \<Longrightarrow> calm t"
  by (simp add: quiet_def)

text \<open>Without Redis the cached balance is the one in the database.\<close>

lemma cache_off [simp]:
  "\<not> redis_enabled s \<Longrightarrow> cache_get_user_quota uid s = get_user_quota uid s"
  "\<not> redis_enabled s \<Longrightarrow> cache_update_user_quota uid s = (Inr (), s)"
  "\<not> redis_enabled s \<Longrightarrow> cache_decrease_user_quota uid q s = (Inr (), s)"
  "\<not> redis_enabled s \<Longrightarrow> sync_user_quota_cache_after_pre_consume uid q s = s"
  by (simp_all add: cache_get_user_quota_def cache_update_user_quota_def cache_decrease_user_quota_def
      sync_user_quota_cache_after_pre_consume_def)

subsection \<open>What a request has paid\<close>

text \<open>
  \<open>paid s0 tid t u c s\<close>: since \<open>s0\<close>, where the token \<open>tid\<close> was \<open>t\<close> and its owner \<open>u\<close>, exactly \<open>c\<close> units
  were taken from the owner and (if limited) from the token, and no other balance changed.
\<close>

definition row_after ::
  "'a world_scheme \<Rightarrow> int \<Rightarrow> token_row \<Rightarrow> user_row \<Rightarrow> int \<Rightarrow> token_row \<Rightarrow> user_row \<Rightarrow> bool" where
  "row_after s tid t u c t' u' \<longleftrightarrow> owned s tid t' u' \<and> t_user_id t' = t_user_id t \<and>
     t_unlimited_quota t' = t_unlimited_quota t \<and> u_quota u' = u_quota u - c \<and>
     t_remain_quota t' = (if t_unlimited_quota t then t_remain_quota t else t_remain_quota t - c)"

definition paid :: "'a world_scheme \<Rightarrow> int \<Rightarrow> token_row \<Rightarrow> user_row \<Rightarrow> int \<Rightarrow> 'a world_scheme \<Rightarrow> bool" where
  "paid s0 tid t u c s \<longleftrightarrow> calm s \<and> \<not> redis_enabled s \<and> (\<exists>t' u'. row_after s tid t u c t' u') \<and>
     user_balance s = (user_balance s0)(t_user_id t \<mapsto> u_quota u - c) \<and>
     token_balance s = (if t_unlimited_quota t then token_balance s0
       else (token_balance s0)(tid \<mapsto> t_remain_quota t - c))"

lemma row_afterD:
  assumes "row_after s tid t u c t' u'"
  shows "owned s tid t' u'" "t_user_id t' = t_user_id t" "t_unlimited_quota t' = t_unlimited_quota t"
    "u_quota u' = u_quota u - c" "users s (t_user_id t) = Some u'" "tokens s tid = Some t'"
    "t_remain_quota t' = (if t_unlimited_quota t then t_remain_quota t else t_remain_quota t - c)"
  using assms by (auto simp: row_after_def owned_def)

lemma paid_calm: "paid s0 tid t u c s \<Longrightarrow> calm s \<and> \<not> redis_enabled s"
  by (simp add: paid_def)

lemma paid_start:
  assumes "calm s" and "\<not> redis_enabled s" and "owned s tid t u"
  shows "paid s tid t u 0 s"
proof -
  have "row_after s tid t u 0 t u" using assms(3) by (simp add: row_after_def)
  then show ?thesis
    using assms by (auto simp: paid_def owned_def user_balance_def token_balance_def fun_eq_iff)
qed

lemma paid_quiet:
  assumes p: "paid s0 tid t u c s" and q: "quiet s s'"
  shows "paid s0 tid t u c s'"
proof -
  have b: "user_balance s' = user_balance s" "token_balance s' = token_balance s"
    using q by (auto simp: quiet_def user_balance_def token_balance_def fun_eq_iff)
  from p obtain t' u' where r: "row_after s tid t u c t' u'" by (auto simp: paid_def)
  have "map_option u_quota (users s' (t_user_id t)) = Some (u_quota u')"
    using q by (simp add: quiet_def row_afterD(5) [OF r])
  then obtain u'' where "users s' (t_user_id t) = Some u''" "u_quota u'' = u_quota u'" by auto
  then have "row_after s' tid t u c t' u''"
    using r q by (simp add: owned_def quiet_def row_after_def)
  then show ?thesis
    using p q unfolding paid_def b by (auto simp: quiet_def)
qed

lemma same_tables_calm_quiet: "same_tables s t \<Longrightarrow> calm t \<Longrightarrow> quiet s t"
  by (simp add: same_tables_def quiet_def)

lemma charge_paid:
  assumes p: "paid s0 tid t u c s" and r: "row_after s tid t u c t' u'"
    and st: "same_tables (charge tid t' u' q s) s'" and c: "calm s'"
  shows "paid s0 tid t u (c + q) s'"
proof -
  from r have o: "owned s tid t' u'" by (simp add: row_after_def)
  obtain t3 where "owned s' tid t3 (u'\<lparr>u_quota := u_quota u' - q\<rparr>)" "t_user_id t3 = t_user_id t'"
    "t_unlimited_quota t3 = t_unlimited_quota t'"
    "t_remain_quota t3 = (if t_unlimited_quota t' then t_remain_quota t' else t_remain_quota t' - q)"
    using charge_owned [OF o st] by auto
  then have "row_after s' tid t u (c + q) t3 (u'\<lparr>u_quota := u_quota u' - q\<rparr>)"
    using r by (simp add: row_after_def)
  moreover have "\<not> redis_enabled s'" using st p by (simp add: same_tables_def charge_def paid_def)
  moreover have "user_balance s = (user_balance s0)(t_user_id t \<mapsto> u_quota u - c)"
    "token_balance s = (if t_unlimited_quota t then token_balance s0
       else (token_balance s0)(tid \<mapsto> t_remain_quota t - c))" using p by (simp_all add: paid_def)
  ultimately show ?thesis
    using charge_balances [OF o st] row_afterD(2-4,7) [OF r] c unfolding paid_def by (auto simp: algebra_simps)
qed

text \<open>Whether the owner and the token can pay \<open>q\<close> more.\<close>

definition affords :: "token_row \<Rightarrow> user_row \<Rightarrow> int \<Rightarrow> bool" where
  "affords t u q \<longleftrightarrow> q \<le> u_quota u \<and> (t_unlimited_quota t \<or> q \<le> t_remain_quota t)"

lemma paid_row:
  assumes "paid s0 tid t u c s"
  obtains t' u' where "row_after s tid t u c t' u'" and "\<And>q. affords t' u' q = affords t u (c + q)"
proof -
  from assms obtain t' u' where r: "row_after s tid t u c t' u'" by (auto simp: paid_def)
  then have "affords t' u' q = affords t u (c + q)" for q by (auto simp: affords_def row_after_def)
  with r that show ?thesis by blast
qed

lemma paid_post:
  assumes p: "paid s0 tid t u c s" and q: "q \<le> 0 \<and> in_i64 (- q) \<or> 0 < q \<and> affords t u (c + q)"
  shows "fst (post_consume_token_quota tid q s) = Inr () \<and>
    paid s0 tid t u (c + q) (snd (post_consume_token_quota tid q s))"
proof -
  obtain t' u' where r: "row_after s tid t u c t' u'" and a: "\<And>q. affords t' u' q = affords t u (c + q)"
    using paid_row [OF p] by metis
  from r have o: "owned s tid t' u'" by (simp add: row_after_def)
  note calm = paid_calm [OF p, THEN conjunct1]
  have "fst (post_consume_token_quota tid q s) = Inr () \<and>
      same_tables (charge tid t' u' q s) (snd (post_consume_token_quota tid q s)) \<and>
      calm (snd (post_consume_token_quota tid q s))"
    using q post_consume_credit_calm [OF calm o, of q] post_consume_debit_calm [OF calm o, of q] a [of q]
    by (auto simp: affords_def)
  then show ?thesis using charge_paid [OF p r] by blast
qed

text \<open>A debit the owner could pay but the token cannot is refused.\<close>

lemma paid_post_token_short:
  assumes p: "paid s0 tid t u c s" and q: "0 < q" "c + q \<le> u_quota u" "\<not> affords t u (c + q)"
  shows "\<exists>e. fst (post_consume_token_quota tid q s) = Inl e"
proof -
  from p obtain t' u' where r: "row_after s tid t u c t' u'" by (auto simp: paid_def)
  note calm = paid_calm [OF p, THEN conjunct1]
  let ?s2 = "s\<lparr>users := (users s)(t_user_id t' \<mapsto> u'\<lparr>u_quota := u_quota u' - q\<rparr>)\<rparr>"
  have t: "tokens s tid = Some t'" "tid \<noteq> 0" "\<not> t_unlimited_quota t'" "\<not> q \<le> t_remain_quota t'"
    "users s (t_user_id t') = Some u'" "q \<le> u_quota u'"
    using r q by (auto simp: row_after_def owned_def affords_def)
  have "decrease_user_quota (t_user_id t') q s = (Inr (), ?s2)"
    using q t decrease_user_quota_calm [OF calm _ t(5), of q] by simp
  moreover have "decrease_token_quota tid q ?s2 = (Inl InsufficientTokenQuota, ?s2)"
    using calm q t update_calm [of ?s2 "token_debit tid q"]
    by (simp add: decrease_token_quota_def decrease_token_quota_now_def token_debit_def calm_def)
  ultimately show ?thesis
    using q t get_token_calm [OF calm t(2,1)] by (simp add: post_consume_token_quota_def)
qed

lemma paid_user_quota:
  assumes "paid s0 tid t u c s"
  shows "get_user_quota (t_user_id t) s = (Inr (u_quota u - c), s)"
proof -
  from assms obtain t' u' where r: "row_after s tid t u c t' u'" by (auto simp: paid_def)
  with get_user_quota_calm [of s "t_user_id t" u'] paid_calm [OF assms] show ?thesis
    by (simp add: row_afterD [OF r])
qed

lemma paid_pre:
  assumes p: "paid s0 tid t u c s" and q: "0 \<le> q"
  shows "if affords t u (c + q)
    then fst (pre_consume_token_quota tid q s) = Inr () \<and>
      paid s0 tid t u (c + q) (snd (pre_consume_token_quota tid q s))
    else (\<exists>e. fst (pre_consume_token_quota tid q s) = Inl e)"
proof -
  obtain t' u' where r: "row_after s tid t u c t' u'" and a: "\<And>q. affords t' u' q = affords t u (c + q)"
    using paid_row [OF p] by metis
  from r have o: "owned s tid t' u'" by (simp add: row_after_def)
  from pre_consume_calm [OF paid_calm [OF p, THEN conjunct1] o q] a [of q]
  show ?thesis
    using charge_paid [OF p r] by (auto simp: affords_def split: if_splits)
qed

end
