(* ===== verification/StreamTracker.thy ===== *)
theory StreamTracker
  imports RelayState
begin

text \<open>
  Billing while an answer is streamed: \<open>relay/streaming/tracker.go\<close>, and the part of the stream loop of
  \<open>relay/adaptor/openai/main.go\<close> that feeds it. Times are nanoseconds; the lock of the tracker makes each
  of its operations one step.
\<close>

datatype tracker_error = QuotaExceeded | ModelError model_error

record tracker =
  tk_user_id :: int
  tk_token_id :: int
  tk_pricing :: compute_input        \<comment> \<open>the pricing fields of the parameters; \<open>in_usage\<close> is not read\<close>
  tk_prompt_tokens :: int
  tk_pre_consumed :: int
  tk_flush_interval :: int
  charged_quota :: int
  completion_sum :: int
  last_flush :: int
  final_usage :: "usage option"
  abort_err :: "tracker_error option"

definition new_quota_tracker ::
  "int \<Rightarrow> int \<Rightarrow> compute_input \<Rightarrow> int \<Rightarrow> int \<Rightarrow> int \<Rightarrow> int \<Rightarrow> tracker" where
  "new_quota_tracker uid tid pricing prompt pre interval now =
     (let interval = (if interval \<le> 0 then 3 * 10 ^ 9 else interval) in
      \<lparr>tk_user_id = uid, tk_token_id = tid, tk_pricing = pricing, tk_prompt_tokens = prompt,
       tk_pre_consumed = pre, tk_flush_interval = interval, charged_quota = 0, completion_sum = 0,
       last_flush = now - interval, final_usage = None, abort_err = None\<rparr>)"

definition current_usage :: "tracker \<Rightarrow> usage" where
  "current_usage t =
     (case final_usage t of
        Some u \<Rightarrow> u
      | None \<Rightarrow> empty_usage\<lparr>prompt_tokens := tk_prompt_tokens t, completion_tokens := completion_sum t\<rparr>)"

text \<open>\<open>quotautil.Compute\<close> on the shared price manager.\<close>

definition compute_quota ::
  "compute_input \<Rightarrow> usage \<Rightarrow> 'a relay_world_scheme \<Rightarrow> compute_result \<times> 'a relay_world_scheme" where
  "compute_quota pricing u s =
     (case compute (pricing\<lparr>in_usage := Some u\<rparr>) (global_pricing s) of
        (r, g) \<Rightarrow> (r, s\<lparr>global_pricing := g\<rparr>))"

definition compute_target_quota :: "tracker \<Rightarrow> 'a relay_world_scheme \<Rightarrow> int \<times> 'a relay_world_scheme" where
  "compute_target_quota t s =
     (case compute_quota (tk_pricing t) (current_usage t) s of
        (r, s) \<Rightarrow> (max (total_quota r - tk_pre_consumed t) 0, s))"

definition ensure_quota ::
  "tracker \<Rightarrow> int \<Rightarrow> 'a relay_world_scheme \<Rightarrow> (tracker_error + unit) \<times> 'a relay_world_scheme" where
  "ensure_quota t d s =
     (if d \<le> 0 then (Inr (), s)
      else (case cache_get_user_quota (tk_user_id t) s of
              (Inl e, s) \<Rightarrow> (Inl (ModelError e), s)
            | (Inr remaining, s) \<Rightarrow> (if remaining < d then Inl QuotaExceeded else Inr (), s)))"

definition flush ::
  "bool \<Rightarrow> int \<Rightarrow> tracker \<Rightarrow> 'a relay_world_scheme \<Rightarrow>
   (tracker_error + unit) \<times> tracker \<times> 'a relay_world_scheme" where
  "flush force now t s =
     (case abort_err t of
        Some e \<Rightarrow> (Inl e, t, s)
      | None \<Rightarrow>
          if \<not> force \<and> now - last_flush t < tk_flush_interval t then (Inr (), t, s)
          else
            (case compute_target_quota t s of (target, s) \<Rightarrow>
              let d = target - charged_quota t in
              if d \<le> 0 then (Inr (), t\<lparr>last_flush := now\<rparr>, s)
              else
                (case ensure_quota t d s of
                   (Inl e, s) \<Rightarrow> (Inl e, if e = QuotaExceeded then t\<lparr>abort_err := Some e\<rparr> else t, s)
                 | (Inr _, s) \<Rightarrow>
                (case post_consume_token_quota (tk_token_id t) d s of
                   (Inl e, s) \<Rightarrow> (Inl (ModelError e), t\<lparr>abort_err := Some (ModelError e)\<rparr>, s)
                 | (Inr _, s) \<Rightarrow>
                     (Inr (), t\<lparr>charged_quota := charged_quota t + d, last_flush := now\<rparr>,
                      snd (cache_decrease_user_quota (tk_user_id t) d s))))))"

definition record_completion_tokens ::
  "int \<Rightarrow> int \<Rightarrow> tracker \<Rightarrow> 'a relay_world_scheme \<Rightarrow>
   (tracker_error + unit) \<times> tracker \<times> 'a relay_world_scheme" where
  "record_completion_tokens n now t s =
     (if n \<le> 0 then flush False now t s
      else flush False now (t\<lparr>completion_sum := completion_sum t + n\<rparr>) s)"

definition update_final_usage :: "usage option \<Rightarrow> tracker \<Rightarrow> tracker" where
  "update_final_usage u t =
     (case u of None \<Rightarrow> t
      | Some u \<Rightarrow>
         let t = t\<lparr>final_usage := Some u\<rparr>;
             t = (if prompt_tokens u > 0 then t\<lparr>tk_prompt_tokens := prompt_tokens u\<rparr> else t) in
         t\<lparr>completion_sum := completion_tokens u\<rparr>)"

text \<open>The usage, what was charged beyond the reservation, and the error.\<close>

definition finalize ::
  "usage option \<Rightarrow> int \<Rightarrow> tracker \<Rightarrow> 'a relay_world_scheme \<Rightarrow>
   (usage \<times> int \<times> tracker_error option) \<times> tracker \<times> 'a relay_world_scheme" where
  "finalize u now t s =
     (case flush True now (update_final_usage u t) s of
        (r, t, s) \<Rightarrow>
          ((current_usage t, charged_quota t,
            (case abort_err t of Some e \<Rightarrow> Some e
             | None \<Rightarrow> (case r of Inl e \<Rightarrow> Some e | Inr _ \<Rightarrow> None))), t, s))"

subsection \<open>The stream loop\<close>

datatype stream_event = CompletionText int int | UsageChunk usage
  \<comment> \<open>tokens of a chunk of text and the time it is recorded; a chunk with the usage\<close>

text \<open>The error that broke the loop, and the last usage seen.\<close>

fun stream_loop ::
  "stream_event list \<Rightarrow> usage option \<Rightarrow> tracker \<Rightarrow> 'a relay_world_scheme \<Rightarrow>
   tracker_error option \<times> usage option \<times> tracker \<times> 'a relay_world_scheme" where
  "stream_loop [] u t s = (None, u, t, s)"
| "stream_loop (CompletionText n now # es) u t s =
     (if n > 0
      then (case record_completion_tokens n now t s of
              (Inl e, t, s) \<Rightarrow> (Some e, u, t, s)
            | (Inr _, t, s) \<Rightarrow> stream_loop es u t s)
      else stream_loop es u t s)"
| "stream_loop (UsageChunk v # es) u t s = stream_loop es (Some v) (update_final_usage (Some v) t) s"

subsection \<open>Prices\<close>

definition price :: "compute_input \<Rightarrow> usage \<Rightarrow> gpm \<Rightarrow> int" where
  "price i u g = total_quota (fst (compute (i\<lparr>in_usage := Some u\<rparr>) (ensure_initialized g)))"

definition prices_of :: "'a relay_world_scheme \<Rightarrow> gpm" where
  "prices_of s = ensure_initialized (global_pricing s)"

lemma price_idem [simp]: "price i u (ensure_initialized g) = price i u g"
  by (simp add: price_def)

lemma relay_fields_aside:
  assumes "aside s t"
  shows "global_pricing t = global_pricing s" "pre_consumed_quota_config t = pre_consumed_quota_config s"
    "relay_logs t = relay_logs s" "next_log_id t = next_log_id s" "log_consume_enabled t = log_consume_enabled s"
    "request_costs t = request_costs s"
  using assms unfolding aside_def by (cases s; cases t; simp)+

lemma prices_of_aside: "aside s t \<Longrightarrow> prices_of t = prices_of s"
  by (simp add: prices_of_def relay_fields_aside)

lemma compute_quota_spec:
  assumes "compute_quota i u s = (r, s')"
  shows "total_quota r = price i u (prices_of s)" and "prices_of s' = prices_of s" and "quiet s s'"
    and "\<exists>g. s' = s\<lparr>global_pricing := g\<rparr>"
proof -
  obtain g where c: "compute (i\<lparr>in_usage := Some u\<rparr>) (global_pricing s) = (r, g)" and s': "s' = s\<lparr>global_pricing := g\<rparr>"
    using assms by (auto simp: compute_quota_def split: prod.splits)
  from steady_D [OF steady_compute c] show "prices_of s' = prices_of s"
    by (simp add: s' prices_of_def)
  show "total_quota r = price i u (prices_of s)"
    using steady_D(2) [OF steady_compute c, of "ensure_initialized (global_pricing s)"]
    by (simp add: price_def prices_of_def)
  show "quiet s s'" by (simp add: s')
  show "\<exists>g. s' = s\<lparr>global_pricing := g\<rparr>" using s' by blast
qed

subsection \<open>The tracker and the accounts\<close>

text \<open>
  As long as the tracker has not given up on an error of the database or the token, the accounts have paid
  the reservation and what the tracker says it charged. (When the token cannot pay, the owner may already
  have been charged; that flush is not counted.)
\<close>

definition tracker_ok ::
  "'a relay_world_scheme \<Rightarrow> int \<Rightarrow> token_row \<Rightarrow> user_row \<Rightarrow> gpm \<Rightarrow> tracker \<Rightarrow> 'a relay_world_scheme \<Rightarrow> bool" where
  "tracker_ok s0 tid t u G k s \<longleftrightarrow> tk_token_id k = tid \<and> tk_user_id k = t_user_id t \<and>
     0 \<le> charged_quota k \<and> prices_of s = G \<and>
     (0 < charged_quota k \<longrightarrow> affords t u (tk_pre_consumed k + charged_quota k)) \<and>
     (abort_err k = None \<or> abort_err k = Some QuotaExceeded \<longrightarrow>
        paid s0 tid t u (tk_pre_consumed k + charged_quota k) s)"

definition same_request :: "tracker \<Rightarrow> tracker \<Rightarrow> bool" where
  "same_request k k' \<longleftrightarrow> tk_user_id k' = tk_user_id k \<and> tk_token_id k' = tk_token_id k \<and>
     tk_pricing k' = tk_pricing k \<and> tk_pre_consumed k' = tk_pre_consumed k"

definition same_usage :: "tracker \<Rightarrow> tracker \<Rightarrow> bool" where
  "same_usage k k' \<longleftrightarrow> tk_prompt_tokens k' = tk_prompt_tokens k \<and> completion_sum k' = completion_sum k \<and>
     final_usage k' = final_usage k"

lemma same_usage_current: "same_usage k k' \<Longrightarrow> current_usage k' = current_usage k"
  by (auto simp: same_usage_def current_usage_def split: option.split)

lemma ensure_quota_paid:
  assumes "paid s0 tid t u c s" and "tk_user_id k = t_user_id t" and "0 < d"
  shows "ensure_quota k d s = (if u_quota u - c < d then Inl QuotaExceeded else Inr (), s)"
  using paid_user_quota [OF assms(1)] paid_calm [OF assms(1)] assms(2,3) by (simp add: ensure_quota_def)

lemma flush_step:
  assumes ok: "tracker_ok s0 tid t u G k s" and f: "flush force now k s = (r, k', s')"
  shows "tracker_ok s0 tid t u G k' s' \<and> same_request k k' \<and> same_usage k k' \<and>
    (charged_quota k' = charged_quota k \<or> charged_quota k < charged_quota k' \<and>
       charged_quota k' = price (tk_pricing k) (current_usage k) G - tk_pre_consumed k) \<and>
    (force \<and> r = Inr () \<longrightarrow> abort_err k' = None \<and>
       charged_quota k' = max (charged_quota k) (price (tk_pricing k) (current_usage k) G - tk_pre_consumed k)) \<and>
    (abort_err k = None \<and> affords t u (max (tk_pre_consumed k + charged_quota k) (price (tk_pricing k) (current_usage k) G))
       \<longrightarrow> r = Inr () \<and> abort_err k' = None)"
proof (cases "abort_err k")
  case (Some e)
  with f ok show ?thesis by (auto simp: flush_def same_request_def same_usage_def)
next
  case None
  show ?thesis
  proof (cases "\<not> force \<and> now - last_flush k < tk_flush_interval k")
    case True
    with f ok None show ?thesis by (auto simp: flush_def same_request_def same_usage_def)
  next
    case due: False
    let ?c = "tk_pre_consumed k + charged_quota k"
    obtain res s1 where c: "compute_quota (tk_pricing k) (current_usage k) s = (res, s1)"
      by (cases "compute_quota (tk_pricing k) (current_usage k) s")
    note cq = compute_quota_spec [OF c]
    from ok None have G: "prices_of s = G" and p: "paid s0 tid t u ?c s"
      and ids: "tk_token_id k = tid" "tk_user_id k = t_user_id t" "0 \<le> charged_quota k"
        "0 < charged_quota k \<longrightarrow> affords t u ?c"
      by (auto simp: tracker_ok_def)
    let ?price = "price (tk_pricing k) (current_usage k) G"
    let ?d = "max (?price - tk_pre_consumed k) 0 - charged_quota k"
    have target: "compute_target_quota k s = (max (?price - tk_pre_consumed k) 0, s1)"
      using cq(1) by (simp add: compute_target_quota_def c G)
    have p1: "paid s0 tid t u ?c s1" using p cq(3) by (rule paid_quiet)
    show ?thesis
    proof (cases "?d \<le> 0")
      case True
      with f due None target have "r = Inr ()" "k' = k\<lparr>last_flush := now\<rparr>" "s' = s1"
        by (auto simp: flush_def Let_def split: if_splits)
      with p1 G cq(2) ids True None show ?thesis
        by (auto simp: tracker_ok_def same_request_def same_usage_def)
    next
      case pos: False
      with ids(3) have d: "?d = ?price - ?c" "0 < ?d" by auto
      note en = ensure_quota_paid [OF p1 ids(2) d(2)]
      show ?thesis
      proof (cases "u_quota u - ?c < ?d")
        case short: True
        have "(r, k', s') = (Inl QuotaExceeded, k\<lparr>abort_err := Some QuotaExceeded\<rparr>, s1)"
          using f due None target pos en short by (auto simp: flush_def Let_def split: if_splits)
        with p1 G cq(2) ids short d show ?thesis
          by (auto simp: tracker_ok_def same_request_def same_usage_def affords_def)
      next
        case enough: False
        obtain q s2 where post: "post_consume_token_quota tid ?d s1 = (q, s2)"
          by (cases "post_consume_token_quota tid ?d s1")
        have a2: "prices_of s2 = G"
          using post_consume_aside [of s1 tid ?d] post cq(2) G by (simp add: prices_of_aside)
        show ?thesis
        proof (cases q)
          case (Inl e)
          have "(r, k', s') = (Inl (ModelError e), k\<lparr>abort_err := Some (ModelError e)\<rparr>, s2)"
            using f due None target pos en enough post Inl ids(1) by (auto simp: flush_def Let_def split: if_splits)
          moreover have "\<not> affords t u (?c + ?d)"
            using paid_post [OF p1, of ?d] post Inl d(2) by auto
          ultimately show ?thesis using a2 ids d
            by (auto simp: tracker_ok_def same_request_def same_usage_def affords_def)
        next
          case (Inr x)
          have afford: "affords t u (?c + ?d)"
          proof (rule ccontr)
            assume "\<not> affords t u (?c + ?d)"
            from paid_post_token_short [OF p1 d(2) _ this] enough post Inr show False by auto
          qed
          then have p2: "paid s0 tid t u (?c + ?d) s2" using paid_post [OF p1, of ?d] d(2) post by auto
          have "(r, k', s') = (Inr (), k\<lparr>charged_quota := charged_quota k + ?d, last_flush := now\<rparr>, s2)"
            using f due None target pos en enough post Inr ids paid_calm [OF p2]
            by (auto simp: flush_def Let_def split: if_splits)
          with p2 a2 ids d None afford show ?thesis
            by (auto simp: tracker_ok_def same_request_def same_usage_def algebra_simps)
        qed
      qed
    qed
  qed
qed

subsection \<open>A whole stream\<close>

text \<open>What the tracker learns from an event, apart from any charge, and the usages it may flush.\<close>

fun observe :: "stream_event \<Rightarrow> tracker \<Rightarrow> tracker" where
  "observe (CompletionText n now) k = (if n > 0 then k\<lparr>completion_sum := completion_sum k + n\<rparr> else k)"
| "observe (UsageChunk v) k = update_final_usage (Some v) k"

fun billed_usages :: "stream_event list \<Rightarrow> tracker \<Rightarrow> usage list" where
  "billed_usages [] k = []"
| "billed_usages (CompletionText n now # es) k =
     (if n > 0 then current_usage (observe (CompletionText n now) k) # billed_usages es (observe (CompletionText n now) k)
      else billed_usages es k)"
| "billed_usages (UsageChunk v # es) k = billed_usages es (observe (UsageChunk v) k)"

lemma same_usage_refl [simp]: "same_usage k k" and same_request_refl [simp]: "same_request k k"
  by (simp_all add: same_usage_def same_request_def)

lemma same_usage_trans: "same_usage k k' \<Longrightarrow> same_usage k' k'' \<Longrightarrow> same_usage k k''"
  and same_request_trans: "same_request k k' \<Longrightarrow> same_request k' k'' \<Longrightarrow> same_request k k''"
  by (simp_all add: same_usage_def same_request_def)

lemma observe_same_usage: "same_usage k k' \<Longrightarrow> same_usage (observe e k) (observe e k')"
  by (cases e) (auto simp: same_usage_def update_final_usage_def Let_def)

lemma billed_usages_same: "same_usage k k' \<Longrightarrow> billed_usages es k' = billed_usages es k"
proof (induction es arbitrary: k k')
  case (Cons e es)
  note o = observe_same_usage [OF Cons.prems, of e]
  show ?case
    using Cons.IH [OF o] Cons.IH [OF Cons.prems] same_usage_current [OF o]
    by (cases e) (auto split: if_splits)
qed simp

lemma fold_observe_same: "same_usage k k' \<Longrightarrow> same_usage (fold observe es k) (fold observe es k')"
  by (induction es arbitrary: k k') (simp_all add: observe_same_usage)

lemma update_final_usage_keeps:
  "same_request k (update_final_usage u k)" "charged_quota (update_final_usage u k) = charged_quota k"
  "abort_err (update_final_usage u k) = abort_err k"
  "tracker_ok s0 tid t u0 G (update_final_usage u k) s = tracker_ok s0 tid t u0 G k s"
  by (auto simp: update_final_usage_def same_request_def tracker_ok_def Let_def split: option.split)

definition may_pay :: "token_row \<Rightarrow> user_row \<Rightarrow> gpm \<Rightarrow> tracker \<Rightarrow> usage list \<Rightarrow> bool" where
  "may_pay t u G k vs \<longleftrightarrow> affords t u (tk_pre_consumed k + charged_quota k) \<and>
     (\<forall>v \<in> set vs. affords t u (price (tk_pricing k) v G))"

lemma affords_max [simp]: "affords t u (max a b) \<longleftrightarrow> affords t u a \<and> affords t u b"
  by (auto simp: affords_def)

text \<open>Where a charge comes from: nothing yet, or the price of one of the usages.\<close>

definition charge_source :: "tracker \<Rightarrow> gpm \<Rightarrow> usage list \<Rightarrow> tracker \<Rightarrow> bool" where
  "charge_source k G vs k' \<longleftrightarrow> charged_quota k' = charged_quota k \<or> charged_quota k < charged_quota k' \<and>
     (\<exists>v \<in> set vs. tk_pre_consumed k + charged_quota k' = price (tk_pricing k) v G)"

lemma charge_source_trans:
  "charge_source k G vs k1 \<Longrightarrow> same_request k k1 \<Longrightarrow> charge_source k1 G ws k' \<Longrightarrow> charge_source k G (vs @ ws) k'"
  by (auto simp: charge_source_def same_request_def)

lemma may_pay_step:
  "may_pay t u G k (vs @ ws) \<Longrightarrow> charge_source k G vs k' \<Longrightarrow> same_request k k' \<Longrightarrow> may_pay t u G k' ws"
  by (auto simp: may_pay_def charge_source_def same_request_def)

lemma record_step:
  assumes ok: "tracker_ok s0 tid t u G k s" and n: "0 < n"
    and r: "record_completion_tokens n now k s = (r, k', s')"
  shows "tracker_ok s0 tid t u G k' s' \<and> same_request k k' \<and> same_usage (observe (CompletionText n now) k) k' \<and>
    charge_source k G [current_usage (observe (CompletionText n now) k)] k' \<and>
    (abort_err k = None \<and> may_pay t u G k [current_usage (observe (CompletionText n now) k)] \<longrightarrow>
       r = Inr () \<and> abort_err k' = None)"
proof -
  let ?k = "observe (CompletionText n now) k"
  have "tracker_ok s0 tid t u G ?k s" using ok n by (simp add: tracker_ok_def)
  from flush_step [OF this, of False now r k' s'] r n
  show ?thesis by (auto simp: record_completion_tokens_def same_request_def charge_source_def may_pay_def)
qed

lemma stream_loop_step:
  "tracker_ok s0 tid t u G k s \<Longrightarrow> stream_loop es v k s = (err, v', k', s') \<Longrightarrow>
   tracker_ok s0 tid t u G k' s' \<and> same_request k k' \<and> charge_source k G (billed_usages es k) k' \<and>
   (err = None \<longrightarrow> same_usage (fold observe es k) k') \<and>
   (abort_err k = None \<and> may_pay t u G k (billed_usages es k) \<longrightarrow> err = None \<and> abort_err k' = None)"
proof (induction es v k s rule: stream_loop.induct)
  case (1 v k s)
  then show ?case by (simp add: charge_source_def)
next
  case (2 n now es v k s)
  let ?e = "CompletionText n now"
  show ?case
  proof (cases "n > 0")
    case False
    with 2 show ?thesis by simp
  next
    case n: True
    obtain r k1 s1 where r: "record_completion_tokens n now k s = (r, k1, s1)"
      by (cases "record_completion_tokens n now k s")
    note st = record_step [OF "2.prems"(1) n r]
    have tail: "billed_usages es k1 = billed_usages es (observe ?e k)"
      using st by (simp add: billed_usages_same)
    have usages: "billed_usages (?e # es) k = [current_usage (observe ?e k)] @ billed_usages es k1"
      using n tail by simp
    show ?thesis
    proof (cases r)
      case (Inl x)
      with "2.prems" n r st show ?thesis
        by (auto simp: charge_source_def may_pay_def)
    next
      case (Inr x)
      have loop: "stream_loop es v k1 s1 = (err, v', k', s')" using "2.prems"(2) n r Inr by simp
      have ok1: "tracker_ok s0 tid t u G k1 s1" using st by blast
      note ih = "2.IH"(1) [OF n r [symmetric] Inr refl ok1 loop]
      have "same_usage (fold observe es (observe ?e k)) (fold observe es k1)"
        using st by (simp add: fold_observe_same)
      then have same: "err = None \<Longrightarrow> same_usage (fold observe (?e # es) k) k'"
        using ih by (auto intro: same_usage_trans)
      have src: "charge_source k G (billed_usages (?e # es) k) k'"
        unfolding usages using st ih by (blast intro: charge_source_trans)
      have req: "same_request k k'" using st ih by (blast intro: same_request_trans)
      have live: "err = None \<and> abort_err k' = None"
        if a: "abort_err k = None" and m: "may_pay t u G k (billed_usages (?e # es) k)"
      proof -
        from m have "may_pay t u G k [current_usage (observe ?e k)]" unfolding usages by (simp add: may_pay_def)
        with a st have "abort_err k1 = None" by blast
        moreover have "may_pay t u G k1 (billed_usages es k1)"
          using m st unfolding usages by (blast intro: may_pay_step)
        ultimately show ?thesis using ih by blast
      qed
      show ?thesis using ih same src req live by blast
    qed
  qed
next
  case (3 w es v k s)
  note k = update_final_usage_keeps [where k = k and u = "Some w"]
  have "tracker_ok s0 tid t u G (update_final_usage (Some w) k) s" using "3.prems"(1) unfolding update_final_usage_keeps(4) .
  from "3.IH" [OF this] "3.prems"(2) show ?case
    using k by (auto simp: charge_source_def may_pay_def same_request_def)
qed

lemma finalize_step:
  assumes ok: "tracker_ok s0 tid t u G k s" and f: "finalize v now k s = ((w, c, e), k', s')"
  shows "w = current_usage (update_final_usage v k) \<and> c = charged_quota k' \<and> tracker_ok s0 tid t u G k' s' \<and>
    same_request k k' \<and> charge_source k G [w] k' \<and>
    (e = None \<longrightarrow> abort_err k' = None) \<and>
    (abort_err k = None \<and> may_pay t u G k [w] \<longrightarrow> e = None)"
proof -
  let ?k = "update_final_usage v k"
  obtain r k1 s1 where fl: "flush True now ?k s = (r, k1, s1)" by (cases "flush True now ?k s")
  have "tracker_ok s0 tid t u G ?k s" unfolding update_final_usage_keeps(4) by (rule ok)
  note st = flush_step [OF this fl]
  have "current_usage k1 = current_usage ?k" using st same_usage_current by blast
  then have "k' = k1" "s' = s1" "w = current_usage ?k" "c = charged_quota k1"
    and e: "e = (case abort_err k1 of Some e \<Rightarrow> Some e | None \<Rightarrow> case r of Inl e \<Rightarrow> Some e | Inr _ \<Rightarrow> None)"
    using f fl by (auto simp: finalize_def)
  then show ?thesis
    using st update_final_usage_keeps(1-3) [where k = k and u = v]
    by (auto simp: charge_source_def may_pay_def same_request_def split: option.splits sum.splits)
qed

subsection \<open>Properties\<close>

lemma tracker_start:
  assumes "paid s0 tid t u P s"
  shows "tracker_ok s0 tid t u (prices_of s) (new_quota_tracker (t_user_id t) tid i prompt P interval now) s"
  using assms by (simp add: tracker_ok_def new_quota_tracker_def Let_def)

subsubsection \<open>An example\<close>

text \<open>A request of 100 prompt tokens whose answer arrives in two pieces of ten tokens.\<close>

definition rich_user :: user_row where "rich_user = example_user\<lparr>u_quota := 1000\<rparr>"

definition rich_token :: token_row where "rich_token = example_token\<lparr>t_remain_quota := 500\<rparr>"

definition example_relay :: relay_world where
  "example_relay = world.extend (example_world\<lparr>users := [1 \<mapsto> rich_user], tokens := [5 \<mapsto> rich_token]\<rparr>)
     \<lparr>user_quota_cache = Map.empty, relay_logs = Map.empty, next_log_id = 1, log_consume_enabled = True,
      request_costs = Map.empty, pre_consumed_quota_config = 500, global_pricing = new_gpm\<rparr>"

definition example_reserved :: relay_world where
  "example_reserved = snd (pre_consume_token_quota 5 30 example_relay)"

definition example_tracker :: tracker where
  "example_tracker = new_quota_tracker 1 5 (example_input 1 1 (example_usage 100 10)) 100 30 0 0"

definition example_stream :: "stream_event list" where
  "example_stream = [CompletionText 10 7, CompletionText 10 (4 * 10 ^ 9), UsageChunk (example_usage 100 20)]"

lemma example_relay_start: "calm example_relay" "\<not> redis_enabled example_relay"
  "owned example_relay 5 rich_token rich_user" "t_user_id rich_token = 1"
  by (simp_all add: calm_def owned_def example_relay_def world.defs example_world_def rich_token_def
      rich_user_def example_token_def)

lemma example_affords: "affords rich_token rich_user q \<longleftrightarrow> q \<le> 500"
  by (auto simp: affords_def rich_token_def rich_user_def example_token_def)

lemma example_reserved_paid: "paid example_relay 5 rich_token rich_user 30 example_reserved"
  using paid_pre [OF paid_start [OF example_relay_start(1-3)], of 30]
  by (simp add: example_affords example_reserved_def)

lemma example_prices: "prices_of example_reserved = ensure_initialized new_gpm"
  using prices_of_aside [OF pre_consume_aside [of example_relay 5 30]]
  by (simp add: example_reserved_def) (simp add: prices_of_def example_relay_def world.defs)

lemma example_price:
  "price (example_input 1 1 u) (example_usage 100 10) new_gpm = 120"
  "price (example_input 1 1 u) (example_usage 100 20) new_gpm = 140"
proof -
  have i: "(example_input 1 1 u)\<lparr>in_usage := Some v\<rparr> = example_input 1 1 v" for v
    by (simp add: example_input_def)
  show "price (example_input 1 1 u) (example_usage 100 10) new_gpm = 120"
    "price (example_input 1 1 u) (example_usage 100 20) new_gpm = 140"
    using steady_D(2) [OF steady_compute example_compute(1), of "ensure_initialized new_gpm"]
      steady_D(2) [OF steady_compute example_compute(2), of "ensure_initialized new_gpm"]
    by (simp_all add: price_def i example_result_def)
qed

lemma example_usages: "billed_usages example_stream example_tracker = [example_usage 100 10, example_usage 100 20]"
  by (simp add: example_stream_def example_tracker_def new_quota_tracker_def Let_def current_usage_def
      empty_usage_def example_usage_def)

lemma example_may_pay: "may_pay rich_token rich_user (ensure_initialized new_gpm) example_tracker
  [example_usage 100 10, example_usage 100 20]"
  by (simp add: may_pay_def example_affords)
    (simp add: example_tracker_def new_quota_tracker_def Let_def example_price)

subsubsection \<open>Charges and cut-offs\<close>

text \<open>
  C20. While an answer is streamed, however its text is cut into chunks and whenever the flushes happen: unless
  the database or the token fails, the accounts have paid exactly the reservation plus what the tracker
  counts, and that is either the reservation alone or the price of a usage the stream has reached. So nobody
  is charged for text that was not produced, and nothing is charged twice.
\<close>

theorem stream_charges_reached_usage:
  assumes p: "paid s0 tid t u P s"
    and k: "k = new_quota_tracker (t_user_id t) tid i prompt P interval now"
    and l: "stream_loop es None k s = (err, v, k', s')"
    and e: "abort_err k' = None \<or> abort_err k' = Some QuotaExceeded"
  shows "paid s0 tid t u (P + charged_quota k') s' \<and>
    (charged_quota k' = 0 \<or> (\<exists>w \<in> set (billed_usages es k). P + charged_quota k' = price i w (prices_of s)))"
proof -
  have f: "tk_pre_consumed k = P" "charged_quota k = 0" "tk_pricing k = i"
    by (simp_all add: k new_quota_tracker_def Let_def)
  from stream_loop_step [OF tracker_start [OF p, of i prompt interval now, folded k] l] e
  show ?thesis by (auto simp: tracker_ok_def charge_source_def same_request_def f)
qed

lemma stream_charges_reached_usage_witness:
  "case stream_loop example_stream None example_tracker example_reserved of (err, v, k', s') \<Rightarrow>
     paid example_relay 5 rich_token rich_user (30 + charged_quota k') s' \<and>
     (charged_quota k' = 0 \<or> 30 + charged_quota k' \<in> {120, 140})"
proof -
  obtain err v k' s' where l: "stream_loop example_stream None example_tracker example_reserved = (err, v, k', s')"
    by (cases "stream_loop example_stream None example_tracker example_reserved")
  have k: "example_tracker = new_quota_tracker (t_user_id rich_token) 5
      (example_input 1 1 (example_usage 100 10)) 100 30 0 0"
    by (simp add: example_tracker_def example_relay_start)
  have "abort_err k' = None"
    using stream_loop_step [OF tracker_start [OF example_reserved_paid, of "example_input 1 1 (example_usage 100 10)" 100 0 0, folded k] l] example_may_pay
    by (simp add: example_usages example_prices) (simp add: example_tracker_def new_quota_tracker_def Let_def)
  then show ?thesis
    using stream_charges_reached_usage [OF example_reserved_paid k l]
    by (auto simp: l example_usages example_prices example_price)
qed

text \<open>
  C21. A stream whose every partial price the owner and the token can pay is never cut off for billing, and
  neither is its finalization, whatever usage that reports.
\<close>

theorem stream_not_cut_off:
  assumes p: "paid s0 tid t u P s"
    and k: "k = new_quota_tracker (t_user_id t) tid i prompt P interval now"
    and l: "stream_loop es None k s = (err, v, k', s')"
    and f: "finalize reported later k' s' = ((w, c, e), k'', s'')"
    and a: "affords t u P" "\<forall>w \<in> set (billed_usages es k). affords t u (price i w (prices_of s))"
      "affords t u (price i w (prices_of s))"
  shows "err = None \<and> e = None"
proof -
  have c: "tk_pre_consumed k = P" "charged_quota k = 0" "tk_pricing k = i" "abort_err k = None"
    by (simp_all add: k new_quota_tracker_def Let_def)
  note st = stream_loop_step [OF tracker_start [OF p, of i prompt interval now, folded k] l]
  have m: "may_pay t u (prices_of s) k (billed_usages es k @ [w])"
    using a by (simp add: may_pay_def c)
  then have "may_pay t u (prices_of s) k (billed_usages es k)" by (simp add: may_pay_def)
  with st c have "err = None" "abort_err k' = None" by blast+
  moreover have "may_pay t u (prices_of s) k' [w]" using m st by (blast intro: may_pay_step)
  ultimately show ?thesis using finalize_step [OF _ f] st by blast
qed

lemma stream_not_cut_off_witness:
  "case stream_loop example_stream None example_tracker example_reserved of (err, v, k', s') \<Rightarrow>
     err = None \<and> snd (snd (fst (finalize (Some (example_usage 100 20)) 8 k' s'))) = None"
proof -
  obtain err v k' s' where l: "stream_loop example_stream None example_tracker example_reserved = (err, v, k', s')"
    by (cases "stream_loop example_stream None example_tracker example_reserved")
  obtain w c e k'' s'' where f: "finalize (Some (example_usage 100 20)) 8 k' s' = ((w, c, e), k'', s'')"
    by (cases "finalize (Some (example_usage 100 20)) 8 k' s'") auto
  have k: "example_tracker = new_quota_tracker (t_user_id rich_token) 5
      (example_input 1 1 (example_usage 100 10)) 100 30 0 0"
    by (simp add: example_tracker_def example_relay_start)
  have "tracker_ok example_relay 5 rich_token rich_user (prices_of example_reserved) k' s'"
    using stream_loop_step [OF tracker_start [OF example_reserved_paid, of "example_input 1 1 (example_usage 100 10)"
      100 0 0, folded k] l] by blast
  then have "w = example_usage 100 20"
    using finalize_step [OF _ f] by (simp add: current_usage_def update_final_usage_def example_usage_def)
  then show ?thesis
    using stream_not_cut_off [OF example_reserved_paid k l f]
    by (simp add: l f example_usages example_prices example_price example_affords)
qed

end
