(* ===== verification/RelayBilling.thy ===== *)
theory RelayBilling
  imports StreamTracker
begin

text \<open>
  The billing of a text request: \<open>RelayTextHelper\<close> of \<open>relay/controller/text.go\<close> with the functions it uses of
  \<open>helper.go\<close> and \<open>billing_safety.go\<close>, and \<open>DoRequestHelper\<close> of \<open>relay/adaptor/common.go\<close>. It composes the
  price lookups, the tool policy, the accounts, the tracker, the media and tool charges and the logs.

  What the client and the upstream service do is a parameter: the parsed request with its token count (the
  tokenizer is a third-party package), and a record \<open>upstream\<close> with the outcome of each call. The goroutines
  of \<open>graceful.GoCritical\<close> that refund and settle run to their end before the deferred
  \<open>billingAuditSafetyNet\<close>. Tools of MCP servers (a registry that is not nil) and the billing timeout, which
  only logs, are left out.
\<close>

subsection \<open>Requests\<close>

record relay_meta =
  m_user_id :: int
  m_token_id :: int
  m_channel_id :: int
  m_channel_type :: int
  m_api_known :: bool                         \<comment> \<open>\<open>relay.GetAdaptor(meta.APIType)\<close> finds an adaptor\<close>
  m_embeddings :: bool                        \<comment> \<open>\<open>meta.Mode\<close> is \<open>relaymode.Embeddings\<close>\<close>
  m_prices :: "price_table option"            \<comment> \<open>\<open>ModelConfigs\<close> of the channel in the context\<close>
  m_tooling :: "tooling_config option"
  m_pricing_adaptor :: "provider option"
  m_provider_tooling :: "tooling_config option"
  m_group_ratio :: rat                        \<comment> \<open>\<open>ctxkey.ChannelRatio\<close>\<close>
  m_token_quota :: int                        \<comment> \<open>\<open>ctxkey.TokenQuota\<close>, \<open>ctxkey.TokenQuotaUnlimited\<close>\<close>
  m_token_quota_unlimited :: bool
  m_request_id :: string
  m_flush_interval :: int
  m_start :: int                              \<comment> \<open>when the tracker is made\<close>

record text_request =
  tr_model :: string
  tr_stream :: bool
  tr_max_completion_tokens :: "int option"
  tr_max_tokens :: int
  tr_tool_types :: "string list"
  tr_web_search :: bool
  tr_prompt_usage :: "usage option"           \<comment> \<open>\<open>estimatePromptUsage\<close>; \<open>None\<close> is its error\<close>

datatype relay_error =
    InvalidApiType | ToolNotAllowed string | PromptUsageFailed
  | GetUserQuotaFailed model_error | InsufficientUserQuota | PreConsumeFailed model_error
  | ConvertRequestFailed | DoRequestFailed | UpstreamHttpError "int option" | DoResponseFailed int
  | StreamingBillingFailed

datatype transport = HelperTransport | OwnTransport
  \<comment> \<open>the adaptor sends through \<open>DoRequestHelper\<close>, or with a client of its own (AWS, Xunfei)\<close>

record http_response =
  status_code :: int
  json_content :: bool

record upstream =
  up_convert_ok :: bool
  up_transport :: transport
  up_setup_ok :: bool                         \<comment> \<open>URL, request and headers could be built\<close>
  up_send :: "unit + http_response option"
  up_events :: "stream_event list"
  up_usage :: "usage option"
  up_answer_error :: "int option"             \<comment> \<open>status of the error of \<open>DoResponse\<close>\<close>
  up_end :: int                               \<comment> \<open>when the tracker is finalized\<close>
  up_outputs :: output_counts
  up_tool_counts :: "(string, int) gomap"
  up_web_searches :: "int option"

definition channel_type_azure :: int where "channel_type_azure = 3"

definition channel_type_aws_claude :: int where "channel_type_aws_claude = 33"

definition channel_type_deepl :: int where "channel_type_deepl = 39"

definition channel_type_replicate :: int where "channel_type_replicate = 47"

subsection \<open>Sending\<close>

definition do_request_helper ::
  "upstream \<Rightarrow> gin_context \<Rightarrow> (unit + http_response option) \<times> gin_context" where
  "do_request_helper up c =
     (if \<not> up_setup_ok up then (Inl (), c)
      else (case up_send up of Inr (Some r) \<Rightarrow> Inr (Some r) | _ \<Rightarrow> Inl (), c\<lparr>possibly_forwarded := True\<rparr>))"

definition do_request :: "upstream \<Rightarrow> gin_context \<Rightarrow> (unit + http_response option) \<times> gin_context" where
  "do_request up c =
     (case up_transport up of HelperTransport \<Rightarrow> do_request_helper up c | OwnTransport \<Rightarrow> (up_send up, c))"

definition is_error_happened :: "relay_meta \<Rightarrow> bool \<Rightarrow> http_response option \<Rightarrow> bool" where
  "is_error_happened m stream resp =
     (case resp of
        None \<Rightarrow> m_channel_type m \<noteq> channel_type_aws_claude
      | Some r \<Rightarrow>
          if status_code r \<noteq> 200 \<and> status_code r \<noteq> 201 then True
          else if m_channel_type m = channel_type_deepl then False
          else stream \<and> json_content r \<and> m_channel_type m \<noteq> channel_type_replicate)"

subsection \<open>Reserving\<close>

text \<open>\<open>int64(f)\<close>: towards zero; out of range it is what amd64 gives.\<close>

definition int64_of_float :: "rat \<Rightarrow> int" where
  "int64_of_float r =
     (let n = (if r < 0 then \<lceil>r\<rceil> else \<lfloor>r\<rfloor>) in if in_i64 n then n else - (2 ^ 63))"

definition get_pre_consumed_quota :: "int \<Rightarrow> text_request \<Rightarrow> int \<Rightarrow> rat \<Rightarrow> rat \<Rightarrow> int" where
  "get_pre_consumed_quota config r prompt ratio completion_ratio =
     (let prompt_quota = fmul (of_go_int (i64 (config + prompt))) ratio;
          tokens = (case tr_max_completion_tokens r of
                      Some n \<Rightarrow> if n > 0 then n else tr_max_tokens r
                    | None \<Rightarrow> tr_max_tokens r);
          completion_quota = (if tokens \<noteq> 0 then fmul (fmul (of_go_int tokens) ratio) completion_ratio else 0) in
      int64_of_float (fadd prompt_quota completion_quota))"

text \<open>The pricing arguments that the functions hand on: those of \<open>Compute\<close>, and the completion ratio.\<close>

definition estimate_pre_consumed_quota ::
  "relay_meta \<Rightarrow> text_request \<Rightarrow> usage \<Rightarrow> compute_input \<Rightarrow> rat \<Rightarrow> 'a relay_world_scheme \<Rightarrow>
   int \<times> 'a relay_world_scheme" where
  "estimate_pre_consumed_quota m r prompt prices completion_ratio s =
     (if m_embeddings m then
        (case compute_quota prices prompt s of
           (res, s) \<Rightarrow>
             (total_quota res + int64_of_float (fmul (fmul (of_go_int (pre_consumed_quota_config s))
                (in_model_ratio prices)) (in_group_ratio prices)), s))
      else
        (get_pre_consumed_quota (pre_consumed_quota_config s) r (prompt_tokens prompt)
           (fmul (in_model_ratio prices) (in_group_ratio prices)) completion_ratio, s))"

definition pre_consume_quota ::
  "relay_meta \<Rightarrow> text_request \<Rightarrow> usage \<Rightarrow> compute_input \<Rightarrow> rat \<Rightarrow> 'a relay_world_scheme \<Rightarrow>
   (relay_error + int) \<times> 'a relay_world_scheme" where
  "pre_consume_quota m r prompt prices completion_ratio s =
     (case estimate_pre_consumed_quota m r prompt prices completion_ratio s of (pre, s) \<Rightarrow>
      (case cache_get_user_quota (m_user_id m) s of
         (Inl e, s) \<Rightarrow> (Inl (GetUserQuotaFailed e), s)
       | (Inr user_quota, s) \<Rightarrow>
           if i64 (user_quota - pre) < 0 then (Inl InsufficientUserQuota, s)
           else
             let pre = (if user_quota > i64 (100 * pre) \<and>
                           (m_token_quota_unlimited m \<or> m_token_quota m > i64 (100 * pre)) then 0 else pre) in
             if pre > 0
             then (case pre_consume_token_quota (m_token_id m) pre s of
                     (Inl e, s) \<Rightarrow> (Inl (PreConsumeFailed e), s)
                   | (Inr _, s) \<Rightarrow> (Inr pre, sync_user_quota_cache_after_pre_consume (m_user_id m) pre s))
             else (Inr pre, s)))"

definition record_provisional_log ::
  "relay_meta \<Rightarrow> text_request \<Rightarrow> int \<Rightarrow> 'a relay_world_scheme \<Rightarrow> int \<times> 'a relay_world_scheme" where
  "record_provisional_log m r estimated s =
     (if estimated \<le> 0 then (0, s)
      else record_provisional_consume_log
        \<lparr>log_user_id = m_user_id m, log_channel_id = m_channel_id m, log_model_name = tr_model r,
         log_request_id = m_request_id m, log_is_stream = tr_stream r, log_kind = LogTypeConsume, log_quota = 0,
         log_prompt_tokens = 0, log_completion_tokens = 0, log_cached_prompt_tokens = 0,
         log_provisional = False\<rparr> estimated s)"

subsection \<open>Settling\<close>

definition post_consume_quota ::
  "relay_meta \<Rightarrow> text_request \<Rightarrow> compute_input \<Rightarrow> usage option \<Rightarrow> int \<Rightarrow> int \<Rightarrow> int \<Rightarrow>
   'a relay_world_scheme \<Rightarrow> int \<times> 'a relay_world_scheme" where
  "post_consume_quota m r prices u pre charged log_id s =
     (case u of
        None \<Rightarrow> (0, s)
      | Some v \<Rightarrow>
          if prompt_tokens v = 0 \<and> completion_tokens v = 0 \<and> pre > 0 then (pre, s)
          else
            (case compute_quota prices (the (apply_deepseek_cache_usage (Some v))) s of (res, s) \<Rightarrow>
             let quota = (if r_prompt_tokens res + r_completion_tokens res = 0 then 0 else total_quota res) in
             (quota,
              if m_token_id m > 0 \<and> m_user_id m > 0 \<and> m_channel_id m > 0
              then post_consume_quota_detailed
                     \<lparr>cd_token_id = m_token_id m, cd_quota_delta = quota - pre - charged, cd_total_quota = quota,
                      cd_user_id = m_user_id m, cd_channel_id = m_channel_id m,
                      cd_prompt_tokens = r_prompt_tokens res, cd_completion_tokens = r_completion_tokens res,
                      cd_model_name = tr_model r, cd_is_stream = tr_stream r,
                      cd_cached_prompt_tokens = cached_prompt_tokens res, cd_request_id = m_request_id m,
                      cd_provisional_log_id = log_id\<rparr> s
              else s)))"

definition record_request_cost ::
  "relay_meta \<Rightarrow> int \<Rightarrow> 'a relay_world_scheme \<Rightarrow> 'a relay_world_scheme" where
  "record_request_cost m q s =
     (if m_request_id m = [] then s
      else snd (update_user_request_cost_quota_by_request_id (m_user_id m) (m_request_id m) q s))"

definition output_context :: "relay_meta \<Rightarrow> compute_input \<Rightarrow> int \<Rightarrow> output_billing_context" where
  "output_context m prices prompt =
     \<lparr>ob_channel_model_ratio = in_channel_model_ratio prices,
      ob_channel_model_configs = in_channel_model_configs prices,
      ob_pricing_adaptor = m_pricing_adaptor m, ob_group_ratio = m_group_ratio m,
      ob_model_name = in_model_name prices, ob_prompt_tokens = prompt\<rparr>"

text \<open>The charges for media and tools, in the order of the handler.\<close>

definition add_output_charges ::
  "relay_meta \<Rightarrow> compute_input \<Rightarrow> int \<Rightarrow> upstream \<Rightarrow> usage option \<Rightarrow> gpm \<Rightarrow> usage option \<times> gpm" where
  "add_output_charges m prices prompt up u g =
     (case apply_output_charges (output_context m prices prompt) (up_outputs up) (u, g) of (u, g) \<Rightarrow>
        (fst (apply_builtin_tool_charges (m_tooling m) (m_provider_tooling m) (up_tool_counts up)
                (up_web_searches up) u), g))"

definition text_settle ::
  "relay_meta \<Rightarrow> text_request \<Rightarrow> compute_input \<Rightarrow> int \<Rightarrow> int \<Rightarrow> upstream \<Rightarrow> usage option \<Rightarrow> int \<Rightarrow>
   gin_context \<times> 'a relay_world_scheme \<Rightarrow> relay_error option \<times> gin_context \<times> 'a relay_world_scheme" where
  "text_settle m r prices prompt pre up u charged cs =
     (case cs of (c, s) \<Rightarrow>
      case add_output_charges m prices prompt up u (global_pricing s) of (u, g) \<Rightarrow>
      case return_pre_consumed_quota_conservative pre (m_token_id m) (c, s\<lparr>global_pricing := g\<rparr>) of (_, c, s) \<Rightarrow>
      case post_consume_quota m r prices u pre charged (provisional_log_id c) s of (q, s) \<Rightarrow>
        (None, mark_billing_reconciled c, record_request_cost m q s))"

subsection \<open>The handler\<close>

text \<open>Lines 325 to 356: the answer is passed on, charged while it is streamed, and the tracker closed.\<close>

definition text_answer ::
  "relay_meta \<Rightarrow> text_request \<Rightarrow> compute_input \<Rightarrow> int \<Rightarrow> int \<Rightarrow> tracker option \<Rightarrow> upstream \<Rightarrow>
   gin_context \<times> 'a relay_world_scheme \<Rightarrow> relay_error option \<times> gin_context \<times> 'a relay_world_scheme" where
  "text_answer m r prices prompt pre k up cs =
     (case cs of (c, s) \<Rightarrow>
      let refund = (\<lambda>e s. case return_pre_consumed_quota_conservative pre (m_token_id m) (c, s) of
                      (_, c, s) \<Rightarrow> (Some e, c, s)) in
      case (case k of None \<Rightarrow> (None, s)
            | Some k \<Rightarrow> (case stream_loop (up_events up) None k s of (_, _, k, s) \<Rightarrow> (Some k, s))) of
        (k, s) \<Rightarrow>
      (case (up_answer_error up, up_usage up) of
         (Some status, None) \<Rightarrow> refund (DoResponseFailed status) s
       | _ \<Rightarrow>
          (case k of
             None \<Rightarrow> text_settle m r prices prompt pre up (up_usage up) 0 (c, s)
           | Some k \<Rightarrow>
               (case finalize (up_usage up) (up_end up) k s of
                  ((u, charged, None), k, s) \<Rightarrow> text_settle m r prices prompt pre up (Some u) charged (c, s)
                | ((_, _, Some e), k, s) \<Rightarrow>
                    refund (if e = QuotaExceeded then InsufficientUserQuota else StreamingBillingFailed) s))))"

text \<open>Lines 280 to 323.\<close>

definition text_exchange ::
  "relay_meta \<Rightarrow> text_request \<Rightarrow> usage \<Rightarrow> compute_input \<Rightarrow> rat \<Rightarrow> int \<Rightarrow> tracker option \<Rightarrow> upstream \<Rightarrow>
   gin_context \<times> 'a relay_world_scheme \<Rightarrow> relay_error option \<times> gin_context \<times> 'a relay_world_scheme" where
  "text_exchange m r prompt prices completion_ratio pre k up cs =
     (case cs of (c, s) \<Rightarrow>
      if \<not> up_convert_ok up then (Some ConvertRequestFailed, c, s)
      else
        (case do_request up c of
           (Inl _, c) \<Rightarrow> (Some DoRequestFailed, c, s)
         | (Inr resp, c) \<Rightarrow>
             (case estimate_pre_consumed_quota m r prompt prices completion_ratio s of (estimated, s) \<Rightarrow>
              let s = record_request_cost m estimated s in
              if is_error_happened m (tr_stream r) resp
              then
                (case return_pre_consumed_quota_conservative pre (m_token_id m) (c, s) of (_, c, s) \<Rightarrow>
                   (Some (UpstreamHttpError (map_option status_code resp)), c,
                    snd (update_user_request_cost_quota_by_request_id (m_user_id m) (m_request_id m) 0 s)))
              else text_answer m r prices (prompt_tokens prompt) pre k up (c, s))))"

definition text_prices ::
  "relay_meta \<Rightarrow> text_request \<Rightarrow> gpm \<Rightarrow> (compute_input \<times> rat) \<times> gpm" where
  "text_prices m r g =
     (let model_ratios = get_model_ratio_from_configs (m_prices m);
          completion_ratios = get_completion_ratio_from_configs (m_prices m) in
      case get_model_ratio_with_three_layers (tr_model r) model_ratios (m_pricing_adaptor m) g of
        (model_ratio, g) \<Rightarrow>
      case get_completion_ratio_with_three_layers (tr_model r) completion_ratios (m_pricing_adaptor m) g of
        (completion_ratio, g) \<Rightarrow>
          ((\<lparr>in_usage = None, in_model_name = tr_model r, in_model_ratio = model_ratio,
             in_channel_model_ratio = model_ratios, in_group_ratio = m_group_ratio m,
             in_channel_model_configs = get_model_price_configs (m_prices m),
             in_channel_completion_ratio = completion_ratios, in_pricing_adaptor = m_pricing_adaptor m\<rparr>,
            completion_ratio), g))"

text \<open>Lines 81 to 129: the prompt usage, the prices and the reservation, or the error.\<close>

definition text_admission ::
  "relay_meta \<Rightarrow> text_request \<Rightarrow> 'a relay_world_scheme \<Rightarrow>
   (relay_error + usage \<times> compute_input \<times> rat \<times> int) \<times> 'a relay_world_scheme" where
  "text_admission m r s =
     (if \<not> m_api_known m then (Inl InvalidApiType, s)
      else
        (case text_prices m r (global_pricing s) of ((prices, completion_ratio), g) \<Rightarrow>
         let s = s\<lparr>global_pricing := g\<rparr> in
         case validate_chat_builtin_tools (m_tooling m) (m_provider_tooling m)
                (m_channel_type m = channel_type_azure) (tr_tool_types r) (tr_web_search r) of
           Some tool \<Rightarrow> (Inl (ToolNotAllowed tool), s)
         | None \<Rightarrow>
        (case tr_prompt_usage r of
           None \<Rightarrow> (Inl PromptUsageFailed, s)
         | Some prompt \<Rightarrow>
        (case pre_consume_quota m r prompt prices completion_ratio s of
           (Inl e, s) \<Rightarrow> (Inl e, s)
         | (Inr pre, s) \<Rightarrow> (Inr (prompt, prices, completion_ratio, pre), s)))))"

definition relay_text_helper ::
  "relay_meta \<Rightarrow> text_request \<Rightarrow> upstream \<Rightarrow> gin_context \<times> 'a relay_world_scheme \<Rightarrow>
   relay_error option \<times> gin_context \<times> 'a relay_world_scheme" where
  "relay_text_helper m r up cs =
     (case cs of (c, s) \<Rightarrow>
      (case text_admission m r s of
         (Inl e, s) \<Rightarrow> (Some e, c, s)
       | (Inr (prompt, prices, completion_ratio, pre), s) \<Rightarrow>
           let c = mark_pre_consumed pre c in
           (case record_provisional_log m r pre s of (log_id, s) \<Rightarrow>
            let c = c\<lparr>provisional_log_id := log_id\<rparr>;
                k = (if tr_stream r
                     then Some (new_quota_tracker (m_user_id m) (m_token_id m) prices (prompt_tokens prompt) pre
                            (m_flush_interval m) (m_start m))
                     else None) in
            case text_exchange m r prompt prices completion_ratio pre k up (c, s) of (err, c, s) \<Rightarrow>
              (err, c, billing_audit_safety_net (m_token_id m) c s))))"

subsection \<open>Steps of a request\<close>

text \<open>What a request has paid so far, and the prices it will meet.\<close>

definition stands ::
  "'a relay_world_scheme \<Rightarrow> int \<Rightarrow> token_row \<Rightarrow> user_row \<Rightarrow> int \<Rightarrow> gpm \<Rightarrow> 'a relay_world_scheme \<Rightarrow> bool" where
  "stands s0 tid t u c G s \<longleftrightarrow> paid s0 tid t u c s \<and> prices_of s = G"

lemma stands_quiet: "stands s0 tid t u c G s \<Longrightarrow> quiet s s' \<Longrightarrow> prices_of s' = prices_of s \<Longrightarrow> stands s0 tid t u c G s'"
  by (auto simp: stands_def intro: paid_quiet)

lemma stands_calm: "stands s0 tid t u c G s \<Longrightarrow> calm s \<and> \<not> redis_enabled s"
  unfolding stands_def using paid_calm by blast

lemma prices_of_fields [simp]:
  "prices_of (s\<lparr>relay_logs := l\<rparr>) = prices_of s" "prices_of (s\<lparr>next_log_id := i\<rparr>) = prices_of s"
  "prices_of (s\<lparr>request_costs := c\<rparr>) = prices_of s"
  by (simp_all add: prices_of_def)

lemma stands_compute:
  assumes "stands s0 tid t u c G s" and "compute_quota i v s = (r, s')"
  shows "stands s0 tid t u c G s' \<and> total_quota r = price i v G"
  using compute_quota_spec [OF assms(2)] assms(1) by (auto simp: stands_def intro: paid_quiet)

lemma stands_estimate:
  assumes "stands s0 tid t u c G s" and "estimate_pre_consumed_quota m r v i cr s = (q, s')"
  shows "stands s0 tid t u c G s'"
  using assms stands_compute [OF assms(1), of i v]
  by (auto simp: estimate_pre_consumed_quota_def split: if_splits prod.splits)

lemma stands_update_cost:
  assumes s: "stands s0 tid t u c G s"
  shows "stands s0 tid t u c G (snd (update_user_request_cost_quota_by_request_id uid rid q s)) \<and>
    (rid \<noteq> [] \<longrightarrow>
      (\<exists>x. request_costs (snd (update_user_request_cost_quota_by_request_id uid rid q s)) rid = Some (x, q)))"
proof (cases "rid = []")
  case True
  then show ?thesis using s by (simp add: update_user_request_cost_quota_by_request_id_def)
next
  case False
  from request_cost_calm [OF stands_calm [OF s, THEN conjunct1] False, of uid q] obtain x where
    e: "update_user_request_cost_quota_by_request_id uid rid q s = (Inr (), s\<lparr>request_costs := (request_costs s)(rid \<mapsto> (x, q))\<rparr>)"
    by blast
  show ?thesis unfolding e using stands_quiet [OF s] by simp
qed

lemma stands_record_cost:
  assumes "stands s0 tid t u c G s"
  shows "stands s0 tid t u c G (record_request_cost m q s) \<and>
    (m_request_id m \<noteq> [] \<longrightarrow> (\<exists>x. request_costs (record_request_cost m q s) (m_request_id m) = Some (x, q)))"
  using stands_update_cost [OF assms, of "m_user_id m" "m_request_id m" q] assms
  by (simp add: record_request_cost_def)

lemma paid_record_cost:
  assumes "paid s0 tid t u c s"
  shows "paid s0 tid t u c (record_request_cost m q s) \<and>
    (m_request_id m \<noteq> [] \<longrightarrow> (\<exists>x. request_costs (record_request_cost m q s) (m_request_id m) = Some (x, q)))"
  using stands_record_cost [of s0 tid t u c "prices_of s" s m q] assms by (simp add: stands_def)

lemma stands_provisional:
  assumes s: "stands s0 tid t u c G s"
  shows "stands s0 tid t u c G (snd (record_provisional_log m r q s))"
  using stands_quiet [OF s] s stands_calm [OF s]
  by (simp add: record_provisional_log_def record_provisional_consume_log_def look_up_username_calm insert_log_calm)

lemma stands_pricing:
  "stands s0 tid t u c G s \<Longrightarrow> ensure_initialized g = ensure_initialized (global_pricing s) \<Longrightarrow>
   stands s0 tid t u c G (s\<lparr>global_pricing := g\<rparr>)"
  by (rule stands_quiet) (simp_all add: prices_of_def)

lemma stands_refund:
  assumes s: "stands s0 tid t u c G s" and pre: "0 < pre" "in_i64 pre"
  shows "stands s0 tid t u (c - pre) G (return_pre_consumed_quota pre tid s)"
proof -
  have i: "in_i64 (- pre)" using pre by (simp add: in_i64_def)
  from s have "paid s0 tid t u c s" by (simp add: stands_def)
  from paid_post [OF this, of "- pre"] pre have "paid s0 tid t u (c - pre) (snd (post_consume_token_quota tid (- pre) s))"
    by simp
  moreover have "prices_of (snd (post_consume_token_quota tid (- pre) s)) = G"
    using s post_consume_aside [of s tid "- pre"] by (simp add: stands_def prices_of_aside)
  ultimately show ?thesis using pre i by (simp add: return_pre_consumed_quota_def stands_def)
qed

lemma conservative_refund:
  assumes s: "stands s0 tid t u c G s" and pre: "in_i64 pre" and r: "return_pre_consumed_quota_conservative pre tid (ctx, s) = (b, ctx', s')"
  shows "stands s0 tid t u (if pre \<le> 0 \<or> possibly_forwarded ctx then c else c - pre) G s' \<and>
    possibly_forwarded ctx' = possibly_forwarded ctx \<and> provisional_log_id ctx' = provisional_log_id ctx \<and>
    pre_consumed_amount ctx' = pre_consumed_amount ctx \<and>
    billing_reconciled ctx' = (0 < pre \<or> billing_reconciled ctx)"
proof (cases "pre \<le> 0 \<or> possibly_forwarded ctx")
  case True
  then show ?thesis
    using r s by (auto simp: return_pre_consumed_quota_conservative_def should_skip_pre_consumed_refund_def
        mark_billing_reconciled_def split: if_splits)
next
  case False
  define s1 where "s1 = (if provisional_log_id ctx > 0
    then snd (reconcile_consume_log (provisional_log_id ctx) 0 0 0 s) else s)"
  have "stands s0 tid t u c G s1"
    using stands_quiet [OF s] s stands_calm [OF s]
    by (simp add: s1_def reconcile_consume_log_def reconcile_consume_log_detailed_def calm_stmt)
  from stands_refund [OF this _ pre] False
  show ?thesis
    using r by (auto simp: return_pre_consumed_quota_conservative_def should_skip_pre_consumed_refund_def
        mark_billing_reconciled_def s1_def Let_def)
qed

subsection \<open>Settlement\<close>

lemma paid_post_with_log:
  assumes p: "paid s0 tid t u c s" and d: "d \<le> 0 \<and> in_i64 (- d) \<or> 0 < d \<and> affords t u (c + d)"
    and ids: "0 < tid" "0 < log_user_id l" "0 < log_channel_id l" "log_model_name l \<noteq> []"
  shows "paid s0 tid t u (c + d) (post_consume_quota_with_log tid d q l log_id s)"
proof -
  let ?l = "l\<lparr>log_quota := q\<rparr>"
  let ?rd = "\<lparr>rd_final_quota = q, rd_prompt_tokens = log_prompt_tokens ?l, rd_completion_tokens = log_completion_tokens ?l,
      rd_cached_prompt_tokens = log_cached_prompt_tokens ?l\<rparr>"
  define s1 where "s1 = snd (post_consume_token_quota tid d s)"
  define s2 where "s2 = (if log_id > 0 then snd (reconcile_consume_log_detailed log_id ?rd s1)
    else record_consume_log_entry ?l s1)"
  have p1: "paid s0 tid t u (c + d) s1" unfolding s1_def using paid_post [OF p d] by blast
  note calm1 = paid_calm [OF p1]
  have "quiet s1 s2"
    unfolding s2_def using reconcile_quiet [of s1] record_consume_log_quiet [of s1] calm1 by (simp split: if_split)
  from paid_quiet [OF p1 this] have p2: "paid s0 tid t u (c + d) s2" .
  have p3: "paid s0 tid t u (c + d) (update_channel_used_quota ch q (update_user_used_quota_and_request_count uid q s2))"
    for ch uid
    using paid_calm [OF p2] p2 by (meson aggregates_quiet paid_quiet quiet_calm)
  have "(case reconcile_consume_log_detailed log_id ?rd s1 of
      (Inl _, s) \<Rightarrow> record_consume_log_entry ?l s | (Inr _, s) \<Rightarrow> s) = snd (reconcile_consume_log_detailed log_id ?rd s1)"
    using reconcile_calm_ok [OF calm1 [THEN conjunct1], of log_id ?rd] by (auto split: prod.split sum.split)
  then have "post_consume_quota_with_log tid d q l log_id s =
      (if q > 0 then update_channel_used_quota (log_channel_id l) q
         (update_user_used_quota_and_request_count (log_user_id l) q s2) else s2)"
    using ids calm1 by (simp add: post_consume_quota_with_log_def s2_def s1_def Let_def)
  then show ?thesis using p2 p3 by simp
qed

lemma compute_quota_tokens:
  assumes "compute_quota i v s = (res, s')"
  shows "r_prompt_tokens res = prompt_tokens v" "r_completion_tokens res = merged_completion v"
  using assms by (auto simp: compute_quota_def compute_def Let_def split: prod.splits)

lemma merged_completion_nonneg: "0 \<le> completion_tokens v \<Longrightarrow> 0 \<le> merged_completion v"
  by (auto simp: merged_completion_def Let_def split: option.split)

lemma deepseek_tokens [simp]:
  "prompt_tokens (the (apply_deepseek_cache_usage (Some v))) = prompt_tokens v"
  "merged_completion (the (apply_deepseek_cache_usage (Some v))) = merged_completion v"
  by (auto simp: apply_deepseek_cache_usage_def merged_completion_def Let_def split: option.split)

definition request_for :: "relay_meta \<Rightarrow> text_request \<Rightarrow> int \<Rightarrow> token_row \<Rightarrow> bool" where
  "request_for m r tid t \<longleftrightarrow> m_token_id m = tid \<and> m_user_id m = t_user_id t \<and> 0 < tid \<and> 0 < t_user_id t \<and>
     0 < m_channel_id m \<and> tr_model r \<noteq> [] \<and> m_request_id m \<noteq> []"

lemma stands_post_consume:
  assumes s: "stands s0 tid t u c G s" and rq: "request_for m r tid t"
    and v: "0 < prompt_tokens v" "0 \<le> completion_tokens v"
    and q: "q = price i (the (apply_deepseek_cache_usage (Some v))) G"
    and d: "q - pre - charged \<le> 0 \<and> in_i64 (- (q - pre - charged)) \<or>
      0 < q - pre - charged \<and> affords t u (c + (q - pre - charged))"
    and r: "post_consume_quota m r i (Some v) pre charged log_id s = (q', s')"
  shows "q' = q \<and> paid s0 tid t u (c + (q - pre - charged)) s'"
proof -
  let ?v = "the (apply_deepseek_cache_usage (Some v))"
  obtain res s1 where c: "compute_quota i ?v s = (res, s1)" by (cases "compute_quota i ?v s")
  note tok = compute_quota_tokens [OF c]
  from stands_compute [OF s c] q have p: "paid s0 tid t u c s1" and "total_quota res = q" by (auto simp: stands_def)
  moreover have "0 < r_prompt_tokens res" "0 \<le> r_completion_tokens res"
    using tok v by (simp_all add: merged_completion_nonneg)
  ultimately show ?thesis
    using r v rq c paid_post_with_log [OF p d]
    by (auto simp: post_consume_quota_def post_consume_quota_detailed_def request_for_def Let_def)
qed

text \<open>The usage that is billed, and what it costs.\<close>

definition billed_usage :: "relay_meta \<Rightarrow> compute_input \<Rightarrow> int \<Rightarrow> upstream \<Rightarrow> usage \<Rightarrow> gpm \<Rightarrow> usage option" where
  "billed_usage m i prompt up v G = fst (add_output_charges m i prompt up (Some v) G)"

definition text_cost :: "relay_meta \<Rightarrow> compute_input \<Rightarrow> int \<Rightarrow> upstream \<Rightarrow> usage \<Rightarrow> gpm \<Rightarrow> int" where
  "text_cost m i prompt up v G =
     price i (the (apply_deepseek_cache_usage (billed_usage m i prompt up v G))) G"

lemma steady_add_output_charges: "steady (add_output_charges m i prompt up u)"
proof -
  have "add_output_charges m i prompt up u = (\<lambda>g. case apply_output_charges (output_context m i prompt) (up_outputs up) (u, g) of
      (u, g) \<Rightarrow> (\<lambda>u g. (fst (apply_builtin_tool_charges (m_tooling m) (m_provider_tooling m) (up_tool_counts up)
                (up_web_searches up) u), g)) u g)"
    by (simp add: add_output_charges_def fun_eq_iff)
  then show ?thesis by (simp only:) (intro steady_intros steady_output_charges)
qed

text \<open>Neither the media nor the tools change the reported tokens.\<close>

lemma tool_charges_tokens:
  "\<exists>w. fst (apply_builtin_tool_charges ch pv counts n (Some v)) = Some w \<and>
     prompt_tokens w = prompt_tokens v \<and> completion_tokens w = completion_tokens v"
proof -
  have loop: "\<exists>w. fst (charge_loop policy es (Some v) summary) = Some w \<and>
      prompt_tokens w = prompt_tokens v \<and> completion_tokens w = completion_tokens v" for policy es v summary
  proof (induction es arbitrary: v summary)
    case (Cons e rest)
    have "\<exists>w. fst (charge_loop policy rest (add_tools_cost k (Some v)) sm) = Some w \<and>
        prompt_tokens w = prompt_tokens v \<and> completion_tokens w = completion_tokens v" for k sm
      using Cons.IH [of "v\<lparr>tools_cost := tools_cost v + k\<rparr>" sm] by (simp add: add_tools_cost_def)
    then show ?case using Cons.IH [of v] by (cases e) (simp add: Let_def)
  qed simp
  show ?thesis
    using loop [of "build_tool_policy ch pv" _ v]
    by (simp add: apply_builtin_tool_charges_def Let_def split: prod.split) (metis fst_conv)
qed

lemma billed_usage_tokens:
  assumes v: "0 < prompt_tokens v"
  shows "\<exists>w. billed_usage m i prompt up v G = Some w \<and>
    prompt_tokens w = prompt_tokens v \<and> completion_tokens w = completion_tokens v"
proof -
  obtain u g where c: "apply_output_charges (output_context m i prompt) (up_outputs up) (Some v, G) = (u, g)"
    by (cases "apply_output_charges (output_context m i prompt) (up_outputs up) (Some v, G)")
  with output_only_adds [of "Some v" "output_context m i prompt" "up_outputs up" G] v
  obtain w where "u = Some w" "prompt_tokens w = prompt_tokens v" "completion_tokens w = completion_tokens v"
    by (cases u) (auto simp: only_adds_def the_usage_def)
  then show ?thesis
    using tool_charges_tokens [of "m_tooling m" "m_provider_tooling m" "up_tool_counts up" "up_web_searches up" w]
    by (simp add: billed_usage_def add_output_charges_def c)
qed

text \<open>Settling adjusts what was paid to the cost, less what a refund has returned before.\<close>

definition kept :: "int \<Rightarrow> gin_context \<Rightarrow> int \<Rightarrow> int" where
  "kept pre c paid_so_far = (if pre \<le> 0 \<or> possibly_forwarded c then paid_so_far else paid_so_far - pre)"

lemma stands_settle:
  assumes s: "stands s0 tid t u c G s" and rq: "request_for m r tid t" and pre: "in_i64 pre"
    and v: "0 < prompt_tokens v" "0 \<le> completion_tokens v"
    and q: "q = text_cost m i prompt up v G"
    and d: "q - pre - charged \<le> 0 \<and> in_i64 (- (q - pre - charged)) \<or>
      0 < q - pre - charged \<and> affords t u (kept pre ctx c + (q - pre - charged))"
    and r: "text_settle m r i prompt pre up (Some v) charged (ctx, s) = (err, ctx', s')"
  shows "err = None \<and> billing_reconciled ctx' \<and> paid s0 tid t u (kept pre ctx c + (q - pre - charged)) s' \<and>
    (\<exists>x. request_costs s' (m_request_id m) = Some (x, q))"
proof -
  obtain w g where o: "add_output_charges m i prompt up (Some v) (global_pricing s) = (w, g)"
    by (cases "add_output_charges m i prompt up (Some v) (global_pricing s)")
  note st = steady_D [OF steady_add_output_charges o]
  have G: "ensure_initialized (global_pricing s) = G" using s by (simp add: stands_def prices_of_def)
  have w: "w = billed_usage m i prompt up v G" using st(2) [of G] G by (simp add: billed_usage_def) (metis ensure_initialized_idem)
  from billed_usage_tokens [OF v(1), of m i prompt up G] w obtain v' where
    v': "w = Some v'" "prompt_tokens v' = prompt_tokens v" "completion_tokens v' = completion_tokens v" by auto
  obtain b c1 s1 where ret: "return_pre_consumed_quota_conservative pre (m_token_id m) (ctx, s\<lparr>global_pricing := g\<rparr>) = (b, c1, s1)"
    by (cases "return_pre_consumed_quota_conservative pre (m_token_id m) (ctx, s\<lparr>global_pricing := g\<rparr>)")
  have tid: "m_token_id m = tid" using rq by (simp add: request_for_def)
  have st1: "stands s0 tid t u (kept pre ctx c) G s1"
    unfolding kept_def using conservative_refund [OF stands_pricing [OF s st(1)] pre ret [unfolded tid]] by blast
  obtain q' s2 where post: "post_consume_quota m r i (Some v') pre charged (provisional_log_id c1) s1 = (q', s2)"
    by (cases "post_consume_quota m r i (Some v') pre charged (provisional_log_id c1) s1")
  have "q = price i (the (apply_deepseek_cache_usage (Some v'))) G"
    using q w v'(1) by (simp add: text_cost_def)
  from stands_post_consume [OF st1 rq _ _ this d post] v v'(2,3)
  have "q' = q" "paid s0 tid t u (kept pre ctx c + (q - pre - charged)) s2" by auto
  moreover have "err = None \<and> billing_reconciled ctx' \<and> s' = record_request_cost m q' s2"
    using r by (auto simp: text_settle_def o ret v'(1) post mark_billing_reconciled_def)
  ultimately show ?thesis using paid_record_cost rq by (fastforce simp: request_for_def)
qed

subsection \<open>A whole request\<close>

lemma affords_mono: "affords t u a \<Longrightarrow> b \<le> a \<Longrightarrow> affords t u b"
  by (auto simp: affords_def)

text \<open>The last adjustment is always possible: it returns what was paid, or the cost is affordable.\<close>

lemma adjustment_ok:
  assumes "0 \<le> pre" "0 \<le> charged" "0 < pre + charged \<longrightarrow> affords t u (pre + charged)" "in_i64 (u_quota u)"
    and "0 \<le> q" "affords t u q"
  shows "q - pre - charged \<le> 0 \<and> in_i64 (- (q - pre - charged)) \<or>
    0 < q - pre - charged \<and> affords t u (kept pre ctx (pre + charged) + (q - pre - charged))"
proof (cases "q - pre - charged \<le> 0")
  case True
  moreover from assms have "pre + charged \<le> max 0 (u_quota u)" by (auto simp: affords_def)
  then have "0 \<le> - (q - pre - charged) \<and> - (q - pre - charged) \<le> max 0 (u_quota u)" using assms(5) True by auto
  with assms(4) have "in_i64 (- (q - pre - charged))" by (auto simp: in_i64_def)
  ultimately show ?thesis by simp
next
  case False
  have "kept pre ctx (pre + charged) + (q - pre - charged) \<le> q" using assms(1) by (simp add: kept_def)
  with affords_mono [OF assms(6)] False show ?thesis by simp
qed

text \<open>What a request has paid in the end: its cost, less the reservation when that was returned before.\<close>

definition paid_in_the_end :: "int \<Rightarrow> gin_context \<Rightarrow> int \<Rightarrow> int" where
  "paid_in_the_end pre c q = (if pre \<le> 0 \<or> possibly_forwarded c then q else q - pre)"

lemma settle_end:
  assumes s: "stands s0 tid t u (pre + charged) G s" and rq: "request_for m r tid t"
    and pre: "0 \<le> pre" "in_i64 pre" "0 \<le> charged" "0 < pre + charged \<longrightarrow> affords t u (pre + charged)" "in_i64 (u_quota u)"
    and v: "0 < prompt_tokens v" "0 \<le> completion_tokens v"
    and q: "q = text_cost m i prompt up v G" "0 \<le> q" "affords t u q"
    and r: "text_settle m r i prompt pre up (Some v) charged (ctx, s) = (err, ctx', s')"
  shows "err = None \<and> billing_reconciled ctx' \<and> paid s0 tid t u (paid_in_the_end pre ctx q) s' \<and>
    (\<exists>x. request_costs s' (m_request_id m) = Some (x, q))"
proof -
  have e: "kept pre ctx (pre + charged) + (q - pre - charged) = paid_in_the_end pre ctx q"
    by (simp add: kept_def paid_in_the_end_def)
  from stands_settle [OF s rq pre(2) v q(1) adjustment_ok [OF pre(1,3-5) q(2,3)] r]
  show ?thesis unfolding e .
qed

definition tracker_for ::
  "relay_meta \<Rightarrow> text_request \<Rightarrow> compute_input \<Rightarrow> int \<Rightarrow> int \<Rightarrow> tracker option" where
  "tracker_for m r i prompt pre = (if tr_stream r
     then Some (new_quota_tracker (m_user_id m) (m_token_id m) i prompt pre (m_flush_interval m) (m_start m)) else None)"

lemma answer_end:
  assumes s: "stands s0 tid t u pre G s" and rq: "request_for m r tid t"
    and pre: "0 \<le> pre" "0 < pre \<longrightarrow> affords t u pre" "in_i64 (u_quota u)"
    and v: "up_usage up = Some v" "0 < prompt_tokens v" "0 \<le> completion_tokens v"
    and q: "q = text_cost m i prompt up v G" "0 \<le> q" "affords t u q"
    and r: "text_answer m r i prompt pre (tracker_for m r i prompt pre) up (ctx, s) = (None, ctx', s')"
  shows "billing_reconciled ctx' \<and> paid s0 tid t u (paid_in_the_end pre ctx q) s' \<and>
    (\<exists>x. request_costs s' (m_request_id m) = Some (x, q))"
proof -
  have ip: "in_i64 pre" using pre by (cases "0 < pre") (auto simp: affords_def in_i64_def)
  show ?thesis
  proof (cases "tr_stream r")
    case False
    then have "text_settle m r i prompt pre up (Some v) 0 (ctx, s) = (None, ctx', s')"
      using r v(1) by (auto simp: text_answer_def tracker_for_def split: option.splits)
    from settle_end [OF _ rq pre(1) ip _ _ pre(3) v(2,3) q this] s pre(2) show ?thesis by simp
  next
    case True
    define k where "k = new_quota_tracker (m_user_id m) (m_token_id m) i prompt pre (m_flush_interval m) (m_start m)"
    have k0: "tk_pre_consumed k = pre" by (simp add: k_def new_quota_tracker_def Let_def)
    obtain e1 v1 k1 s1 where l: "stream_loop (up_events up) None k s = (e1, v1, k1, s1)"
      by (cases "stream_loop (up_events up) None k s")
    obtain w charged e k2 s2 where f: "finalize (up_usage up) (up_end up) k1 s1 = ((w, charged, e), k2, s2)"
      by (cases "finalize (up_usage up) (up_end up) k1 s1") auto
    note f' = f [unfolded v(1)]
    have st: "paid s0 tid t u pre s" "prices_of s = G" using s by (simp_all add: stands_def)
    have start: "tracker_ok s0 tid t u G k s"
      using tracker_start [OF st(1), of i prompt "m_flush_interval m" "m_start m"] rq
      by (simp add: st(2) k_def request_for_def)
    note lo = stream_loop_step [OF start l]
    have ok1: "tracker_ok s0 tid t u G k1 s1" using lo by blast
    note fi = finalize_step [OF ok1 f]
    have e: "e = None"
    proof (rule ccontr)
      assume "e \<noteq> None"
      with r show False
        by (auto simp: text_answer_def tracker_for_def True k_def [symmetric] l f' v(1) split: prod.splits option.splits)
    qed
    have w: "w = v" using fi v(1) by (simp add: current_usage_def update_final_usage_def Let_def split: if_splits)
    from fi e have ok2: "tracker_ok s0 tid t u G k2 s2" and a2: "abort_err k2 = None" and c2: "charged = charged_quota k2"
      by blast+
    have p2: "tk_pre_consumed k2 = pre" using lo fi k0 by (simp add: same_request_def)
    have stands2: "stands s0 tid t u (pre + charged) G s2"
      using ok2 a2 by (simp add: tracker_ok_def stands_def p2 c2)
    have nonneg: "0 \<le> charged" and aff: "0 < pre + charged \<longrightarrow> affords t u (pre + charged)"
      using ok2 pre(1,2) by (auto simp: tracker_ok_def p2 c2 order.strict_iff_order)
    have "text_settle m r i prompt pre up (Some v) charged (ctx, s2) = (None, ctx', s')"
      using r by (auto simp: text_answer_def tracker_for_def True k_def [symmetric] l f' v(1) e w split: option.splits)
    from settle_end [OF stands2 rq pre(1) ip nonneg aff pre(3) v(2,3) q this] show ?thesis by blast
  qed
qed

lemma do_request_context:
  assumes "do_request up c = (res, c')"
  shows "provisional_log_id c' = provisional_log_id c \<and> billing_reconciled c' = billing_reconciled c \<and>
    pre_consumed_amount c' = pre_consumed_amount c \<and>
    (possibly_forwarded c' \<longleftrightarrow> possibly_forwarded c \<or> up_transport up = HelperTransport \<and> up_setup_ok up)"
  using assms by (auto simp: do_request_def do_request_helper_def split: transport.splits if_splits)

lemma exchange_end:
  assumes s: "stands s0 tid t u pre G s" and rq: "request_for m r tid t"
    and pre: "0 \<le> pre" "0 < pre \<longrightarrow> affords t u pre" "in_i64 (u_quota u)"
    and v: "up_usage up = Some v" "0 < prompt_tokens v" "0 \<le> completion_tokens v"
    and q: "q = text_cost m i (prompt_tokens pu) up v G" "0 \<le> q" "affords t u q"
    and r: "text_exchange m r pu i cr pre (tracker_for m r i (prompt_tokens pu) pre) up (ctx, s) = (None, ctx', s')"
  shows "billing_reconciled ctx' \<and> (\<exists>x. request_costs s' (m_request_id m) = Some (x, q)) \<and>
    paid s0 tid t u (if pre \<le> 0 \<or> possibly_forwarded ctx \<or> up_transport up = HelperTransport then q else q - pre) s'"
proof -
  obtain res c1 where d: "do_request up ctx = (res, c1)" by (cases "do_request up ctx")
  from r d obtain resp where conv: "up_convert_ok up" and resp: "res = Inr resp"
    by (auto simp: text_exchange_def split: if_splits sum.splits)
  obtain est s1 where es: "estimate_pre_consumed_quota m r pu i cr s = (est, s1)"
    by (cases "estimate_pre_consumed_quota m r pu i cr s")
  have st: "stands s0 tid t u pre G (record_request_cost m est s1)"
    using stands_record_cost [OF stands_estimate [OF s es]] by blast
  have "\<not> is_error_happened m (tr_stream r) resp" 
    using r by (auto simp: text_exchange_def conv d resp es split: prod.splits)
  then have "text_answer m r i (prompt_tokens pu) pre (tracker_for m r i (prompt_tokens pu) pre) up
      (c1, record_request_cost m est s1) = (None, ctx', s')"
    using r by (simp add: text_exchange_def conv d resp es)
  note an = answer_end [OF st rq pre v q this]
  have "possibly_forwarded c1 = (possibly_forwarded ctx \<or> up_transport up = HelperTransport)"
    using do_request_context [OF d] d resp
    by (auto simp: do_request_def do_request_helper_def split: transport.splits if_splits)
  with an show ?thesis by (auto simp: paid_in_the_end_def)
qed

lemma reserve_end:
  assumes s: "paid s0 tid t u 0 s" and rq: "m_token_id m = tid"
    and r: "pre_consume_quota m r pu i cr s = (Inr pre, s')" "0 \<le> pre"
  shows "stands s0 tid t u pre (prices_of s) s' \<and> (0 < pre \<longrightarrow> affords t u pre)"
proof -
  obtain est s1 where es: "estimate_pre_consumed_quota m r pu i cr s = (est, s1)"
    by (cases "estimate_pre_consumed_quota m r pu i cr s")
  have st: "stands s0 tid t u 0 (prices_of s) s1"
    using stands_estimate [OF _ es] s by (simp add: stands_def)
  note calm = stands_calm [OF st]
  obtain x where g: "cache_get_user_quota (m_user_id m) s1 = (x, s1)"
    using calm by (simp add: get_user_quota_def exec_calm)
  show ?thesis
  proof (cases "0 < pre")
    case False
    then have "pre = 0" using r(2) by simp
    with r st show ?thesis by (auto simp: pre_consume_quota_def es g Let_def split: if_splits sum.splits prod.splits)
  next
    case True
    obtain y s2 where p: "pre_consume_token_quota tid pre s1 = (y, s2)" by (cases "pre_consume_token_quota tid pre s1")
    have "y = Inr () \<and> s' = sync_user_quota_cache_after_pre_consume (m_user_id m) pre s2"
      using r True p by (auto simp: pre_consume_quota_def es g Let_def rq split: if_splits sum.splits prod.splits)
    moreover have "paid s0 tid t u 0 s1" "prices_of s1 = prices_of s" using st by (simp_all add: stands_def)
    ultimately have "affords t u pre \<and> paid s0 tid t u pre s2 \<and> s' = sync_user_quota_cache_after_pre_consume (m_user_id m) pre s2"
      using paid_pre [of s0 tid t u 0 s1 pre] r(2) by (auto simp: p split: if_splits)
    moreover have "prices_of s2 = prices_of s1" using prices_of_aside [OF pre_consume_aside [of s1 tid pre]] by (simp add: p)
    moreover have "\<not> redis_enabled s2" using calculation(1) paid_calm by blast
    ultimately show ?thesis using \<open>prices_of s1 = prices_of s\<close> by (simp add: stands_def)
  qed
qed

lemma steady_text_prices: "steady (text_prices m r)"
  unfolding text_prices_def Let_def by (intro steady_intros)

lemma admission_end:
  assumes s: "paid s0 tid t u 0 s" and rq: "request_for m r tid t"
    and r: "text_admission m r s = (Inr (pu, i, cr, pre), s')" "0 \<le> pre"
  shows "stands s0 tid t u pre (prices_of s) s' \<and> (0 < pre \<longrightarrow> affords t u pre)"
proof -
  obtain p g where tp: "text_prices m r (global_pricing s) = (p, g)" by (cases "text_prices m r (global_pricing s)")
  have "stands s0 tid t u 0 (prices_of s) (s\<lparr>global_pricing := g\<rparr>)"
    using stands_pricing [OF _ steady_D(1) [OF steady_text_prices tp]] s by (simp add: stands_def)
  then have p0: "paid s0 tid t u 0 (s\<lparr>global_pricing := g\<rparr>)" and G: "prices_of (s\<lparr>global_pricing := g\<rparr>) = prices_of s"
    by (simp_all add: stands_def)
  have "pre_consume_quota m r pu i cr (s\<lparr>global_pricing := g\<rparr>) = (Inr pre, s')"
    using r tp by (auto simp: text_admission_def Let_def split: if_splits prod.splits option.splits sum.splits)
  from reserve_end [OF p0 _ this r(2)] rq G show ?thesis by (simp add: request_for_def)
qed

lemma settle_context:
  "text_settle m r i prompt pre up v charged (ctx, s) = (err, ctx', s') \<Longrightarrow> possibly_forwarded ctx' = possibly_forwarded ctx"
  by (auto simp: text_settle_def return_pre_consumed_quota_conservative_def mark_billing_reconciled_def Let_def
      split: prod.splits if_splits)

lemma conservative_context:
  "return_pre_consumed_quota_conservative pre tid (ctx, s) = (b, ctx', s') \<Longrightarrow> possibly_forwarded ctx' = possibly_forwarded ctx"
  by (auto simp: return_pre_consumed_quota_conservative_def mark_billing_reconciled_def Let_def split: if_splits)

lemma answer_context:
  "text_answer m r i prompt pre k up (ctx, s) = (err, ctx', s') \<Longrightarrow> possibly_forwarded ctx' = possibly_forwarded ctx"
  by (auto simp: text_answer_def Let_def dest: settle_context conservative_context
      split: prod.splits option.splits sum.splits if_splits)

text \<open>The start of every attempt: the reservation, its mark in the context and its log entry.\<close>

lemma relay_start:
  assumes s: "paid s0 tid t u 0 s" and rq: "request_for m r tid t"
    and a: "text_admission m r s = (Inr (pu, i, cr, pre), s1)" "0 \<le> pre"
    and r: "relay_text_helper m r up (c0, s) = (err, c', s')"
  obtains c s2 s3 where "stands s0 tid t u pre (prices_of s) s2" "0 < pre \<longrightarrow> affords t u pre"
    "text_exchange m r pu i cr pre (tracker_for m r i (prompt_tokens pu) pre) up (c, s2) = (err, c', s3)"
    "s' = billing_audit_safety_net tid c' s3"
    "possibly_forwarded c = possibly_forwarded c0" "billing_reconciled c = billing_reconciled c0"
    "pre_consumed_amount c = Some pre"
proof -
  from admission_end [OF s rq a] have st: "stands s0 tid t u pre (prices_of s) s1" "0 < pre \<longrightarrow> affords t u pre" by simp_all
  obtain log_id s2 where l: "record_provisional_log m r pre s1 = (log_id, s2)" by (cases "record_provisional_log m r pre s1")
  have s2: "stands s0 tid t u pre (prices_of s) s2" using stands_provisional [OF st(1), of m r pre] by (simp add: l)
  let ?c = "(mark_pre_consumed pre c0)\<lparr>provisional_log_id := log_id\<rparr>"
  obtain e c3 s3 where x: "text_exchange m r pu i cr pre (tracker_for m r i (prompt_tokens pu) pre) up (?c, s2) = (e, c3, s3)"
    by (cases "text_exchange m r pu i cr pre (tracker_for m r i (prompt_tokens pu) pre) up (?c, s2)") auto
  have "err = e" "c' = c3" "s' = billing_audit_safety_net tid c3 s3"
    using r rq x by (auto simp: relay_text_helper_def a(1) l tracker_for_def request_for_def Let_def)
  with x that [OF s2 st(2), of ?c s3] show ?thesis by (simp add: mark_pre_consumed_def)
qed

lemma safety_net_reconciled: "billing_reconciled c \<Longrightarrow> billing_audit_safety_net tid c s = s"
  by (simp add: billing_audit_safety_net_def)

lemma safety_net_forwarded: "possibly_forwarded c \<Longrightarrow> billing_audit_safety_net tid c s = s"
  by (simp add: billing_audit_safety_net_def should_skip_pre_consumed_refund_def split: option.split)

lemma success_end:
  assumes s: "calm s0" "\<not> redis_enabled s0" "owned s0 tid t u" "in_i64 (u_quota u)" and rq: "request_for m r tid t"
    and a: "text_admission m r s0 = (Inr (pu, i, cr, pre), s1)" "0 \<le> pre"
    and v: "up_usage up = Some v" "0 < prompt_tokens v" "0 \<le> completion_tokens v"
    and q: "q = text_cost m i (prompt_tokens pu) up v (prices_of s0)" "0 \<le> q" "affords t u q"
    and r: "relay_text_helper m r up (c0, s0) = (None, c', s')"
  shows "(\<exists>x. request_costs s' (m_request_id m) = Some (x, q)) \<and>
    paid s0 tid t u (if pre \<le> 0 \<or> possibly_forwarded c0 \<or> up_transport up = HelperTransport then q else q - pre) s'"
proof -
  from relay_start [OF paid_start [OF s(1-3)] rq a r] obtain c s2 s3 where
    st: "stands s0 tid t u pre (prices_of s0) s2" and aff: "0 < pre \<longrightarrow> affords t u pre"
    and x: "text_exchange m r pu i cr pre (tracker_for m r i (prompt_tokens pu) pre) up (c, s2) = (None, c', s3)"
    and s': "s' = billing_audit_safety_net tid c' s3" and c: "possibly_forwarded c = possibly_forwarded c0" .
  from exchange_end [OF st rq a(2) aff s(4) v q x] show ?thesis by (simp add: s' safety_net_reconciled c)
qed

subsection \<open>Examples\<close>

definition example_meta :: relay_meta where
  "example_meta = \<lparr>m_user_id = 1, m_token_id = 5, m_channel_id = 3, m_channel_type = 1, m_api_known = True,
     m_embeddings = False, m_prices = Some [(''m'', plain_config\<lparr>lc_ratio := 1, lc_completion_ratio := 2\<rparr>)],
     m_tooling = None, m_pricing_adaptor = None, m_provider_tooling = None, m_group_ratio = 1,
     m_token_quota = 500, m_token_quota_unlimited = False, m_request_id = ''r'', m_flush_interval = 0, m_start = 0\<rparr>"

definition example_text :: text_request where
  "example_text = \<lparr>tr_model = ''m'', tr_stream = False, tr_max_completion_tokens = None, tr_max_tokens = 0,
     tr_tool_types = [], tr_web_search = False, tr_prompt_usage = Some (example_usage 100 0)\<rparr>"

definition example_answer :: upstream where
  "example_answer = \<lparr>up_convert_ok = True, up_transport = HelperTransport, up_setup_ok = True,
     up_send = Inr (Some \<lparr>status_code = 200, json_content = True\<rparr>), up_events = [],
     up_usage = Some (example_usage 100 10), up_answer_error = None, up_end = 0,
     up_outputs = \<lparr>output_image_count = 0, output_audio_seconds = 0, output_audio_tokens = 0,
       output_video_seconds = 0, output_video_resolution = []\<rparr>,
     up_tool_counts = [], up_web_searches = None\<rparr>"

definition example_error :: upstream where
  "example_error = example_answer\<lparr>up_send := Inr (Some \<lparr>status_code = 500, json_content = True\<rparr>), up_usage := None\<rparr>"

definition example_unbuilt :: upstream where
  "example_unbuilt = example_answer\<lparr>up_setup_ok := False\<rparr>"

definition example_shop :: relay_world where
  "example_shop = example_relay\<lparr>pre_consumed_quota_config := 50\<rparr>"

definition fresh_context :: gin_context where
  "fresh_context = \<lparr>possibly_forwarded = False, billing_reconciled = False, pre_consumed_amount = None,
     provisional_log_id = 0\<rparr>"

definition example_prices_of :: compute_input where
  "example_prices_of = \<lparr>in_usage = None, in_model_name = ''m'', in_model_ratio = 1,
     in_channel_model_ratio = [(''m'', 1)], in_group_ratio = 1,
     in_channel_model_configs = [(''m'', plain_config\<lparr>lc_ratio := 1, lc_completion_ratio := 2\<rparr>)],
     in_channel_completion_ratio = [(''m'', 2)], in_pricing_adaptor = None\<rparr>"

lemma example_shop_start: "calm example_shop" "\<not> redis_enabled example_shop"
  "owned example_shop 5 rich_token rich_user" "in_i64 (u_quota rich_user)" "request_for example_meta example_text 5 rich_token"
  by (simp_all add: calm_def owned_def example_shop_def example_relay_def world.defs example_world_def rich_token_def
      rich_user_def example_token_def in_i64_def request_for_def example_meta_def example_text_def)

lemma example_text_prices: "text_prices example_meta example_text g = ((example_prices_of, 2), g)"
  by (simp add: text_prices_def example_meta_def example_text_def example_prices_of_def plain_config_def
      get_model_ratio_from_configs_def get_completion_ratio_from_configs_def get_model_price_configs_def
      get_model_ratio_with_three_layers_def get_completion_ratio_with_three_layers_def Let_def)

lemma example_estimate: "get_pre_consumed_quota 50 example_text 100 (fmul 1 1) 2 = 150"
  by (simp add: get_pre_consumed_quota_def example_text_def int64_of_float_def float_ops f64_numeral f64_one in_i64_def)

lemma example_admits:
  assumes p: "paid example_shop 5 rich_token rich_user a s" and cfg: "pre_consumed_quota_config s = 50"
    and a: "0 \<le> a" "a + 150 \<le> 500"
  shows "\<exists>s1. text_admission example_meta example_text s = (Inr (example_usage 100 0, example_prices_of, 2, 150), s1)"
proof -
  note calm = paid_calm [OF p]
  have q: "cache_get_user_quota 1 s = (Inr (1000 - a), s)"
    using paid_user_quota [OF p] calm by (simp add: example_relay_start(4) rich_user_def)
  have "fst (pre_consume_token_quota 5 150 s) = Inr ()"
    using paid_pre [OF p, of 150] a by (simp add: example_affords)
  then obtain s2 where pre: "pre_consume_token_quota 5 150 s = (Inr (), s2)"
    by (cases "pre_consume_token_quota 5 150 s") auto
  have est: "estimate_pre_consumed_quota example_meta example_text (example_usage 100 0) example_prices_of 2 s = (150, s)"
    using example_estimate
    by (simp add: estimate_pre_consumed_quota_def cfg example_prices_of_def example_meta_def example_usage_def)
  have "\<exists>s1. pre_consume_quota example_meta example_text (example_usage 100 0) example_prices_of 2 s = (Inr 150, s1)"
    using a by (simp add: pre_consume_quota_def est) (simp add: example_meta_def q pre in_i64_def i64_id)
  moreover have "m_api_known example_meta" "tr_prompt_usage example_text = Some (example_usage 100 0)"
    "validate_chat_builtin_tools (m_tooling example_meta) (m_provider_tooling example_meta)
      (m_channel_type example_meta = channel_type_azure) (tr_tool_types example_text) (tr_web_search example_text) = None"
    by (simp_all add: example_meta_def example_text_def validate_chat_builtin_tools_def
        validate_requested_builtins_def collect_chat_builtins_def)
  ultimately show ?thesis by (auto simp: text_admission_def example_text_prices)
qed

lemma example_admitted:
  "\<exists>s1. text_admission example_meta example_text example_shop = (Inr (example_usage 100 0, example_prices_of, 2, 150), s1)"
  by (rule example_admits [OF paid_start [OF example_shop_start(1-3)]]) (simp_all add: example_shop_def)

lemma example_billed: "billed_usage example_meta example_prices_of 100 example_answer (example_usage 100 10) g =
    Some (example_usage 100 10)"
  by (simp add: billed_usage_def add_output_charges_def output_context_def apply_output_charges_def
      apply_output_image_charges_def apply_output_audio_charges_def apply_output_video_charges_def
      apply_builtin_tool_charges_def collect_invocation_counts_def example_answer_def example_meta_def)

lemma example_cost: "text_cost example_meta example_prices_of 100 example_answer (example_usage 100 10)
    (prices_of example_shop) = 120"
proof -
  have "total_quota (fst (compute (example_prices_of\<lparr>in_usage := Some (example_usage 100 10)\<rparr>) new_gpm)) = 120"
    by (simp add: example_prices_of_def compute_eval float_ops f64_numeral f64_one)
  then have "price example_prices_of (example_usage 100 10) new_gpm = 120"
    using steady_compute [of "example_prices_of\<lparr>in_usage := Some (example_usage 100 10)\<rparr>"]
    by (simp add: price_def steady_def)
  moreover have "prices_of example_shop = ensure_initialized new_gpm"
    by (simp add: prices_of_def example_shop_def example_relay_def world.defs)
  moreover have "apply_deepseek_cache_usage (Some (example_usage 100 10)) = Some (example_usage 100 10)"
    by (simp add: apply_deepseek_cache_usage_def example_usage_def)
  ultimately show ?thesis by (simp add: text_cost_def example_billed)
qed


lemma example_fields: "\<not> tr_stream example_text" "up_convert_ok example_answer" "up_setup_ok example_answer"
  "up_transport example_answer = HelperTransport"
  "up_send example_answer = Inr (Some \<lparr>status_code = 200, json_content = True\<rparr>)"
  "up_usage example_answer = Some (example_usage 100 10)" "up_answer_error example_answer = None"
  "m_request_id example_meta = ''r''" "prompt_tokens (example_usage p n) = p" "completion_tokens (example_usage p n) = n"
  by (simp_all add: example_text_def example_answer_def example_meta_def example_usage_def)

lemma example_runs:
  "fst (relay_text_helper example_meta example_text example_answer (c0, example_shop)) = None"
  "fst (relay_text_helper example_meta example_text (example_answer\<lparr>up_transport := OwnTransport\<rparr>) (c0, example_shop)) = None"
proof -
  obtain s1 where a: "text_admission example_meta example_text example_shop =
      (Inr (example_usage 100 0, example_prices_of, 2, 150), s1)" using example_admitted by blast
  show "fst (relay_text_helper example_meta example_text example_answer (c0, example_shop)) = None"
    "fst (relay_text_helper example_meta example_text (example_answer\<lparr>up_transport := OwnTransport\<rparr>) (c0, example_shop)) = None"
    by (simp_all add: relay_text_helper_def a text_exchange_def text_answer_def text_settle_def Let_def do_request_def
        do_request_helper_def example_fields is_error_happened_def split: prod.split)
qed

subsection \<open>Properties\<close>



text \<open>
  An adaptor with a client of its own never marks the request as forwarded. So its reservation is returned
  before the settlement subtracts it once more: of the recorded cost the accounts pay the reservation less.
\<close>

theorem unmarked_transport_undercharges:
  assumes "calm s0" "\<not> redis_enabled s0" "owned s0 tid t u" "in_i64 (u_quota u)" "request_for m r tid t"
    and "text_admission m r s0 = (Inr (pu, i, cr, pre), s1)" "0 < pre"
    and "up_usage up = Some v" "0 < prompt_tokens v" "0 \<le> completion_tokens v"
    and "q = text_cost m i (prompt_tokens pu) up v (prices_of s0)" "0 \<le> q" "affords t u q"
    and "up_transport up = OwnTransport" "\<not> possibly_forwarded c0"
    and "relay_text_helper m r up (c0, s0) = (None, c', s')"
  shows "paid s0 tid t u (q - pre) s' \<and> (\<exists>x. request_costs s' (m_request_id m) = Some (x, q))"
  using success_end [OF assms(1-6) order.strict_implies_order [OF assms(7)] assms(8-13) assms(16)] assms(7,14,15) by simp

lemma unmarked_transport_undercharges_witness:
  "case relay_text_helper example_meta example_text (example_answer\<lparr>up_transport := OwnTransport\<rparr>)
      (fresh_context, example_shop) of (err, c', s') \<Rightarrow>
     paid example_shop 5 rich_token rich_user (- 30) s' \<and> (\<exists>x. request_costs s' ''r'' = Some (x, 120))"
proof -
  let ?up = "example_answer\<lparr>up_transport := OwnTransport\<rparr>"
  obtain s1 where a: "text_admission example_meta example_text example_shop =
      (Inr (example_usage 100 0, example_prices_of, 2, 150), s1)" using example_admitted by blast
  obtain c' s' where r: "relay_text_helper example_meta example_text ?up (fresh_context, example_shop) = (None, c', s')"
    using example_runs(2) [of fresh_context]
    by (cases "relay_text_helper example_meta example_text ?up (fresh_context, example_shop)") auto
  have cost: "text_cost example_meta example_prices_of 100 ?up (example_usage 100 10) (prices_of example_shop) = 120"
    using example_cost by (simp add: text_cost_def billed_usage_def add_output_charges_def)
  have "paid example_shop 5 rich_token rich_user (120 - 150) s' \<and> (\<exists>x. request_costs s' (m_request_id example_meta) = Some (x, 120))"
    by (rule unmarked_transport_undercharges [OF example_shop_start a _ _ _ _ _ _ _ _ _ r, of "example_usage 100 10"])
      (simp_all add: cost example_affords example_fields fresh_context_def)
  then show ?thesis by (simp add: r example_fields)
qed

text \<open>
  C23. A request that fails before it was forwarded, at its first attempt, is refunded: the deferred check
  returns the whole reservation.
\<close>

theorem unforwarded_failure_refunded:
  assumes s: "calm s0" "\<not> redis_enabled s0" "owned s0 tid t u" "in_i64 (u_quota u)" and rq: "request_for m r tid t"
    and a: "text_admission m r s0 = (Inr (pu, i, cr, pre), s1)" "0 \<le> pre"
    and h: "up_transport up = HelperTransport" and c0: "\<not> billing_reconciled c0"
    and r: "relay_text_helper m r up (c0, s0) = (err, c', s')" and nf: "\<not> possibly_forwarded c'"
  shows "paid s0 tid t u 0 s' \<and> err \<in> {Some ConvertRequestFailed, Some DoRequestFailed}"
proof -
  from relay_start [OF paid_start [OF s(1-3)] rq a r] obtain c s2 s3 where
    st: "stands s0 tid t u pre (prices_of s0) s2" and aff: "0 < pre \<longrightarrow> affords t u pre"
    and x: "text_exchange m r pu i cr pre (tracker_for m r i (prompt_tokens pu) pre) up (c, s2) = (err, c', s3)"
    and s': "s' = billing_audit_safety_net tid c' s3"
    and c: "billing_reconciled c = billing_reconciled c0" "pre_consumed_amount c = Some pre" .
  have "s3 = s2 \<and> billing_reconciled c' = billing_reconciled c \<and> pre_consumed_amount c' = pre_consumed_amount c \<and>
      err \<in> {Some ConvertRequestFailed, Some DoRequestFailed}"
    using x nf h by (auto simp: text_exchange_def do_request_def do_request_helper_def Let_def
        dest!: answer_context conservative_context split: if_splits sum.splits prod.splits option.splits)
  moreover have "in_i64 pre" using a(2) aff s(4) by (cases "0 < pre") (auto simp: affords_def in_i64_def)
  ultimately show ?thesis
    using stands_refund [OF st, of pre] st c c0 nf a(2)
    by (auto simp: s' billing_audit_safety_net_def should_skip_pre_consumed_refund_def stands_def order.strict_iff_order)
qed

lemma unforwarded_failure_refunded_witness:
  "case relay_text_helper example_meta example_text example_unbuilt (fresh_context, example_shop) of (err, c', s') \<Rightarrow>
     paid example_shop 5 rich_token rich_user 0 s' \<and> err = Some DoRequestFailed"
proof -
  obtain s1 where a: "text_admission example_meta example_text example_shop =
      (Inr (example_usage 100 0, example_prices_of, 2, 150), s1)" using example_admitted by blast
  obtain err c' s' where r: "relay_text_helper example_meta example_text example_unbuilt (fresh_context, example_shop) = (err, c', s')"
    by (cases "relay_text_helper example_meta example_text example_unbuilt (fresh_context, example_shop)") auto
  then have x: "err = Some DoRequestFailed" "\<not> possibly_forwarded c'"
    by (auto simp: relay_text_helper_def a text_exchange_def Let_def do_request_def do_request_helper_def
        example_unbuilt_def example_fields fresh_context_def mark_pre_consumed_def split: prod.splits)
  have "paid example_shop 5 rich_token rich_user 0 s' \<and> err \<in> {Some ConvertRequestFailed, Some DoRequestFailed}"
    by (rule unforwarded_failure_refunded [OF example_shop_start a _ _ _ r x(2)])
      (simp_all add: example_unbuilt_def example_answer_def fresh_context_def)
  then show ?thesis by (simp add: r x(1))
qed

text \<open>The failed attempt that was forwarded, shared by the retries.\<close>

lemma failed_attempt_keeps_reservation:
  assumes s: "calm s0" "\<not> redis_enabled s0" "owned s0 tid t u" "in_i64 (u_quota u)" and rq: "request_for m r tid t"
    and a: "text_admission m r s0 = (Inr (pu, i, cr, pre), s1)" "0 \<le> pre"
    and ns: "\<not> tr_stream r"
    and r: "relay_text_helper m r up (c0, s0) = (Some e, c', s')" and fw: "possibly_forwarded c'"
  shows "paid s0 tid t u pre s' \<and> prices_of s' = prices_of s0 \<and>
    (\<forall>st. e = UpstreamHttpError st \<longrightarrow> (\<exists>x. request_costs s' (m_request_id m) = Some (x, 0)))"
proof -
  from relay_start [OF paid_start [OF s(1-3)] rq a r] obtain c s2 s3 where
    st: "stands s0 tid t u pre (prices_of s0) s2" and aff: "0 < pre \<longrightarrow> affords t u pre"
    and x: "text_exchange m r pu i cr pre (tracker_for m r i (prompt_tokens pu) pre) up (c, s2) = (Some e, c', s3)"
    and s': "s' = billing_audit_safety_net tid c' s3" .
  have s3: "s' = s3" by (simp add: s' safety_net_forwarded [OF fw])
  have ip: "in_i64 pre" using a(2) aff s(4) by (cases "0 < pre") (auto simp: affords_def in_i64_def)
  have tid: "m_token_id m = tid" using rq by (simp add: request_for_def)
  obtain res c1 where d: "do_request up c = (res, c1)" by (cases "do_request up c")
  show ?thesis
  proof (cases "\<not> up_convert_ok up \<or> (\<exists>n. res = Inl n)")
    case True
    then have "s3 = s2 \<and> (e = ConvertRequestFailed \<or> e = DoRequestFailed)"
      using x d by (auto simp: text_exchange_def split: if_splits)
    then show ?thesis using st by (auto simp: s3 stands_def)
  next
    case False
    then obtain resp where resp: "res = Inr resp" and conv: "up_convert_ok up" by (cases res) auto
    obtain est s4 where es: "estimate_pre_consumed_quota m r pu i cr s2 = (est, s4)"
      by (cases "estimate_pre_consumed_quota m r pu i cr s2")
    let ?s5 = "record_request_cost m est s4"
    have s5: "stands s0 tid t u pre (prices_of s0) ?s5"
      using stands_record_cost [OF stands_estimate [OF st es]] by blast
    obtain b c6 s6 where ret: "return_pre_consumed_quota_conservative pre tid (c1, ?s5) = (b, c6, s6)"
      by (cases "return_pre_consumed_quota_conservative pre tid (c1, ?s5)") auto
    show ?thesis
    proof (cases "is_error_happened m (tr_stream r) resp")
      case True
      have "c' = c6" and s3': "s3 = snd (update_user_request_cost_quota_by_request_id (m_user_id m) (m_request_id m) 0 s6)"
        using x by (auto simp: text_exchange_def conv d resp es True tid ret Let_def)
      with fw conservative_context [OF ret] have "possibly_forwarded c1" by simp
      with conservative_refund [OF s5 ip ret] have "stands s0 tid t u pre (prices_of s0) s6" by simp
      from stands_update_cost [OF this, of "m_user_id m" "m_request_id m" 0] rq show ?thesis
        by (simp add: s3 s3' stands_def request_for_def)
    next
      case ok: False
      have ans: "text_answer m r i (prompt_tokens pu) pre None up (c1, ?s5) = (Some e, c', s3)"
        using x ns ok by (simp add: text_exchange_def conv d resp es tracker_for_def Let_def)
      then have "c' = c6" "s3 = s6" and e: "\<exists>n. e = DoResponseFailed n"
        by (auto simp: text_answer_def text_settle_def tid ret Let_def split: option.splits prod.splits)
      with fw conservative_context [OF ret] have "possibly_forwarded c1" by simp
      with conservative_refund [OF s5 ip ret] have "stands s0 tid t u pre (prices_of s0) s6" by simp
      then show ?thesis using e by (auto simp: s3 \<open>s3 = s6\<close> stands_def)
    qed
  qed
qed



end
