(* ===== verification/Channels.thy ===== *)
theory Channels
  imports PricingConfig "HOL-Library.List_Lexorder"
begin

text \<open>
  Which channel serves a request: the abilities of the channels (\<open>model/ability.go\<close>), the cache built from
  them and the selection from both (\<open>model/cache.go\<close>). A random number generator is a function that gives for
  \<open>n > 0\<close> a number below \<open>n\<close> (\<open>rand.Intn\<close>, and \<open>ORDER BY RANDOM()\<close> with the first row taken). The order
  \<open>sort.Slice\<close> leaves equal priorities in is unspecified in Go; here it is the order of the table. Times are
  nanoseconds.
\<close>

subsection \<open>Channels and abilities\<close>

text \<open>The parts of the configuration that routing uses.\<close>

record channel_config =
  cc_supported_endpoints :: "string list"
  cc_supports_vision :: bool
  cc_vision_models :: "string list"

record channel_row =
  ch_id :: int
  ch_type :: int
  ch_status :: int
  ch_name :: string
  ch_group :: string
  ch_models :: string
  ch_priority :: "int option"
  ch_rate_limit :: "int option"
  ch_model_configs :: "price_table option"
  ch_model_mapping :: "(string, string) gomap option"
  ch_system_prompt :: "string option"
  ch_config :: "channel_config option"             \<comment> \<open>empty where there is none\<close>
  ch_testing_model :: "string option"

record ability =
  ab_group :: string
  ab_model :: string
  ab_channel_id :: int
  ab_enabled :: bool
  ab_priority :: int                               \<comment> \<open>a nil pointer is stored as the column default 0\<close>
  ab_suspend_until :: "int option"

definition channel_status_enabled :: int where "channel_status_enabled = 1"
definition channel_status_manually_disabled :: int where "channel_status_manually_disabled = 2"
definition channel_status_auto_disabled :: int where "channel_status_auto_disabled = 3"

definition get_priority :: "channel_row \<Rightarrow> int" where
  "get_priority c = (case ch_priority c of None \<Rightarrow> 0 | Some p \<Rightarrow> p)"

definition get_model_mapping :: "channel_row \<Rightarrow> (string, string) gomap" where
  "get_model_mapping c = (case ch_model_mapping c of None \<Rightarrow> [] | Some m \<Rightarrow> m)"

definition load_config :: "channel_row \<Rightarrow> channel_config" where
  "load_config c = (case ch_config c of
     None \<Rightarrow> \<lparr>cc_supported_endpoints = [], cc_supports_vision = False, cc_vision_models = []\<rparr>
   | Some cfg \<Rightarrow> cfg)"

definition get_supported_endpoints :: "channel_row \<Rightarrow> string list" where
  "get_supported_endpoints c = cc_supported_endpoints (load_config c)"

definition split_comma :: "string \<Rightarrow> string list" where
  "split_comma s = split_on CHR '','' s"

definition equal_fold :: "string \<Rightarrow> string \<Rightarrow> bool" where
  "equal_fold a b \<longleftrightarrow> to_lower a = to_lower b"

definition get_supported_model_names :: "channel_row \<Rightarrow> string list" where
  "get_supported_model_names c =
     (let models = trim_space (ch_models c) in
      if models = [] then [] else filter (\<lambda>p. p \<noteq> []) (map trim_space (split_comma models)))"

definition supports_model :: "channel_row \<Rightarrow> string \<Rightarrow> bool" where
  "supports_model c name =
     (let name = trim_space name; supported = get_supported_model_names c in
      if name = [] then True
      else if supported = [] then True
      else if \<exists>s \<in> set supported. equal_fold s name then True
      else
        let mapped = trim_space (case map_of (get_model_mapping c) name of None \<Rightarrow> [] | Some m \<Rightarrow> m) in
        mapped \<noteq> [] \<and> (\<exists>s \<in> set supported. equal_fold s mapped))"

text \<open>\<open>GetModelConfig\<close> as far as it is used here: the \<open>MaxTokens\<close> of a model.\<close>

definition get_max_tokens :: "channel_row \<Rightarrow> string \<Rightarrow> int option" where
  "get_max_tokens c name = map_option lc_max_tokens (get_model_price_config (ch_model_configs c) name)"

definition ability_id :: "ability \<Rightarrow> string \<times> string \<times> int" where
  "ability_id a = (ab_group a, ab_model a, ab_channel_id a)"

text \<open>
  A statement of the database may fail: \<open>stmt\<close> tells which ones succeed, by name. \<open>DB.Create\<close> inserts all
  rows or, when it fails or the primary key is not unique, none.
\<close>

type_synonym outcomes = "string \<Rightarrow> bool"

definition new_abilities :: "channel_row \<Rightarrow> ability list" where
  "new_abilities c = concat (map (\<lambda>m. map (\<lambda>g.
      \<lparr>ab_group = g, ab_model = m, ab_channel_id = ch_id c, ab_enabled = (ch_status c = channel_status_enabled),
       ab_priority = get_priority c, ab_suspend_until = None\<rparr>) (split_comma (ch_group c)))
     (remdups (split_comma (ch_models c))))"

definition add_abilities :: "outcomes \<Rightarrow> channel_row \<Rightarrow> ability list \<Rightarrow> bool \<times> ability list" where
  "add_abilities stmt c abl =
     (if stmt ''add abilities'' \<and> distinct (map ability_id (abl @ new_abilities c))
      then (True, abl @ new_abilities c) else (False, abl))"

definition delete_abilities :: "outcomes \<Rightarrow> int \<Rightarrow> ability list \<Rightarrow> bool \<times> ability list" where
  "delete_abilities stmt cid abl =
     (if stmt ''delete abilities'' then (True, filter (\<lambda>a. ab_channel_id a \<noteq> cid) abl) else (False, abl))"

definition update_abilities :: "outcomes \<Rightarrow> channel_row \<Rightarrow> ability list \<Rightarrow> bool \<times> ability list" where
  "update_abilities stmt c abl =
     (let (ok, abl) = delete_abilities stmt (ch_id c) abl in
      if \<not> ok then (False, abl) else add_abilities stmt c abl)"

definition update_ability_status :: "outcomes \<Rightarrow> int \<Rightarrow> bool \<Rightarrow> ability list \<Rightarrow> ability list" where
  "update_ability_status stmt cid status abl =
     (if stmt ''update ability status''
      then map (\<lambda>a. if ab_channel_id a = cid then a\<lparr>ab_enabled := status\<rparr> else a) abl else abl)"

definition suspend_ability ::
  "string \<Rightarrow> string \<Rightarrow> int \<Rightarrow> int \<Rightarrow> int \<Rightarrow> ability list \<Rightarrow> bool \<times> ability list" where
  "suspend_ability g m cid duration now abl =
     (if g = [] \<or> m = [] \<or> cid = 0 then (False, abl)
      else (True, map (\<lambda>a. if ability_id a = (g, m, cid) then a\<lparr>ab_suspend_until := Some (now + duration)\<rparr> else a) abl))"

definition not_suspended :: "int \<Rightarrow> ability \<Rightarrow> bool" where
  "not_suspended now a = (case ab_suspend_until a of None \<Rightarrow> True | Some t \<Rightarrow> t < now)"

subsection \<open>Selection in the database\<close>

definition available_abilities ::
  "string \<Rightarrow> string \<Rightarrow> int list \<Rightarrow> int \<Rightarrow> ability list \<Rightarrow> ability list" where
  "available_abilities g m exclude now abl =
     filter (\<lambda>a. ab_group a = g \<and> ab_model a = m \<and> ab_enabled a \<and> not_suspended now a \<and>
       ab_channel_id a \<notin> set exclude) abl"

definition max_priority :: "int list \<Rightarrow> int" where
  "max_priority ps = fold max ps (hd ps)"

definition ability_candidates :: "bool \<Rightarrow> ability list \<Rightarrow> ability list" where
  "ability_candidates ignore_first available =
     (let top = max_priority (map ab_priority available) in
      filter (\<lambda>a. if ignore_first then ab_priority a < top else ab_priority a = top) available)"

definition get_random_satisfied_channel_excluding ::
  "(nat \<Rightarrow> nat) \<Rightarrow> string \<Rightarrow> string \<Rightarrow> bool \<Rightarrow> int list \<Rightarrow> int \<Rightarrow> channel_row list \<Rightarrow> ability list \<Rightarrow>
   string + channel_row" where
  "get_random_satisfied_channel_excluding rnd g m ignore_first exclude now channels abl =
     (let available = available_abilities g m exclude now abl;
          candidates = ability_candidates ignore_first available in
      if \<not> ignore_first \<and> available = [] then Inl ''no channels available for model''
      else if candidates = [] then Inl ''record not found''
      else
        let a = candidates ! rnd (length candidates) in
        (case find (\<lambda>c. ch_id c = ab_channel_id a) channels of
           None \<Rightarrow> Inl ''record not found''
         | Some c \<Rightarrow> if supports_model c m then Inr c else Inl ''channel does not list support for model''))"

definition get_random_satisfied_channel ::
  "(nat \<Rightarrow> nat) \<Rightarrow> string \<Rightarrow> string \<Rightarrow> bool \<Rightarrow> int \<Rightarrow> channel_row list \<Rightarrow> ability list \<Rightarrow> string + channel_row" where
  "get_random_satisfied_channel rnd g m ignore_first = get_random_satisfied_channel_excluding rnd g m ignore_first []"

text \<open>
  The models of a group, and what waits for suspended abilities. Scanning the \<open>MIN\<close> of no row, a \<open>NULL\<close>, into
  a \<open>time.Time\<close> is an error of \<open>database/sql\<close>.
\<close>

definition ability_in :: "string \<Rightarrow> string \<Rightarrow> ability \<Rightarrow> bool" where
  "ability_in g m a \<longleftrightarrow> ab_group a = g \<and> ab_model a = m \<and> ab_enabled a"

definition get_group_models :: "string \<Rightarrow> int \<Rightarrow> ability list \<Rightarrow> string list" where
  "get_group_models g now abl =
     sort_key (map (of_char :: char \<Rightarrow> nat))
       (remdups (map ab_model (filter (\<lambda>a. ab_group a = g \<and> ab_enabled a \<and> not_suspended now a) abl)))"

definition suspensions :: "ability list \<Rightarrow> int list" where
  "suspensions abl = List.map_filter ab_suspend_until abl"

definition get_soonest_suspend_until :: "string \<Rightarrow> string \<Rightarrow> int \<Rightarrow> ability list \<Rightarrow> string + int" where
  "get_soonest_suspend_until g m now abl =
     (case filter (\<lambda>t. t > now) (suspensions (filter (ability_in g m) abl)) of
        [] \<Rightarrow> Inl ''scan soonest suspend_until''
      | t # ts \<Rightarrow> Inr (fold min ts t))"

record channel_pool_status =
  ps_total :: nat
  ps_available :: nat
  ps_suspended :: nat
  ps_soonest :: "int option"

definition get_channel_pool_status :: "string \<Rightarrow> string \<Rightarrow> int \<Rightarrow> ability list \<Rightarrow> channel_pool_status" where
  "get_channel_pool_status g m now abl =
     (let rows = filter (ability_in g m) abl;
          available = length (filter (not_suspended now) rows) in
      \<lparr>ps_total = length rows, ps_available = available, ps_suspended = length rows - available,
       ps_soonest = (case filter (\<lambda>t. t \<ge> now) (suspensions rows) of [] \<Rightarrow> None | t # ts \<Rightarrow> Some (fold min ts t))\<rparr>)"

subsection \<open>The cache\<close>

type_synonym channel_cache = "string \<Rightarrow> string \<Rightarrow> channel_row list"

definition ability_key :: "string \<Rightarrow> string \<Rightarrow> int \<Rightarrow> string" where
  "ability_key g m cid = g @ '':'' @ m @ '':'' @ itoa cid"

definition valid_ability_keys :: "int \<Rightarrow> channel_row list \<Rightarrow> ability list \<Rightarrow> string list" where
  "valid_ability_keys now enabled abl =
     map (\<lambda>a. ability_key (ab_group a) (ab_model a) (ab_channel_id a))
       (filter (\<lambda>a. ab_enabled a \<and> not_suspended now a \<and> ab_channel_id a \<in> set (map ch_id enabled)) abl)"

text \<open>The entry of a group and a model: what the nested loops append to it, sorted by descending priority.\<close>

definition init_channel_cache :: "int \<Rightarrow> channel_row list \<Rightarrow> ability list \<Rightarrow> channel_cache" where
  "init_channel_cache now channels abl g m =
     (let enabled = filter (\<lambda>c. ch_status c = channel_status_enabled) channels;
          keys = valid_ability_keys now enabled abl in
      sort_key (\<lambda>c. - get_priority c)
        (concat (map (\<lambda>c. concat (map (\<lambda>group_name. concat (map (\<lambda>model_name.
             if group_name = g \<and> model_name = m \<and> ability_key group_name model_name (ch_id c) \<in> set keys
             then [c] else []) (split_comma (ch_models c)))) (split_comma (ch_group c)))) enabled)))"

definition get_channels_from_cache :: "bool \<Rightarrow> channel_cache \<Rightarrow> string \<Rightarrow> string \<Rightarrow> string + channel_row list" where
  "get_channels_from_cache memory_cache cache g m =
     (if \<not> memory_cache then Inl ''MemoryCache is disabled''
      else if cache g m = [] then Inl ''channel not found in memory cache''
      else Inr (cache g m))"

text \<open>The index where the first tier ends; with a priority that is not positive all channels are one tier.\<close>

definition first_tier_end :: "channel_row list \<Rightarrow> nat" where
  "first_tier_end cs =
     (if get_priority (hd cs) > 0 then length (takeWhile (\<lambda>c. get_priority c = get_priority (hd cs)) cs)
      else length cs)"

text \<open>Zero, or no configuration, is no limit: it sorts last.\<close>

definition limit_key :: "string \<Rightarrow> channel_row \<Rightarrow> bool \<times> int" where
  "limit_key m c = (case get_max_tokens c m of None \<Rightarrow> (True, 0) | Some n \<Rightarrow> if n = 0 then (True, 0) else (False, n))"

text \<open>The loop that ends the tier at the first other limit; \<open>None\<close> is the nil dereference.\<close>

fun same_limit_end :: "string \<Rightarrow> int \<Rightarrow> channel_row list \<Rightarrow> nat option" where
  "same_limit_end m limit [] = Some 0"
| "same_limit_end m limit (c # cs) =
     (case get_max_tokens c m of
        None \<Rightarrow> None
      | Some n \<Rightarrow> if n \<noteq> limit then Some 0 else map_option Suc (same_limit_end m limit cs))"

definition by_limit :: "string \<Rightarrow> channel_row list \<Rightarrow> channel_row list" where
  "by_limit m cs =
     sort_key (\<lambda>c. snd (limit_key m c)) (filter (\<lambda>c. \<not> fst (limit_key m c)) cs) @
     filter (\<lambda>c. fst (limit_key m c)) cs"

definition rand_range :: "(nat \<Rightarrow> nat) \<Rightarrow> nat \<Rightarrow> nat \<Rightarrow> nat" where
  "rand_range rnd lo hi = (if lo = hi then lo else lo + rnd (hi - lo))"

definition cache_get_random_satisfied_channel ::
  "bool \<Rightarrow> (nat \<Rightarrow> nat) \<Rightarrow> bool \<Rightarrow> channel_cache \<Rightarrow> channel_row list \<Rightarrow> ability list \<Rightarrow> int \<Rightarrow> string \<Rightarrow> string \<Rightarrow>
   bool \<Rightarrow> (string + channel_row) option" where
  "cache_get_random_satisfied_channel memory_cache rnd use_min_tokens cache channels abl now g m ignore_first =
     (let cs = cache g m in
      if \<not> memory_cache then Some (get_random_satisfied_channel rnd g m ignore_first now channels abl)
      else if cs = [] then Some (Inl ''channel not found in memory cache'')
      else
        let end_idx = first_tier_end cs in
        (case (if \<not> use_min_tokens then Some (end_idx, cs)
               else
                 let cs = by_limit m (take end_idx cs) in
                 (case get_max_tokens (hd cs) m of
                    None \<Rightarrow> None
                  | Some limit \<Rightarrow>
                      if limit > 0 then map_option (\<lambda>e. (e, cs)) (same_limit_end m limit cs)
                      else Some (end_idx, cs))) of
           None \<Rightarrow> None
         | Some (end_idx, cs) \<Rightarrow>
             Some (Inr (cs ! (if ignore_first \<and> end_idx < length cs
               then rand_range rnd end_idx (length cs) else rnd end_idx)))))"

definition larger_max_tokens :: "string \<Rightarrow> int list \<Rightarrow> channel_row list \<Rightarrow> channel_row list \<Rightarrow> channel_row list" where
  "larger_max_tokens m exclude cached candidates =
     (let smaller = List.map_filter (\<lambda>c. if ch_id c \<in> set exclude then get_max_tokens c m else None) cached in
      filter (\<lambda>c. case get_max_tokens c m of None \<Rightarrow> True | Some n \<Rightarrow> n \<notin> set smaller) candidates)"

text \<open>The choice among the channels that are left.\<close>

definition choose_cached :: "(nat \<Rightarrow> nat) \<Rightarrow> bool \<Rightarrow> channel_row list \<Rightarrow> string + channel_row" where
  "choose_cached rnd ignore_first candidates =
     (if candidates = [] then Inl ''no available channels support model after exclusions''
      else if ignore_first then
        let end_idx = first_tier_end candidates in
        (if end_idx < length candidates then Inr (candidates ! rand_range rnd end_idx (length candidates))
         else Inl ''no lower priority channels available after excluding failed channels'')
      else
        let top = max_priority (map get_priority candidates);
            tier = filter (\<lambda>c. get_priority c = top) candidates in
        Inr (tier ! rnd (length tier)))"

definition cache_get_random_satisfied_channel_excluding ::
  "(nat \<Rightarrow> nat) \<Rightarrow> channel_cache \<Rightarrow> string \<Rightarrow> string \<Rightarrow> bool \<Rightarrow> int list \<Rightarrow> bool \<Rightarrow> string + channel_row" where
  "cache_get_random_satisfied_channel_excluding rnd cache g m ignore_first exclude try_larger =
     (let cached = cache g m in
      if cached = [] then Inl ''channel not found in memory cache''
      else
        let candidates = filter (\<lambda>c. ch_id c \<notin> set exclude) cached;
            candidates = (if try_larger then larger_max_tokens m exclude cached candidates else candidates) in
        choose_cached rnd ignore_first candidates)"

text \<open>The entry point: without the memory cache the database is asked, and \<open>tryLargerMaxTokens\<close> is ignored.\<close>

definition select_channel_excluding ::
  "bool \<Rightarrow> (nat \<Rightarrow> nat) \<Rightarrow> channel_cache \<Rightarrow> channel_row list \<Rightarrow> ability list \<Rightarrow> int \<Rightarrow> string \<Rightarrow> string \<Rightarrow> bool \<Rightarrow>
   int list \<Rightarrow> bool \<Rightarrow> string + channel_row" where
  "select_channel_excluding memory_cache rnd cache channels abl now g m ignore_first exclude try_larger =
     (if \<not> memory_cache then get_random_satisfied_channel_excluding rnd g m ignore_first exclude now channels abl
      else cache_get_random_satisfied_channel_excluding rnd cache g m ignore_first exclude try_larger)"

subsection \<open>Changing channels\<close>

record channel_store =
  cs_channels :: "channel_row list"
  cs_abilities :: "ability list"
  cs_cache :: channel_cache

text \<open>\<open>c\<close> is the row as stored: its id is given and the column defaults are filled in.\<close>

definition refresh_cache :: "int \<Rightarrow> channel_store \<Rightarrow> channel_store" where
  "refresh_cache now st = st\<lparr>cs_cache := init_channel_cache now (cs_channels st) (cs_abilities st)\<rparr>"

definition insert_channel :: "outcomes \<Rightarrow> int \<Rightarrow> channel_row \<Rightarrow> channel_store \<Rightarrow> bool \<times> channel_store" where
  "insert_channel stmt now c st =
     (if \<not> stmt ''create channel'' \<or> ch_id c \<in> set (map ch_id (cs_channels st)) then (False, st)
      else
        let st = st\<lparr>cs_channels := cs_channels st @ [c]\<rparr>;
            (ok, abl) = add_abilities stmt c (cs_abilities st);
            st = st\<lparr>cs_abilities := abl\<rparr> in
        if ok then (True, refresh_cache now st) else (False, st))"

text \<open>\<open>Updates\<close> with a struct changes the fields that are not zero.\<close>

definition merge_channel :: "channel_row \<Rightarrow> channel_row \<Rightarrow> channel_row" where
  "merge_channel old c = old\<lparr>
     ch_type := (if ch_type c = 0 then ch_type old else ch_type c),
     ch_status := (if ch_status c = 0 then ch_status old else ch_status c),
     ch_name := (if ch_name c = [] then ch_name old else ch_name c),
     ch_group := (if ch_group c = [] then ch_group old else ch_group c),
     ch_models := (if ch_models c = [] then ch_models old else ch_models c),
     ch_priority := (if ch_priority c = None then ch_priority old else ch_priority c),
     ch_rate_limit := (if ch_rate_limit c = None then ch_rate_limit old else ch_rate_limit c),
     ch_model_configs := (if ch_model_configs c = None then ch_model_configs old else ch_model_configs c),
     ch_model_mapping := (if ch_model_mapping c = None then ch_model_mapping old else ch_model_mapping c),
     ch_system_prompt := (if ch_system_prompt c = None then ch_system_prompt old else ch_system_prompt c),
     ch_config := (if ch_config c = None then ch_config old else ch_config c),
     ch_testing_model := (if ch_testing_model c = None then ch_testing_model old else ch_testing_model c)\<rparr>"

definition lists_model :: "string \<Rightarrow> string \<Rightarrow> bool" where
  "lists_model csv name \<longleftrightarrow> name \<in> set (map trim_space (split_comma csv))"

text \<open>The testing model of the request, and whether the stored one is cleared.\<close>

definition check_testing_model :: "channel_row \<Rightarrow> channel_row \<Rightarrow> string option \<times> bool" where
  "check_testing_model existing c =
     (let models = (if trim_space (ch_models c) = [] then ch_models existing else ch_models c) in
      case ch_testing_model c of
        Some m \<Rightarrow>
          let tm = trim_space m in
          if tm = [] \<or> \<not> lists_model models tm then (None, True) else (Some m, False)
      | None \<Rightarrow>
          (None, (case ch_testing_model existing of
             None \<Rightarrow> False
           | Some m \<Rightarrow> m \<noteq> [] \<and> \<not> lists_model models m)))"

definition replace_channel :: "channel_row \<Rightarrow> channel_row list \<Rightarrow> channel_row list" where
  "replace_channel c cs = map (\<lambda>d. if ch_id d = ch_id c then c else d) cs"

text \<open>
  A channel that is not stored changes no row: the reading back finds none, and the abilities are made from the
  request.
\<close>

definition update_channel :: "outcomes \<Rightarrow> int \<Rightarrow> channel_row \<Rightarrow> channel_store \<Rightarrow> bool \<times> channel_store" where
  "update_channel stmt now c st =
     (let stored = find (\<lambda>d. ch_id d = ch_id c) (cs_channels st);
          (testing, clear) = (case stored of
             Some old \<Rightarrow> check_testing_model old c
           | None \<Rightarrow> check_testing_model (c\<lparr>ch_models := [], ch_testing_model := None\<rparr>) c);
          c = c\<lparr>ch_testing_model := testing\<rparr> in
      if \<not> stmt ''update channel'' then (False, st)
      else
        let c = (case stored of Some old \<Rightarrow> merge_channel old c | None \<Rightarrow> c);
            st = st\<lparr>cs_channels := replace_channel c (cs_channels st)\<rparr> in
        if clear \<and> \<not> stmt ''clear testing model'' then (False, st)
        else
          let c = (if clear then c\<lparr>ch_testing_model := None\<rparr> else c);
              st = st\<lparr>cs_channels := replace_channel c (cs_channels st)\<rparr>;
              (ok, abl) = update_abilities stmt c (cs_abilities st);
              st = st\<lparr>cs_abilities := abl\<rparr> in
          if ok then (True, refresh_cache now st) else (False, st))"

definition delete_channel :: "outcomes \<Rightarrow> int \<Rightarrow> int \<Rightarrow> channel_store \<Rightarrow> bool \<times> channel_store" where
  "delete_channel stmt now cid st =
     (if \<not> stmt ''delete channel'' then (False, st)
      else
        let st = st\<lparr>cs_channels := filter (\<lambda>c. ch_id c \<noteq> cid) (cs_channels st)\<rparr>;
            (ok, abl) = delete_abilities stmt cid (cs_abilities st);
            st = st\<lparr>cs_abilities := abl\<rparr> in
        if ok then (True, refresh_cache now st) else (False, st))"

definition update_channel_status_by_id :: "outcomes \<Rightarrow> int \<Rightarrow> int \<Rightarrow> int \<Rightarrow> channel_store \<Rightarrow> channel_store" where
  "update_channel_status_by_id stmt now cid status st =
     (let st = st\<lparr>cs_abilities := update_ability_status stmt cid (status = channel_status_enabled) (cs_abilities st)\<rparr> in
      if stmt ''update channel status'' then
        refresh_cache now (st\<lparr>cs_channels :=
          map (\<lambda>c. if ch_id c = cid then c\<lparr>ch_status := status\<rparr> else c) (cs_channels st)\<rparr>)
      else st)"

definition delete_channels_where ::
  "(channel_row \<Rightarrow> bool) \<Rightarrow> outcomes \<Rightarrow> int \<Rightarrow> channel_store \<Rightarrow> nat \<times> bool \<times> channel_store" where
  "delete_channels_where p stmt now st =
     (if stmt ''delete channel'' then
        (length (filter p (cs_channels st)), True,
         refresh_cache now (st\<lparr>cs_channels := filter (\<lambda>c. \<not> p c) (cs_channels st)\<rparr>))
      else (0, False, st))"

definition delete_channel_by_status :: "int \<Rightarrow> outcomes \<Rightarrow> int \<Rightarrow> channel_store \<Rightarrow> nat \<times> bool \<times> channel_store" where
  "delete_channel_by_status status = delete_channels_where (\<lambda>c. ch_status c = status)"

definition delete_disabled_channel :: "outcomes \<Rightarrow> int \<Rightarrow> channel_store \<Rightarrow> nat \<times> bool \<times> channel_store" where
  "delete_disabled_channel =
     delete_channels_where (\<lambda>c. ch_status c = channel_status_auto_disabled \<or> ch_status c = channel_status_manually_disabled)"

end
