(* ===== verification/ChannelChoice.thy ===== *)
theory ChannelChoice
  imports Channels
begin

text \<open>
  What \<open>Channels\<close> promises: the operations keep the abilities of the channels matching them, and with matching
  abilities a fresh cache selects exactly the channels the database does.
\<close>

subsection \<open>Model names in a list\<close>

lemma split_on_snoc:
  "split_on sep (s @ [x]) = (if x = sep then split_on sep s @ [[]]
     else butlast (split_on sep s) @ [last (split_on sep s) @ [x]])"
proof (induction s)
  case (Cons c s)
  obtain p ps where "split_on sep s = p # ps" using split_on_nonempty by (metis neq_Nil_conv)
  with Cons show ?case by (auto split: list.splits)
qed simp

lemma trim_space_cons: "is_space c \<Longrightarrow> trim_space (c # s) = trim_space s"
  by (simp add: trim_space_def)

lemma trim_space_snoc:
  assumes "is_space c"
  shows "trim_space (s @ [c]) = trim_space s"
proof (cases "\<forall>x \<in> set s. is_space x")
  case True
  then have "dropWhile is_space s = []" "dropWhile is_space (s @ [c]) = dropWhile is_space [c]" by auto
  then show ?thesis unfolding trim_space_def by (simp only: assms dropWhile.simps if_True)
next
  case False
  then have "dropWhile is_space (s @ [c]) = dropWhile is_space s @ [c]"
    by (metis dropWhile_append1)
  with assms show ?thesis by (simp add: trim_space_def)
qed

lemma split_dropWhile:
  assumes "\<not> is_space sep"
  shows "map trim_space (split_on sep (dropWhile is_space s)) = map trim_space (split_on sep s)"
proof (induction s)
  case (Cons c s)
  obtain p ps where "split_on sep s = p # ps" using split_on_nonempty by (metis neq_Nil_conv)
  with Cons assms show ?case by (auto simp: trim_space_cons)
qed simp

lemma split_drop_end:
  assumes "\<not> is_space sep"
  shows "map trim_space (split_on sep (rev (dropWhile is_space s))) = map trim_space (split_on sep (rev s))"
proof (induction s)
  case (Cons c s)
  show ?case
  proof (cases "is_space c")
    case True
    have "map trim_space (split_on sep (rev s @ [c])) = map trim_space (split_on sep (rev s))"
      using True assms by (auto simp: split_on_snoc trim_space_snoc)
        (metis append_butlast_last_id last_map list.map_disc_iff map_butlast split_on_nonempty)
    with Cons True show ?thesis by simp
  qed simp
qed simp

lemma split_trim:
  assumes "\<not> is_space sep"
  shows "map trim_space (split_on sep (trim_space s)) = map trim_space (split_on sep s)"
  using split_drop_end [OF assms, of "rev (dropWhile is_space s)"] split_dropWhile [OF assms, of s]
  by (simp add: trim_space_def)

lemma comma_no_space: "\<not> is_space CHR '',''"
  by code_simp

lemma equal_fold_refl [simp]: "equal_fold s s"
  by (simp add: equal_fold_def)

text \<open>A channel supports every model of its list.\<close>

lemma listed_supported:
  assumes "m \<in> set (split_comma (ch_models c))"
  shows "supports_model c m"
proof (cases "trim_space m = []")
  case False
  have "trim_space m \<in> set (map trim_space (split_comma (trim_space (ch_models c))))"
    using assms by (simp add: split_comma_def split_trim [OF comma_no_space] del: set_map) simp
  moreover from this False have "trim_space (ch_models c) \<noteq> []"
    by (auto simp: split_comma_def)
  ultimately have "trim_space m \<in> set (get_supported_model_names c)"
    using False by (simp add: get_supported_model_names_def Let_def)
  then show ?thesis using equal_fold_refl by (force simp: supports_model_def Let_def)
qed (simp add: supports_model_def)

subsection \<open>Choosing at random\<close>

definition random_choice :: "(nat \<Rightarrow> nat) \<Rightarrow> bool" where
  "random_choice rnd \<longleftrightarrow> (\<forall>n > 0. rnd n < n)"

lemma random_element:
  assumes "xs \<noteq> []"
  shows "(\<exists>rnd. random_choice rnd \<and> xs ! rnd (length xs) = x) \<longleftrightarrow> x \<in> set xs"
proof
  assume "x \<in> set xs"
  then obtain i where "i < length xs" "xs ! i = x" by (auto simp: in_set_conv_nth)
  then have "random_choice (\<lambda>n. if n = length xs then i else 0)" by (simp add: random_choice_def)
  then show "\<exists>rnd. random_choice rnd \<and> xs ! rnd (length xs) = x"
    using \<open>xs ! i = x\<close> by (intro exI [of _ "\<lambda>n. if n = length xs then i else 0"]) simp
qed (use assms in \<open>auto simp: random_choice_def\<close>)

lemma max_priority_Max: "ps \<noteq> [] \<Longrightarrow> max_priority ps = Max (set ps)"
  by (cases ps) (auto simp: max_priority_def Max.set_eq_fold simp del: list.set)

subsection \<open>Keys\<close>

lemma append_colon_eq:
  "c \<notin> set a \<Longrightarrow> c \<notin> set b \<Longrightarrow> a @ c # x = b @ c # y \<longleftrightarrow> a = b \<and> x = y"
proof (induction a arbitrary: b)
  case Nil
  then show ?case by (cases b) auto
next
  case (Cons d a)
  then show ?case by (cases b) auto
qed

lemma colon_itoa: "CHR '':'' \<notin> set (itoa n)"
  using itoa_chars [of "CHR '':''" n] by (auto simp: is_digit_def)

lemma ability_key_inj:
  assumes "CHR '':'' \<notin> set g" "CHR '':'' \<notin> set h"
  shows "ability_key g m i = ability_key h n j \<longleftrightarrow> g = h \<and> m = n \<and> i = j"
proof
  assume k: "ability_key g m i = ability_key h n j"
  from k append_colon_eq [OF assms, of "m @ '':'' @ itoa i" "n @ '':'' @ itoa j"]
  have "g = h" and "m @ '':'' @ itoa i = n @ '':'' @ itoa j" by (simp_all add: ability_key_def)
  then have "rev (itoa i) @ CHR '':'' # rev m = rev (itoa j) @ CHR '':'' # rev n"
    by (metis append.assoc append_Cons append_Nil rev.simps rev_append rev_rev_ident)
  then have "rev (itoa i) = rev (itoa j) \<and> rev m = rev n"
    by (subst (asm) append_colon_eq) (simp_all add: colon_itoa)
  with \<open>g = h\<close> show "g = h \<and> m = n \<and> i = j" using itoa_inj by auto
qed simp

subsection \<open>Abilities that agree with their channels\<close>

text \<open>
  Every ability of a stored channel is for a model and a group of its lists and has its priority; every enabled
  ability belongs to an enabled channel.
\<close>

definition lists :: "channel_row \<Rightarrow> ability \<Rightarrow> bool" where
  "lists c a \<longleftrightarrow> ab_priority a = get_priority c \<and>
     ab_model a \<in> set (split_comma (ch_models c)) \<and> ab_group a \<in> set (split_comma (ch_group c))"

definition served :: "channel_row list \<Rightarrow> ability \<Rightarrow> bool" where
  "served channels a \<longleftrightarrow> (\<exists>c \<in> set channels. ch_id c = ab_channel_id a \<and> ch_status c = channel_status_enabled)"

definition abilities_match :: "channel_row list \<Rightarrow> ability list \<Rightarrow> bool" where
  "abilities_match channels abl \<longleftrightarrow> distinct (map ch_id channels) \<and>
     (\<forall>a \<in> set abl. (\<forall>c \<in> set channels. ch_id c = ab_channel_id a \<longrightarrow> lists c a) \<and> (ab_enabled a \<longrightarrow> served channels a))"

lemma enabled_channel:
  assumes "abilities_match channels abl" "a \<in> set abl" "ab_enabled a"
  obtains c where "c \<in> set channels" "ch_id c = ab_channel_id a" "ab_priority a = get_priority c"
    "ch_status c = channel_status_enabled" "ab_model a \<in> set (split_comma (ch_models c))"
    "ab_group a \<in> set (split_comma (ch_group c))"
  using assms by (auto simp: abilities_match_def served_def lists_def)

definition plain_groups :: "channel_row list \<Rightarrow> bool" where
  "plain_groups channels \<longleftrightarrow> (\<forall>c \<in> set channels. CHR '':'' \<notin> set (ch_group c))"

lemma split_on_chars: "p \<in> set (split_on sep s) \<Longrightarrow> set p \<subseteq> set s"
proof (induction s arbitrary: p)
  case (Cons c s)
  obtain q ps where s: "split_on sep s = q # ps" using split_on_nonempty by (metis neq_Nil_conv)
  then have "set q \<subseteq> set s" "\<forall>r \<in> set ps. set r \<subseteq> set s" using Cons.IH by auto
  with Cons.prems s show ?case by (fastforce split: if_splits)
qed simp

lemma plain_group_names: "plain_groups channels \<Longrightarrow> c \<in> set channels \<Longrightarrow> g \<in> set (split_comma (ch_group c)) \<Longrightarrow> CHR '':'' \<notin> set g"
  using split_on_chars by (fastforce simp: plain_groups_def split_comma_def)

text \<open>The channels with a usable ability, the reference for both selections.\<close>

definition eligible :: "string \<Rightarrow> string \<Rightarrow> int list \<Rightarrow> int \<Rightarrow> channel_row list \<Rightarrow> ability list \<Rightarrow> channel_row set" where
  "eligible g m exclude now channels abl =
     {c \<in> set channels. ch_id c \<in> set (map ab_channel_id (available_abilities g m exclude now abl))}"

lemma same_channel: "distinct (map ch_id channels) \<Longrightarrow> c \<in> set channels \<Longrightarrow> d \<in> set channels \<Longrightarrow> ch_id c = ch_id d \<Longrightarrow> c = d"
  by (simp add: distinct_map inj_on_def)

lemma available_channel:
  assumes "abilities_match channels abl" "a \<in> set (available_abilities g m exclude now abl)"
  obtains c where "c \<in> eligible g m exclude now channels abl" "ch_id c = ab_channel_id a" "get_priority c = ab_priority a"
    "ch_status c = channel_status_enabled" "m \<in> set (split_comma (ch_models c))" "g \<in> set (split_comma (ch_group c))"
proof -
  from assms(2) have a: "a \<in> set abl" "ab_enabled a" "ab_group a = g" "ab_model a = m" by (auto simp: available_abilities_def)
  then obtain c where "c \<in> set channels" "ch_id c = ab_channel_id a" "ab_priority a = get_priority c"
    "ch_status c = channel_status_enabled" "m \<in> set (split_comma (ch_models c))" "g \<in> set (split_comma (ch_group c))"
    using enabled_channel [OF assms(1) a(1,2)] a(3,4) by metis
  with that assms(2) show ?thesis by (force simp: eligible_def)
qed

lemma eligible_ability:
  assumes "abilities_match channels abl" "c \<in> eligible g m exclude now channels abl"
  obtains a where "a \<in> set (available_abilities g m exclude now abl)" "ab_channel_id a = ch_id c"
    "get_priority c = ab_priority a" "ch_status c = channel_status_enabled" "m \<in> set (split_comma (ch_models c))"
    "g \<in> set (split_comma (ch_group c))" "c \<in> set channels"
proof -
  from assms(2) obtain a where a: "a \<in> set (available_abilities g m exclude now abl)" "ch_id c = ab_channel_id a"
    and c: "c \<in> set channels" by (auto simp: eligible_def)
  from available_channel [OF assms(1) a(1)] obtain d where
    d: "d \<in> eligible g m exclude now channels abl" "ch_id d = ab_channel_id a" "get_priority d = ab_priority a"
      "ch_status d = channel_status_enabled" "m \<in> set (split_comma (ch_models d))" "g \<in> set (split_comma (ch_group d))" .
  have "c = d" using same_channel [of channels c d] assms(1) a(2) c d by (auto simp: abilities_match_def eligible_def)
  with that a c d show ?thesis by simp
qed

lemma usable_channel:
  "cid \<in> set (map ab_channel_id (available_abilities g m [] now abl)) \<longleftrightarrow>
     (\<exists>a \<in> set abl. ab_enabled a \<and> not_suspended now a \<and> ab_group a = g \<and> ab_model a = m \<and> ab_channel_id a = cid)"
  by (auto simp: available_abilities_def)

lemma cache_entry:
  assumes m: "abilities_match channels abl" and p: "plain_groups channels"
  shows "set (init_channel_cache now channels abl g mo) = eligible g mo [] now channels abl"
proof -
  let ?enabled = "filter (\<lambda>c. ch_status c = channel_status_enabled) channels"
  let ?keys = "valid_ability_keys now ?enabled abl"
  have "c \<in> set (init_channel_cache now channels abl g mo) \<longleftrightarrow>
      c \<in> set channels \<and> ch_status c = channel_status_enabled \<and> g \<in> set (split_comma (ch_group c)) \<and>
      mo \<in> set (split_comma (ch_models c)) \<and> ability_key g mo (ch_id c) \<in> set ?keys" for c
    by (auto simp: init_channel_cache_def Let_def split: if_splits)
  moreover have key: "ability_key g mo (ch_id c) \<in> set ?keys \<longleftrightarrow>
      (\<exists>a \<in> set abl. ab_enabled a \<and> not_suspended now a \<and> ab_group a = g \<and> ab_model a = mo \<and> ab_channel_id a = ch_id c)"
    if c: "c \<in> set channels" "ch_status c = channel_status_enabled" "g \<in> set (split_comma (ch_group c))" for c
  proof -
    have "ability_key g mo (ch_id c) = ability_key (ab_group a) (ab_model a) (ab_channel_id a) \<longleftrightarrow>
        g = ab_group a \<and> mo = ab_model a \<and> ch_id c = ab_channel_id a"
      if "a \<in> set abl" "ab_enabled a" for a
    proof (rule ability_key_inj)
      show "CHR '':'' \<notin> set g" using plain_group_names [OF p c(1,3)] .
      from that m obtain d where "d \<in> set channels" "ab_group a \<in> set (split_comma (ch_group d))"
        using enabled_channel by blast
      then show "CHR '':'' \<notin> set (ab_group a)" using plain_group_names [OF p] by blast
    qed
    then show ?thesis using c by (auto simp: valid_ability_keys_def image_iff)
  qed
  ultimately have entry: "c \<in> set (init_channel_cache now channels abl g mo) \<longleftrightarrow>
      c \<in> set channels \<and> ch_status c = channel_status_enabled \<and> g \<in> set (split_comma (ch_group c)) \<and>
      mo \<in> set (split_comma (ch_models c)) \<and> ch_id c \<in> set (map ab_channel_id (available_abilities g mo [] now abl))" for c
    unfolding usable_channel using key by blast
  show ?thesis
  proof
    show "set (init_channel_cache now channels abl g mo) \<subseteq> eligible g mo [] now channels abl"
      by (rule subsetI) (simp only: entry eligible_def mem_Collect_eq)
    show "eligible g mo [] now channels abl \<subseteq> set (init_channel_cache now channels abl g mo)"
    proof
      fix c assume "c \<in> eligible g mo [] now channels abl"
      from eligible_ability [OF m this] this show "c \<in> set (init_channel_cache now channels abl g mo)"
        unfolding entry eligible_def by blast
    qed
  qed
qed

lemma cache_sorted: "sorted (map (\<lambda>c. - get_priority c) (init_channel_cache now channels abl g m))"
  by (simp add: init_channel_cache_def Let_def)

subsection \<open>The two selections\<close>

definition top_tier :: "channel_row set \<Rightarrow> channel_row set" where
  "top_tier S = {c \<in> S. \<forall>d \<in> S. get_priority d \<le> get_priority c}"

definition tier :: "bool \<Rightarrow> channel_row set \<Rightarrow> channel_row set" where
  "tier ignore_first S = (if ignore_first then S - top_tier S else top_tier S)"

definition selectable :: "((nat \<Rightarrow> nat) \<Rightarrow> string + channel_row) \<Rightarrow> channel_row set" where
  "selectable f = {c. \<exists>rnd. random_choice rnd \<and> f rnd = Inr c}"

text \<open>A selection that takes a random element of a list, or fails where the list is empty.\<close>

definition picks :: "((nat \<Rightarrow> nat) \<Rightarrow> string + channel_row) \<Rightarrow> channel_row set \<Rightarrow> bool" where
  "picks f S \<longleftrightarrow> selectable f = S \<and> (S = {} \<longrightarrow> (\<forall>rnd. isl (f rnd))) \<and>
     (S \<noteq> {} \<longrightarrow> (\<forall>rnd. random_choice rnd \<longrightarrow> (\<exists>c \<in> S. f rnd = Inr c)))"

lemma picks_nothing: "(\<And>rnd. isl (f rnd)) \<Longrightarrow> picks f {}"
proof -
  assume f: "\<And>rnd. isl (f rnd)"
  then have "f rnd \<noteq> Inr c" for rnd c by (metis sum.disc(2))
  with f show ?thesis by (simp add: picks_def selectable_def)
qed

lemma picksI:
  assumes "xs \<noteq> []" and f: "\<And>rnd. random_choice rnd \<Longrightarrow> f rnd = Inr (h (xs ! rnd (length xs)))"
  shows "picks f (h ` set xs)"
proof -
  have in_image: "h (xs ! rnd (length xs)) \<in> h ` set xs" if "random_choice rnd" for rnd
    using assms(1) that by (simp add: random_choice_def)
  have "selectable f = h ` set xs"
  proof (intro equalityI subsetI)
    fix c assume "c \<in> selectable f"
    then obtain rnd where "random_choice rnd" "f rnd = Inr c" by (auto simp: selectable_def)
    with f in_image show "c \<in> h ` set xs" by fastforce
  next
    fix c assume "c \<in> h ` set xs"
    then obtain x where "x \<in> set xs" "c = h x" by auto
    with random_element [OF assms(1)] obtain rnd where "random_choice rnd" "xs ! rnd (length xs) = x" by blast
    with f \<open>c = h x\<close> show "c \<in> selectable f" by (auto simp: selectable_def)
  qed
  with f in_image assms(1) show ?thesis by (auto simp: picks_def)
qed

lemma top_tier_nonempty: "finite S \<Longrightarrow> S \<noteq> {} \<Longrightarrow> top_tier S \<noteq> {}"
proof -
  assume S: "finite S" "S \<noteq> {}"
  then obtain c where "c \<in> S" "get_priority c = Max (get_priority ` S)"
    by (metis (mono_tags) Max_in finite_imageI image_iff image_is_empty)
  with S(1) have "c \<in> top_tier S" by (simp add: top_tier_def)
  then show ?thesis by auto
qed

lemma top_tier_Max:
  assumes "finite S" "S \<noteq> {}"
  shows "top_tier S = {c \<in> S. get_priority c = Max (get_priority ` S)}"
    and "S - top_tier S = {c \<in> S. get_priority c < Max (get_priority ` S)}"
proof -
  have eq: "(\<forall>d \<in> S. get_priority d \<le> get_priority c) \<longleftrightarrow> get_priority c = Max (get_priority ` S)" if "c \<in> S" for c
    using assms that by (auto intro!: Max_eqI [symmetric])
  have "get_priority c < Max (get_priority ` S) \<longleftrightarrow> get_priority c \<noteq> Max (get_priority ` S)" if "c \<in> S" for c
    using that assms(1) by (simp add: order.strict_iff_order)
  with eq show "top_tier S = {c \<in> S. get_priority c = Max (get_priority ` S)}"
    "S - top_tier S = {c \<in> S. get_priority c < Max (get_priority ` S)}"
    by (auto simp: top_tier_def)
qed

lemma top_tier_filter:
  "cs \<noteq> [] \<Longrightarrow> set (filter (\<lambda>c. get_priority c = max_priority (map get_priority cs)) cs) = top_tier (set cs)"
  by (simp add: max_priority_Max top_tier_Max)

lemma eligible_exclude:
  "eligible g m exclude now channels abl = {c \<in> eligible g m [] now channels abl. ch_id c \<notin> set exclude}"
  by (auto simp: eligible_def available_abilities_def)

lemma dropWhile_tier:
  "sorted (map (\<lambda>c. - get_priority c) cs) \<Longrightarrow> \<forall>c \<in> set cs. get_priority c \<le> p \<Longrightarrow>
   set (dropWhile (\<lambda>c. get_priority c = p) cs) = {c \<in> set cs. get_priority c \<noteq> p}"
proof (induction cs)
  case (Cons c cs)
  show ?case
  proof (cases "get_priority c = p")
    case True
    with Cons show ?thesis by auto
  next
    case False
    with Cons.prems have "\<forall>d \<in> set cs. get_priority d \<noteq> p" by fastforce
    with False show ?thesis by auto
  qed
qed simp

text \<open>After the first tier of a sorted list come the channels of lower priority.\<close>

lemma drop_first_tier:
  assumes "sorted (map (\<lambda>c. - get_priority c) cs)" "cs \<noteq> []" "get_priority (hd cs) > 0"
  shows "set (drop (first_tier_end cs) cs) = set cs - top_tier (set cs)"
proof -
  let ?p = "get_priority (hd cs)"
  have le: "\<forall>c \<in> set cs. get_priority c \<le> ?p"
    using assms(1,2) by (cases cs) auto
  have "drop (first_tier_end cs) cs = dropWhile (\<lambda>c. get_priority c = ?p) cs"
    using assms(3) by (simp add: first_tier_end_def dropWhile_eq_drop)
  moreover have "set (dropWhile (\<lambda>c. get_priority c = ?p) cs) = {c \<in> set cs. get_priority c \<noteq> ?p}"
    by (rule dropWhile_tier [OF assms(1) le])
  moreover have "top_tier (set cs) = {c \<in> set cs. get_priority c = ?p}"
    using le hd_in_set [OF assms(2)] by (auto simp: top_tier_def intro: order_antisym)
  ultimately show ?thesis by auto
qed

lemma choose_picks:
  assumes sorted: "sorted (map (\<lambda>c. - get_priority c) cs)"
    and pos: "ignore_first \<Longrightarrow> cs \<noteq> [] \<Longrightarrow> get_priority (hd cs) > 0"
  shows "picks (\<lambda>rnd. choose_cached rnd ignore_first cs) (tier ignore_first (set cs))"
proof -
  consider (none) "cs = []" | (first) "cs \<noteq> []" "\<not> ignore_first" | (lower) "cs \<noteq> []" ignore_first by blast
  then show ?thesis
  proof cases
    case none
    then show ?thesis by (simp add: choose_cached_def tier_def top_tier_def picks_nothing)
  next
    case first
    let ?tier = "filter (\<lambda>c. get_priority c = max_priority (map get_priority cs)) cs"
    have t: "set ?tier = top_tier (set cs)" by (rule top_tier_filter [OF first(1)])
    then have "?tier \<noteq> []" using top_tier_nonempty [of "set cs"] first(1) by (metis List.finite_set set_empty)
    moreover have "choose_cached rnd ignore_first cs = Inr (?tier ! rnd (length ?tier))" for rnd
      using first by (simp add: choose_cached_def Let_def)
    ultimately have "picks (\<lambda>rnd. choose_cached rnd ignore_first cs) ((\<lambda>c. c) ` set ?tier)" by (rule picksI)
    with t first(2) show ?thesis by (simp add: tier_def)
  next
    case lower
    let ?rest = "drop (first_tier_end cs) cs"
    have t: "set ?rest = tier ignore_first (set cs)"
      using drop_first_tier [OF sorted lower(1) pos [OF lower(2,1)]] lower(2) by (simp add: tier_def)
    have f: "choose_cached rnd ignore_first cs = (if ?rest = []
        then Inl ''no lower priority channels available after excluding failed channels''
        else Inr (?rest ! rnd (length ?rest)))" for rnd
      using lower by (auto simp: choose_cached_def Let_def rand_range_def)
    show ?thesis
    proof (cases "?rest = []")
      case True
      with f have "isl (choose_cached rnd ignore_first cs)" for rnd by simp
      moreover from True t have "tier ignore_first (set cs) = {}" by simp
      ultimately show ?thesis by (metis picks_nothing)
    next
      case False
      then have "picks (\<lambda>rnd. choose_cached rnd ignore_first cs) ((\<lambda>c. c) ` set ?rest)" using f by (intro picksI) simp_all
      with t show ?thesis by simp
    qed
  qed
qed

lemma cache_picks:
  assumes m: "abilities_match channels abl" and p: "plain_groups channels"
    and pos: "ignore_first \<Longrightarrow> \<exists>c \<in> eligible g mo exclude now channels abl. get_priority c > 0"
  shows "picks (\<lambda>rnd. cache_get_random_satisfied_channel_excluding rnd (init_channel_cache now channels abl) g mo
     ignore_first exclude False) (tier ignore_first (eligible g mo exclude now channels abl))"
proof -
  let ?cached = "init_channel_cache now channels abl g mo"
  let ?cs = "filter (\<lambda>c. ch_id c \<notin> set exclude) ?cached"
  have cs: "eligible g mo exclude now channels abl = set ?cs"
    using cache_entry [OF m p, of now g mo] by (subst eligible_exclude) simp
  have sorted: "sorted (map (\<lambda>c. - get_priority c) ?cs)"
    by (rule sorted_filter) (rule cache_sorted)
  have "get_priority (hd ?cs) > 0" if "ignore_first" "?cs \<noteq> []"
    using pos [OF that(1)] sorted that(2) unfolding cs by (cases ?cs) fastforce+
  with sorted have choose: "picks (\<lambda>rnd. choose_cached rnd ignore_first ?cs) (tier ignore_first (set ?cs))"
    by (rule choose_picks)
  show ?thesis
  proof (cases "?cached = []")
    case True
    then show ?thesis unfolding cs
      by (simp add: cache_get_random_satisfied_channel_excluding_def tier_def top_tier_def picks_nothing)
  next
    case False
    then have "cache_get_random_satisfied_channel_excluding rnd (init_channel_cache now channels abl) g mo
        ignore_first exclude False = choose_cached rnd ignore_first ?cs" for rnd
      by (simp add: cache_get_random_satisfied_channel_excluding_def Let_def)
    with choose cs show ?thesis by simp
  qed
qed

text \<open>The channel of an available ability.\<close>

lemma ability_channel:
  assumes m: "abilities_match channels abl" and a: "a \<in> set (available_abilities g mo exclude now abl)"
  obtains c where "find (\<lambda>c. ch_id c = ab_channel_id a) channels = Some c" "get_priority c = ab_priority a"
    "supports_model c mo" "c \<in> eligible g mo exclude now channels abl" "ch_id c = ab_channel_id a"
proof -
  from available_channel [OF assms] obtain c where c: "c \<in> eligible g mo exclude now channels abl"
    "ch_id c = ab_channel_id a" "get_priority c = ab_priority a" "mo \<in> set (split_comma (ch_models c))" .
  then have "c \<in> set channels" by (simp add: eligible_def)
  then have "find (\<lambda>c. ch_id c = ab_channel_id a) channels \<noteq> None" using c(2) by (auto simp: find_None_iff)
  then obtain d where d: "find (\<lambda>c. ch_id c = ab_channel_id a) channels = Some d" by blast
  then have d: "find (\<lambda>c. ch_id c = ab_channel_id a) channels = Some d" "d \<in> set channels" "ch_id d = ab_channel_id a"
    by (auto simp: find_Some_iff)
  with same_channel [of channels d c] m c(2) \<open>c \<in> set channels\<close> have "d = c" by (simp add: abilities_match_def)
  with that c d show ?thesis using listed_supported by blast
qed

lemma db_selected:
  assumes "available_abilities g m exclude now abl = av" "ability_candidates ignore_first av = candidates" "candidates \<noteq> []"
  shows "get_random_satisfied_channel_excluding rnd g m ignore_first exclude now channels abl =
     (case find (\<lambda>c. ch_id c = ab_channel_id (candidates ! rnd (length candidates))) channels of
        None \<Rightarrow> Inl ''record not found''
      | Some c \<Rightarrow> if supports_model c m then Inr c else Inl ''channel does not list support for model'')"
proof -
  have "av \<noteq> []" using assms(2,3) by (auto simp: ability_candidates_def Let_def)
  with assms show ?thesis unfolding get_random_satisfied_channel_excluding_def Let_def by simp
qed

lemma db_picks:
  assumes m: "abilities_match channels abl"
  shows "picks (\<lambda>rnd. get_random_satisfied_channel_excluding rnd g mo ignore_first exclude now channels abl)
     (tier ignore_first (eligible g mo exclude now channels abl))"
proof -
  let ?f = "\<lambda>rnd. get_random_satisfied_channel_excluding rnd g mo ignore_first exclude now channels abl"
  let ?av = "available_abilities g mo exclude now abl" and ?S = "eligible g mo exclude now channels abl"
  let ?c = "\<lambda>a. the (find (\<lambda>c. ch_id c = ab_channel_id a) channels)"
  let ?candidates = "ability_candidates ignore_first ?av"
  have c: "get_priority (?c a) = ab_priority a" "supports_model (?c a) mo" "?c a \<in> ?S"
    "find (\<lambda>c. ch_id c = ab_channel_id a) channels = Some (?c a)" if "a \<in> set ?av" for a
    using ability_channel [OF m that] by (metis option.sel)+
  have S: "?S = ?c ` set ?av"
  proof (intro equalityI subsetI)
    fix d assume d: "d \<in> ?S"
    from eligible_ability [OF m this] obtain a where a: "a \<in> set ?av" "ab_channel_id a = ch_id d" by blast
    from ability_channel [OF m a(1)] obtain e where e: "find (\<lambda>c. ch_id c = ab_channel_id a) channels = Some e"
      "e \<in> ?S" "ch_id e = ab_channel_id a" .
    from m have "distinct (map ch_id channels)" by (simp add: abilities_match_def)
    then have "e = d" using same_channel [of channels e d] d e(2,3) a(2) by (simp add: eligible_def)
    then have "?c a = d" using e(1) by simp
    with a show "d \<in> ?c ` set ?av" by force
  qed (use c in blast)
  have candidates: "?c ` set ?candidates = tier ignore_first ?S"
  proof (cases "?av = []")
    case False
    have top: "max_priority (map ab_priority ?av) = Max (get_priority ` ?S)"
      using False c(1) by (simp add: S max_priority_Max image_image cong: image_cong)
    have "finite ?S" "?S \<noteq> {}" using False by (simp_all add: S)
    from top_tier_Max [OF this] have "tier ignore_first ?S =
        {d \<in> ?S. if ignore_first then get_priority d < Max (get_priority ` ?S) else get_priority d = Max (get_priority ` ?S)}"
      by (simp add: tier_def)
    also have "\<dots> = ?c ` {a \<in> set ?av. if ignore_first then ab_priority a < Max (get_priority ` ?S)
        else ab_priority a = Max (get_priority ` ?S)}"
      using c(1) by (subst (1) S) (auto simp: image_iff split: if_splits)
    finally show ?thesis by (simp add: ability_candidates_def Let_def top)
  qed (simp add: S ability_candidates_def tier_def top_tier_def)
  show ?thesis
  proof (cases "?candidates = []")
    case True
    then have "isl (?f rnd)" for rnd by (simp add: get_random_satisfied_channel_excluding_def Let_def)
    then have "picks ?f {}" by (rule picks_nothing)
    moreover have "tier ignore_first ?S = {}" using candidates True by simp
    ultimately show ?thesis by simp
  next
    case False
    have in_av: "?candidates ! rnd (length ?candidates) \<in> set ?av" if "random_choice rnd" for rnd
    proof -
      from that False have "?candidates ! rnd (length ?candidates) \<in> set ?candidates" by (simp add: random_choice_def)
      then show ?thesis by (auto simp: ability_candidates_def Let_def)
    qed
    have "?f rnd = Inr (?c (?candidates ! rnd (length ?candidates)))" if "random_choice rnd" for rnd
    proof -
      let ?a = "?candidates ! rnd (length ?candidates)"
      note a = in_av [OF that]
      have "?f rnd = (case find (\<lambda>c. ch_id c = ab_channel_id ?a) channels of None \<Rightarrow> Inl ''record not found''
          | Some c \<Rightarrow> if supports_model c mo then Inr c else Inl ''channel does not list support for model'')"
        by (rule db_selected [OF refl refl False])
      also obtain e where e: "find (\<lambda>c. ch_id c = ab_channel_id ?a) channels = Some e"
        using c(4) [OF a] by blast
      then have "(case find (\<lambda>c. ch_id c = ab_channel_id ?a) channels of None \<Rightarrow> Inl ''record not found''
          | Some c \<Rightarrow> if supports_model c mo then Inr c else Inl ''channel does not list support for model'') = Inr (?c ?a)"
        using c(2) [OF a] by simp
      finally show ?thesis .
    qed
    with False have "picks ?f (?c ` set ?candidates)" by (rule picksI)
    with candidates show ?thesis by simp
  qed
qed


lemma picks_same: "picks f S \<Longrightarrow> picks h S \<Longrightarrow> selectable f = selectable h \<and> (\<forall>rnd. random_choice rnd \<longrightarrow> isl (f rnd) = isl (h rnd))"
  by (cases "S = {}") (fastforce simp: picks_def)+

text \<open>
  C29. With matching abilities a fresh cache selects exactly the channels the database does: those of the
  first tier of the usable ones or, with \<open>ignore_first\<close> (and some positive priority), those below it; both
  report an error exactly when there are none.
\<close>
theorem cache_selects_like_database:
  assumes "abilities_match channels abl" "plain_groups channels"
    and "ignore_first \<Longrightarrow> \<exists>c \<in> eligible g m exclude now channels abl. get_priority c > 0"
  shows "selectable (\<lambda>rnd. select_channel_excluding True rnd (init_channel_cache now channels abl) channels abl now g m ignore_first exclude False) =
      selectable (\<lambda>rnd. select_channel_excluding False rnd (init_channel_cache now channels abl) channels abl now g m ignore_first exclude False) \<and>
    selectable (\<lambda>rnd. select_channel_excluding False rnd (init_channel_cache now channels abl) channels abl now g m ignore_first exclude False) =
      tier ignore_first (eligible g m exclude now channels abl) \<and>
    (\<forall>rnd. random_choice rnd \<longrightarrow>
       isl (select_channel_excluding True rnd (init_channel_cache now channels abl) channels abl now g m ignore_first exclude False) =
       isl (select_channel_excluding False rnd (init_channel_cache now channels abl) channels abl now g m ignore_first exclude False))"
  using picks_same [OF cache_picks [OF assms] db_picks [OF assms(1)]] db_picks [OF assms(1), unfolded picks_def]
  by (simp add: select_channel_excluding_def)

subsection \<open>The operations keep the match\<close>

datatype channel_op = InsertOp channel_row | UpdateOp channel_row | DeleteOp int | StatusOp int int
  | DeleteByStatusOp int | DeleteDisabledOp | SuspendOp string string int int

definition exec_channel_op :: "outcomes \<Rightarrow> int \<Rightarrow> channel_op \<Rightarrow> channel_store \<Rightarrow> channel_store" where
  "exec_channel_op stmt now op st = (case op of
     InsertOp c \<Rightarrow> snd (insert_channel stmt now c st)
   | UpdateOp c \<Rightarrow> snd (update_channel stmt now c st)
   | DeleteOp cid \<Rightarrow> snd (delete_channel stmt now cid st)
   | StatusOp cid status \<Rightarrow> update_channel_status_by_id stmt now cid status st
   | DeleteByStatusOp status \<Rightarrow> snd (snd (delete_channel_by_status status stmt now st))
   | DeleteDisabledOp \<Rightarrow> snd (snd (delete_disabled_channel stmt now st))
   | SuspendOp g m cid duration \<Rightarrow> st\<lparr>cs_abilities := snd (suspend_ability g m cid duration now (cs_abilities st))\<rparr>)"

text \<open>
  The operations that keep the match: a new channel has an id no ability uses, an updated or enabled one is stored,
  its statements on abilities succeed, and the enabled channels are not deleted by status.
\<close>

definition sound_op :: "outcomes \<Rightarrow> channel_store \<Rightarrow> channel_op \<Rightarrow> bool" where
  "sound_op stmt st op = (case op of
     InsertOp c \<Rightarrow> ch_id c \<notin> ab_channel_id ` set (cs_abilities st)
   | UpdateOp c \<Rightarrow> ch_id c \<in> ch_id ` set (cs_channels st) \<and> stmt ''delete abilities'' \<and> stmt ''clear testing model''
   | DeleteOp cid \<Rightarrow> stmt ''delete abilities''
   | StatusOp cid status \<Rightarrow> stmt ''update ability status'' \<and>
       (status = channel_status_enabled \<longrightarrow> stmt ''update channel status'' \<and> cid \<in> ch_id ` set (cs_channels st))
   | DeleteByStatusOp status \<Rightarrow> status \<noteq> channel_status_enabled
   | DeleteDisabledOp \<Rightarrow> True
   | SuspendOp g m cid duration \<Rightarrow> True)"

definition store_match :: "channel_store \<Rightarrow> bool" where
  "store_match st \<longleftrightarrow> abilities_match (cs_channels st) (cs_abilities st)"

lemma refresh_match [simp]: "store_match (refresh_cache now st) = store_match st"
  by (simp add: store_match_def refresh_cache_def)

text \<open>The abilities made for a channel match it.\<close>

lemma new_ability:
  assumes "a \<in> set (new_abilities c)"
  shows "ab_channel_id a = ch_id c" "lists c a" "ab_enabled a \<longleftrightarrow> ch_status c = channel_status_enabled"
  using assms by (auto simp: new_abilities_def lists_def)

lemma match_new_abilities:
  assumes "distinct (map ch_id channels)" "c \<in> set channels" "abilities_match channels abl"
  shows "abilities_match channels (abl @ new_abilities c)"
proof -
  have "lists d a" if "a \<in> set (new_abilities c)" "d \<in> set channels" "ch_id d = ab_channel_id a" for a d
    using same_channel [OF assms(1,2) that(2)] that new_ability [OF that(1)] by simp
  moreover have "served channels a" if "a \<in> set (new_abilities c)" "ab_enabled a" for a
    using that new_ability [OF that(1)] assms(2) by (auto simp: served_def)
  ultimately show ?thesis using assms(3) by (auto simp: abilities_match_def)
qed

lemma match_add_abilities:
  "distinct (map ch_id channels) \<Longrightarrow> c \<in> set channels \<Longrightarrow> abilities_match channels abl \<Longrightarrow>
   abilities_match channels (snd (add_abilities stmt c abl))"
  by (simp add: add_abilities_def match_new_abilities)

lemma match_update_abilities:
  assumes "distinct (map ch_id channels)" "c \<in> set channels" "stmt ''delete abilities''"
    and "abilities_match channels (filter (\<lambda>a. ab_channel_id a \<noteq> ch_id c) abl)"
  shows "abilities_match channels (snd (update_abilities stmt c abl))"
  using match_add_abilities [OF assms(1,2,4)] assms(3) by (simp add: update_abilities_def delete_abilities_def)

text \<open>Channels that change leave the abilities of the other ones matching.\<close>

lemma match_other_channels:
  assumes "abilities_match channels abl" "distinct (map ch_id channels')"
    and "\<And>c. ch_id c \<noteq> cid \<Longrightarrow> c \<in> set channels' \<longleftrightarrow> c \<in> set channels"
  shows "abilities_match channels' (filter (\<lambda>a. ab_channel_id a \<noteq> cid) abl)"
proof -
  have "lists c a" if "a \<in> set abl" "ab_channel_id a \<noteq> cid" "c \<in> set channels'" "ch_id c = ab_channel_id a" for a c
    using that assms(1) assms(3) [of c] by (simp add: abilities_match_def)
  moreover have "served channels' a" if "a \<in> set abl" "ab_channel_id a \<noteq> cid" "ab_enabled a" for a
    using that assms(1,3) by (fastforce simp: abilities_match_def served_def)
  ultimately show ?thesis using assms(2) by (simp add: abilities_match_def)
qed

lemma insert_match:
  assumes "store_match st" "ch_id c \<notin> ab_channel_id ` set (cs_abilities st)"
  shows "store_match (snd (insert_channel stmt now c st))"
proof (cases "stmt ''create channel'' \<and> ch_id c \<notin> set (map ch_id (cs_channels st))")
  case True
  let ?cs = "cs_channels st @ [c]"
  from True assms(1) have d: "distinct (map ch_id ?cs)" by (auto simp: store_match_def abilities_match_def)
  have "abilities_match ?cs (filter (\<lambda>a. ab_channel_id a \<noteq> ch_id c) (cs_abilities st))"
    using assms(1) d by (intro match_other_channels) (auto simp: store_match_def)
  moreover have "filter (\<lambda>a. ab_channel_id a \<noteq> ch_id c) (cs_abilities st) = cs_abilities st"
    using assms(2) unfolding filter_id_conv by force
  ultimately have "abilities_match ?cs (snd (add_abilities stmt c (cs_abilities st)))"
    using match_add_abilities [OF d, of c] by simp
  with True show ?thesis
    by (auto simp: insert_channel_def Let_def refresh_cache_def store_match_def split: prod.splits)
qed (use assms(1) in \<open>auto simp: insert_channel_def\<close>)

lemma replace_channel_ids [simp]: "map ch_id (replace_channel c cs) = map ch_id cs"
  by (simp add: replace_channel_def)

lemma replace_channel_set:
  "ch_id c \<in> ch_id ` set cs \<Longrightarrow> set (replace_channel c cs) = insert c {d \<in> set cs. ch_id d \<noteq> ch_id c}"
  by (auto simp: replace_channel_def image_iff)

lemma replace_twice: "ch_id c = ch_id d \<Longrightarrow> replace_channel c (replace_channel d cs) = replace_channel c cs"
  by (simp add: replace_channel_def)

lemma merge_id [simp]: "ch_id (merge_channel old c) = ch_id old"
  by (simp add: merge_channel_def)

lemma update_match:
  assumes "store_match st" "ch_id c \<in> ch_id ` set (cs_channels st)" "stmt ''delete abilities''" "stmt ''clear testing model''"
  shows "store_match (snd (update_channel stmt now c st))"
proof (cases "stmt ''update channel''")
  case True
  have keep: "store_match (st\<lparr>cs_channels := replace_channel d (cs_channels st),
      cs_abilities := snd (update_abilities stmt d (cs_abilities st))\<rparr>)" if "ch_id d = ch_id c" for d
  proof -
    let ?cs = "replace_channel d (cs_channels st)"
    from assms(1) have dist: "distinct (map ch_id ?cs)" by (simp add: store_match_def abilities_match_def)
    have set: "set ?cs = insert d {e \<in> set (cs_channels st). ch_id e \<noteq> ch_id d}"
      using assms(2) that by (intro replace_channel_set) simp
    have "abilities_match ?cs (filter (\<lambda>a. ab_channel_id a \<noteq> ch_id d) (cs_abilities st))"
      using assms(1) dist by (intro match_other_channels [of "cs_channels st"]) (auto simp: store_match_def set)
    with match_update_abilities [where stmt = stmt, OF dist _ assms(3), of d] set show ?thesis by (simp add: store_match_def)
  qed
  obtain old where old: "find (\<lambda>d. ch_id d = ch_id c) (cs_channels st) = Some old" "ch_id old = ch_id c"
  proof -
    from assms(2) have "find (\<lambda>d. ch_id d = ch_id c) (cs_channels st) \<noteq> None" by (auto simp: find_None_iff)
    with that show ?thesis by (auto simp: find_Some_iff)
  qed
  obtain testing clear where t: "check_testing_model old c = (testing, clear)" by force
  define m where "m = merge_channel old (c\<lparr>ch_testing_model := testing\<rparr>)"
  define d where "d = (if clear then m\<lparr>ch_testing_model := None\<rparr> else m)"
  have ids: "ch_id m = ch_id c" "ch_id d = ch_id c" using old by (simp_all add: m_def d_def)
  obtain ok abl where u: "update_abilities stmt d (cs_abilities st) = (ok, abl)" by force
  let ?st = "st\<lparr>cs_channels := replace_channel d (cs_channels st), cs_abilities := abl\<rparr>"
  have "replace_channel d (replace_channel m (cs_channels st)) = replace_channel d (cs_channels st)"
    using ids by (simp add: replace_twice)
  then have "snd (update_channel stmt now c st) = (if ok then refresh_cache now ?st else ?st)"
    using True assms(4) old t u unfolding d_def by (cases clear) (simp_all add: update_channel_def Let_def m_def [symmetric])
  with keep [OF ids(2)] u show ?thesis by simp
qed (auto simp: update_channel_def Let_def assms(1) split: prod.splits)


lemma delete_match:
  assumes "store_match st" "stmt ''delete abilities''"
  shows "store_match (snd (delete_channel stmt now cid st))"
proof -
  have "abilities_match (filter (\<lambda>c. ch_id c \<noteq> cid) (cs_channels st)) (filter (\<lambda>a. ab_channel_id a \<noteq> cid) (cs_abilities st))"
    using assms(1) by (intro match_other_channels [of "cs_channels st"])
      (auto simp: store_match_def abilities_match_def distinct_map_filter)
  with assms show ?thesis
    by (simp add: delete_channel_def delete_abilities_def Let_def refresh_cache_def store_match_def)
qed

text \<open>Channels that are not enabled leave: no enabled ability is theirs.\<close>

lemma delete_where_match:
  assumes "store_match st" "\<And>c. p c \<Longrightarrow> ch_status c \<noteq> channel_status_enabled"
  shows "store_match (snd (snd (delete_channels_where p stmt now st)))"
proof -
  have "served (filter (\<lambda>c. \<not> p c) (cs_channels st)) a" if "served (cs_channels st) a" for a
    using that assms(2) by (auto simp: served_def)
  with assms(1) have "abilities_match (filter (\<lambda>c. \<not> p c) (cs_channels st)) (cs_abilities st)"
    by (simp add: store_match_def abilities_match_def distinct_map_filter)
  with assms(1) show ?thesis by (simp add: delete_channels_where_def refresh_cache_def store_match_def)
qed

lemma suspend_match:
  assumes "store_match st"
  shows "store_match (st\<lparr>cs_abilities := snd (suspend_ability g m cid duration now (cs_abilities st))\<rparr>)"
proof -
  have "lists c (a\<lparr>ab_suspend_until := t\<rparr>) = lists c a" "served cs (a\<lparr>ab_suspend_until := t\<rparr>) = served cs a" for c cs a t
    by (simp_all add: lists_def served_def)
  with assms show ?thesis by (auto simp: suspend_ability_def store_match_def abilities_match_def)
qed

lemma status_match:
  assumes m: "store_match st" and ok: "stmt ''update ability status''"
    and en: "status = channel_status_enabled \<Longrightarrow> stmt ''update channel status'' \<and> cid \<in> ch_id ` set (cs_channels st)"
  shows "store_match (update_channel_status_by_id stmt now cid status st)"
proof -
  let ?on = "status = channel_status_enabled"
  let ?abl = "map (\<lambda>a. if ab_channel_id a = cid then a\<lparr>ab_enabled := ?on\<rparr> else a) (cs_abilities st)"
  let ?set = "\<lambda>c. if ch_id c = cid then c\<lparr>ch_status := status\<rparr> else c"
  let ?cs = "if stmt ''update channel status'' then map ?set (cs_channels st) else cs_channels st"
  have ids: "map ch_id ?cs = map ch_id (cs_channels st)" by simp
  have s: "served ?cs a" if "served (cs_channels st) a" "ab_channel_id a \<noteq> cid" for a
    using that by (force simp: served_def image_iff)
  have s': "served ?cs (a\<lparr>ab_enabled := True\<rparr>)" if "?on" "ab_channel_id a = cid" for a
  proof -
    from en [OF that(1)] obtain c where "c \<in> set (cs_channels st)" "ch_id c = cid" by auto
    then have "?set c \<in> set ?cs" "ch_id (?set c) = cid" "ch_status (?set c) = channel_status_enabled"
      using en [OF that(1)] that(1) by auto
    then show ?thesis using that(2) unfolding served_def by auto
  qed
  have old: "(\<forall>c \<in> set (cs_channels st). ch_id c = ab_channel_id a \<longrightarrow> lists c a) \<and> (ab_enabled a \<longrightarrow> served (cs_channels st) a)"
    if "a \<in> set (cs_abilities st)" for a
    using m that by (simp add: store_match_def abilities_match_def)
  have l: "lists c (a\<lparr>ab_enabled := on\<rparr>)" "lists c a"
    if "c \<in> set ?cs" "ch_id c = ab_channel_id a" "a \<in> set (cs_abilities st)" for c a on
  proof -
    from that(1) obtain d where d: "d \<in> set (cs_channels st)" "ch_id d = ch_id c" "get_priority d = get_priority c"
      "ch_models d = ch_models c" "ch_group d = ch_group c"
      by (auto simp: get_priority_def split: if_splits)
    with old [OF that(3)] that(2) have "lists d a" by simp
    with d show "lists c (a\<lparr>ab_enabled := on\<rparr>)" "lists c a" by (simp_all add: lists_def)
  qed
  have "(\<forall>c \<in> set ?cs. ch_id c = ab_channel_id b \<longrightarrow> lists c b) \<and> (ab_enabled b \<longrightarrow> served ?cs b)"
    if "b \<in> set ?abl" for b
  proof -
    from that obtain a where a: "a \<in> set (cs_abilities st)"
      and b: "b = (if ab_channel_id a = cid then a\<lparr>ab_enabled := ?on\<rparr> else a)" by auto
    show ?thesis
    proof (cases "ab_channel_id a = cid")
      case True
      then have b: "b = a\<lparr>ab_enabled := ?on\<rparr>" using b by simp
      show ?thesis
      proof (intro conjI ballI impI)
        fix c assume "c \<in> set ?cs" "ch_id c = ab_channel_id b"
        then show "lists c b" unfolding b by (intro l(1) a) simp_all
      next
        assume "ab_enabled b"
        then have "?on" unfolding b by simp
        then have "b = a\<lparr>ab_enabled := True\<rparr>" unfolding b by simp
        with s' [OF \<open>?on\<close> True] show "served ?cs b" by (simp only:)
      qed
    next
      case False
      then have "b = a" using b by simp
      then show ?thesis using l(2) [OF _ _ a] s [OF _ False] old [OF a] by blast
    qed
  qed
  moreover have "distinct (map ch_id ?cs)" unfolding ids using m by (simp add: store_match_def abilities_match_def)
  ultimately have "abilities_match ?cs ?abl" unfolding abilities_match_def by blast
  with ok show ?thesis
    by (cases "stmt ''update channel status''")
      (simp_all add: update_channel_status_by_id_def update_ability_status_def Let_def refresh_cache_def store_match_def)
qed



subsection \<open>What a selection gives\<close>

lemma nth_choice: "random_choice rnd \<Longrightarrow> xs \<noteq> [] \<Longrightarrow> xs ! rnd (length xs) \<in> set xs"
  by (simp add: random_choice_def)

lemma rand_range_less:
  assumes "random_choice rnd" "lo < hi"
  shows "rand_range rnd lo hi < hi"
proof -
  have "rnd (hi - lo) < hi - lo" using assms by (simp add: random_choice_def)
  then show ?thesis using assms(2) by (simp add: rand_range_def)
qed

lemma chosen_candidate:
  assumes r: "random_choice rnd" and sel: "choose_cached rnd ignore_first cs = Inr c"
  shows "c \<in> set cs"
proof (cases ignore_first)
  case True
  with sel have "first_tier_end cs < length cs" "c = cs ! rand_range rnd (first_tier_end cs) (length cs)"
    by (auto simp: choose_cached_def Let_def split: if_splits)
  with rand_range_less [OF r] show ?thesis by simp
next
  case False
  let ?tier = "filter (\<lambda>c. get_priority c = max_priority (map get_priority cs)) cs"
  from sel False have c: "cs \<noteq> []" "c = ?tier ! rnd (length ?tier)"
    by (auto simp: choose_cached_def Let_def split: if_splits)
  with top_tier_filter top_tier_nonempty [of "set cs"] have "?tier \<noteq> []" by (metis List.finite_set set_empty)
  from nth_choice [OF r this] c(2) have "c \<in> set ?tier" by (simp only:)
  then show ?thesis by (simp only: set_filter mem_Collect_eq)
qed

lemma cache_selected:
  assumes "random_choice rnd"
    and "cache_get_random_satisfied_channel_excluding rnd cache g m ignore_first exclude try_larger = Inr c"
  shows "c \<in> set (cache g m) \<and> ch_id c \<notin> set exclude"
  using assms(2) chosen_candidate [OF assms(1)]
  by (fastforce simp: cache_get_random_satisfied_channel_excluding_def Let_def larger_max_tokens_def split: if_splits)

lemma db_selected_channel:
  assumes r: "random_choice rnd"
    and sel: "get_random_satisfied_channel_excluding rnd g m ignore_first exclude now channels abl = Inr c"
  shows "c \<in> set channels \<and> ch_id c \<notin> set exclude \<and> supports_model c m"
proof -
  let ?candidates = "ability_candidates ignore_first (available_abilities g m exclude now abl)"
  from sel have ne: "?candidates \<noteq> []"
    by (auto simp: get_random_satisfied_channel_excluding_def Let_def split: if_splits)
  let ?a = "?candidates ! rnd (length ?candidates)"
  have "?a \<in> set (available_abilities g m exclude now abl)"
    using nth_choice [OF r ne] by (auto simp: ability_candidates_def Let_def)
  then have "ab_channel_id ?a \<notin> set exclude" by (simp add: available_abilities_def)
  moreover have "find (\<lambda>c. ch_id c = ab_channel_id ?a) channels = Some c \<and> supports_model c m"
    using sel unfolding db_selected [OF refl refl ne] by (auto split: option.splits if_splits)
  ultimately show ?thesis by (auto simp: find_Some_iff)
qed

lemma selected_not_excluded:
  assumes "random_choice rnd"
    and "select_channel_excluding memory_cache rnd cache channels abl now g m ignore_first exclude try_larger = Inr c"
  shows "ch_id c \<notin> set exclude"
  using assms cache_selected db_selected_channel
  by (auto simp: select_channel_excluding_def split: if_splits)


subsection \<open>Examples\<close>

definition example_channel :: "int \<Rightarrow> int \<Rightarrow> int \<Rightarrow> channel_row" where
  "example_channel cid priority limit = \<lparr>ch_id = cid, ch_type = 1, ch_status = channel_status_enabled, ch_name = ''c'',
     ch_group = ''default,vip'', ch_models = ''m, n'', ch_priority = Some priority, ch_rate_limit = None,
     ch_model_configs = Some [(''m'', plain_config\<lparr>lc_max_tokens := limit\<rparr>)],
     ch_model_mapping = None, ch_system_prompt = None, ch_config = None, ch_testing_model = None\<rparr>"

definition all_succeed :: outcomes where "all_succeed s = True"

definition example_channels :: "channel_row list" where
  "example_channels = [example_channel 1 5 1000, example_channel 2 3 500]"

definition example_abilities :: "ability list" where
  "example_abilities = concat (map new_abilities example_channels)"

lemma example_match: "abilities_match example_channels example_abilities" "plain_groups example_channels"
  by code_simp+

lemma example_eligible: "example_channel 2 3 500 \<in> eligible ''vip'' ''m'' [] 0 example_channels example_abilities"
  unfolding eligible_def mem_Collect_eq by code_simp

theorem cache_selects_like_database_witness:
  "selectable (\<lambda>rnd. select_channel_excluding True rnd (init_channel_cache 0 example_channels example_abilities)
       example_channels example_abilities 0 ''vip'' ''m'' True [] False) =
     tier True (eligible ''vip'' ''m'' [] 0 example_channels example_abilities)"
proof -
  have "\<exists>c \<in> eligible ''vip'' ''m'' [] 0 example_channels example_abilities. get_priority c > 0"
    by (rule bexI [OF _ example_eligible]) code_simp
  from cache_selects_like_database [OF example_match this] show ?thesis by blast
qed

text \<open>
  With priorities that are not positive the cache takes all channels as one tier: asked for a lower priority it has
  none, where the database has one.
\<close>

lemma zero_priority_fallback:
  "let channels = [example_channel 1 0 0, example_channel 2 (-1) 0]; abl = concat (map new_abilities channels);
       cache = init_channel_cache 0 channels abl in
     select_channel_excluding True (\<lambda>_. 0) cache channels abl 0 ''vip'' ''m'' True [] False =
       Inl ''no lower priority channels available after excluding failed channels'' \<and>
     map_sum id ch_id (select_channel_excluding False (\<lambda>_. 0) cache channels abl 0 ''vip'' ''m'' True [] False) = Inr 2"
  by code_simp

text \<open>After a request was too large for a limit of 1000, a channel with a limit of 500 is tried.\<close>

lemma smaller_limit_retried:
  "map_sum id ch_id (select_channel_excluding True (\<lambda>_. 0) (init_channel_cache 0 example_channels example_abilities)
     example_channels example_abilities 0 ''vip'' ''m'' False [1] True) = Inr 2"
  by code_simp

text \<open>Without a configuration for the model the search for the smallest limit dereferences nil.\<close>

lemma no_limit_panics:
  "cache_get_random_satisfied_channel True (\<lambda>_. 0) True (\<lambda>_ _. [(example_channel 1 5 0)\<lparr>ch_model_configs := None\<rparr>])
     [] [] 0 ''vip'' ''m'' False = None"
  by code_simp

definition example_store :: channel_store where
  "example_store = \<lparr>cs_channels = example_channels, cs_abilities = example_abilities, cs_cache = (\<lambda>_ _. [])\<rparr>"


text \<open>Deleting the enabled channels by their status leaves abilities that can still be selected.\<close>

lemma delete_by_status_breaks_match:
  "\<not> store_match (exec_channel_op all_succeed 0 (DeleteByStatusOp channel_status_enabled) example_store) \<and>
   get_random_satisfied_channel (\<lambda>_. 0) ''vip'' ''m'' False 0 [] example_abilities = Inl ''record not found''"
  by code_simp

text \<open>Without a suspended ability the soonest end of a suspension is an error, not \<open>nil\<close>.\<close>

lemma soonest_none:
  "filter (\<lambda>t. t > now) (suspensions (filter (ability_in g m) abl)) = [] \<Longrightarrow>
     get_soonest_suspend_until g m now abl = Inl ''scan soonest suspend_until''"
  by (simp add: get_soonest_suspend_until_def)

end
