(* ===== verification/RelayRetry.thy ===== *)
theory RelayRetry
  imports ChannelChoice Float64
begin

text \<open>
  What follows a failed attempt (\<open>controller/relay.go\<close>): how an error is classified, what it does to the channel
  (\<open>processChannelRelayError\<close>, \<open>monitor\<close>), how often and on which channels the request is retried. The attempt
  itself, \<open>SetupContextForSelectedChannel\<close> with \<open>relayHelper\<close>, is a parameter, and so is what other requests and the
  pending error processing (a goroutine) do to the state between two attempts.
\<close>

subsection \<open>Errors\<close>

text \<open>The \<open>Code\<close> of an error is an \<open>any\<close>: nil, a string, or another value with what \<open>fmt.Sprint\<close> prints.\<close>

datatype error_code = NilCode | StringCode string | OtherCode string

definition sprint_code :: "error_code \<Rightarrow> string" where
  "sprint_code c = (case c of NilCode \<Rightarrow> ''<nil>'' | StringCode s \<Rightarrow> s | OtherCode s \<Rightarrow> s)"

record error_with_status =
  es_status :: int
  es_type :: string
  es_code :: error_code
  es_message :: string
  es_retry_after :: int
  es_cancelled :: bool      \<comment> \<open>\<open>RawError\<close> is a cancelled context or an exceeded deadline\<close>
  es_ffprobe :: bool        \<comment> \<open>\<open>RawError\<close> is \<open>ErrFFProbeUnavailable\<close>\<close>

definition error_type_one_api :: string where "error_type_one_api = ''one_api_error''"
definition error_type_authentication :: string where "error_type_authentication = ''authentication_error''"
definition error_type_permission :: string where "error_type_permission = ''permission_error''"
definition error_type_insufficient_quota :: string where "error_type_insufficient_quota = ''insufficient_quota''"
definition error_type_forbidden :: string where "error_type_forbidden = ''forbidden''"

text \<open>The bytes of the two Chinese messages the code looks for.\<close>

definition in_arrears :: string where
  "in_arrears = map char_of [0xE5 :: nat, 0xB7, 0xB2, 0xE6, 0xAC, 0xA0, 0xE8, 0xB4, 0xB9]"

definition low_balance :: string where
  "low_balance = map char_of [0xE4 :: nat, 0xBD, 0x99, 0xE9, 0xA2, 0x9D, 0xE4, 0xB8, 0x8D, 0xE8, 0xB6, 0xB3]"

definition mentions :: "string \<Rightarrow> string list \<Rightarrow> bool" where
  "mentions msg patterns \<longleftrightarrow> list_ex (contains_sub msg) patterns"

definition should_retry :: "int \<Rightarrow> error_with_status \<Rightarrow> string option" where
  "should_retry specific_channel_id e =
     (if specific_channel_id \<noteq> 0 then Some ''specific channel ID was provided, retry is unvailable''
      else if es_cancelled e then Some ''do not retry: context cancelled or deadline exceeded''
      else if es_status e \<ge> 400 \<and> es_status e < 500 \<and> es_status e \<noteq> 429 \<and> es_status e \<noteq> 413 \<and>
        es_status e \<noteq> 401 \<and> es_status e \<noteq> 403 then Some ''client error, not retrying''
      else None)"

definition classify_retryable_upstream_client_error :: "error_with_status \<Rightarrow> bool \<times> string" where
  "classify_retryable_upstream_client_error e =
     (if es_status e < 400 \<or> es_status e \<ge> 500 then (False, [])
      else
        let code = to_lower (trim_space (sprint_code (es_code e)));
            message = to_lower (trim_space (es_message e)) in
        if code = ''websocket_connection_limit_reached'' then (True, ''websocket_connection_limit_reached'')
        else if code = ''output_parse_failed'' then (True, ''output_parse_failed'')
        else if mentions message [''websocket connection limit reached'', ''create a new websocket connection'']
          then (True, ''websocket_reconnect_hint'')
        else if contains_sub message ''generated output that could not be parsed''
          then (True, ''upstream_generated_unparseable_output'')
        else (False, []))"

definition is_retryable_upstream_client_error :: "error_with_status \<Rightarrow> bool" where
  "is_retryable_upstream_client_error e = fst (classify_retryable_upstream_client_error e)"

definition is_client_context_cancel :: "error_with_status \<Rightarrow> bool" where
  "is_client_context_cancel e \<longleftrightarrow> es_cancelled e \<or> es_status e = 408"

definition is_internal_infra_error :: "error_with_status \<Rightarrow> bool" where
  "is_internal_infra_error e = es_ffprobe e"

definition is_adaptor_internal_error :: "error_with_status \<Rightarrow> bool" where
  "is_adaptor_internal_error e \<longleftrightarrow> es_status e \<ge> 500 \<and> es_type e = error_type_one_api"

definition upstream_suggests_retry :: "error_with_status \<Rightarrow> bool" where
  "upstream_suggests_retry e =
     mentions (to_lower (es_message e))
       [''retry your request'', ''please retry'', ''try again'', ''retry later'', ''temporarily unavailable'',
        ''overloaded'', ''server is busy'', ''service is busy'', ''high load'', ''high traffic'', ''capacity limit'',
        ''temporary failure'', ''temporary error'']"

definition classify_auth_like :: "error_with_status \<Rightarrow> bool" where
  "classify_auth_like e \<longleftrightarrow>
     es_status e = 401 \<or> es_status e = 403 \<or>
     es_type e \<in> {error_type_authentication, error_type_permission, error_type_insufficient_quota, error_type_forbidden} \<or>
     es_code e \<in> {StringCode ''invalid_api_key'', StringCode ''account_deactivated'', StringCode ''insufficient_quota''} \<or>
     mentions (to_lower (es_message e))
       [''invalid api key'', ''api key not valid'', ''api key expired'', ''insufficient quota'', ''insufficient credit'',
        in_arrears, low_balance, ''organization restricted'']"

definition is_upstream_malformed_tool_call_error :: "error_with_status \<Rightarrow> bool" where
  "is_upstream_malformed_tool_call_error e =
     (let code = to_lower (trim_space (sprint_code (es_code e)));
          message = to_lower (trim_space (es_message e)) in
      es_status e = 400 \<and>
      (code = ''tool_use_failed'' \<or>
       (code = ''invalid_request_error'' \<or> code = []) \<and>
       (contains_sub message ''failed to parse tool call arguments as json'' \<or>
        contains_sub message ''tool call arguments'' \<and> contains_sub message ''json'')))"

definition is_user_originated_relay_error :: "error_with_status \<Rightarrow> bool" where
  "is_user_originated_relay_error e =
     (if is_client_context_cancel e then True
      else if es_status e = 400 \<and> es_type e = error_type_one_api then True
      else if is_upstream_malformed_tool_call_error e then True
      else if es_status e \<noteq> 403 \<and> es_status e \<noteq> 401 then False
      else if es_type e \<noteq> error_type_one_api then False
      else
        let code = (case es_code e of StringCode s \<Rightarrow> to_lower s | _ \<Rightarrow> []);
            msg = to_lower (es_message e) in
        if code \<in> {''insufficient_user_quota'', ''insufficient_token_quota'', ''invalid_api_key'', ''token_expired'',
            ''token_disabled'', ''token_not_found'', ''model_not_allowed'', ''model_not_available'', ''tool_not_allowed''}
          then True
        else if code = ''pre_consume_token_quota_failed'' \<and>
            mentions msg [''insufficient user quota'', ''insufficient token quota'', ''user quota is not enough'',
              ''token quota is not enough''] then True
        else mentions msg
          [''token has expired'', ''token is not enabled'', ''api key is invalid'', ''api key has been disabled'',
           ''model not allowed'', ''model is not available'', ''not allowed for this token'', ''token model'',
           ''quota has been exhausted'', ''token quota exhausted'', ''whitelist'', ''blacklist''])"

definition should_disable_channel :: "bool \<Rightarrow> error_with_status \<Rightarrow> bool" where
  "should_disable_channel automatic_disable e =
     (if \<not> automatic_disable then False
      else if es_status e = 401 then True
      else if es_type e \<in> {error_type_insufficient_quota, error_type_authentication, error_type_permission,
        error_type_forbidden} then True
      else if es_code e \<in> {StringCode ''invalid_api_key'', StringCode ''account_deactivated''} then True
      else mentions (to_lower (es_message e))
        [''your access was terminated'', ''violation of our policies'', ''your credit balance is too low'',
         ''organization has been disabled'', ''credit'', ''balance'', ''permission denied'',
         ''organization has been restricted'', ''api key not valid'', ''api key expired'', ''insufficient balance'',
         in_arrears])"

definition should_enable_channel :: "bool \<Rightarrow> bool \<Rightarrow> bool \<Rightarrow> bool" where
  "should_enable_channel automatic_enable failed openai_failed \<longleftrightarrow> automatic_enable \<and> \<not> failed \<and> \<not> openai_failed"

subsection \<open>What an error does to its channel\<close>

text \<open>Durations are nanoseconds.\<close>

record relay_config =
  rc_retry_times :: int
  rc_suspend_429 :: int
  rc_suspend_5xx :: int
  rc_suspend_auth :: int
  rc_automatic_disable :: bool
  rc_enable_metric :: bool
  rc_metric_queue_size :: int
  rc_metric_threshold :: rat

record error_params =
  ep_channel_id :: int
  ep_group :: string
  ep_original_model :: string
  ep_err :: error_with_status

record reaction =
  suspend_for :: "int option"
  disables :: bool
  emits_failure :: bool

definition only_emits :: reaction where
  "only_emits = \<lparr>suspend_for = None, disables = False, emits_failure = True\<rparr>"

definition error_reaction :: "relay_config \<Rightarrow> error_with_status \<Rightarrow> reaction" where
  "error_reaction cfg e =
     (if is_internal_infra_error e then only_emits
      else if is_adaptor_internal_error e then only_emits
      else if is_user_originated_relay_error e then only_emits
      else if es_status e = 400 then only_emits
      else if es_status e = 429 then
        only_emits\<lparr>suspend_for :=
          Some (if es_retry_after e > 0 then es_retry_after e * 10 ^ 9 else rc_suspend_429 cfg)\<rparr>
      else if es_status e = 408 \<or> es_cancelled e then only_emits
      else if es_status e = 413 then only_emits
      else if es_status e \<ge> 500 \<and> es_status e \<le> 599 then
        (if upstream_suggests_retry e then only_emits
         else only_emits\<lparr>suspend_for := Some (rc_suspend_5xx cfg)\<rparr>)
      else if es_status e = 401 \<or> es_status e = 403 \<or> classify_auth_like e then
        (if should_disable_channel (rc_automatic_disable cfg) e
         then \<lparr>suspend_for = Some (rc_suspend_auth cfg), disables = True, emits_failure = False\<rparr>
         else only_emits\<lparr>suspend_for := Some (rc_suspend_auth cfg)\<rparr>)
      else if should_disable_channel (rc_automatic_disable cfg) e
        then \<lparr>suspend_for = None, disables = True, emits_failure = False\<rparr>
      else only_emits)"

definition disable_channel :: "outcomes \<Rightarrow> int \<Rightarrow> int \<Rightarrow> channel_store \<Rightarrow> channel_store" where
  "disable_channel stmt now cid = update_channel_status_by_id stmt now cid channel_status_auto_disabled"

definition enable_channel :: "outcomes \<Rightarrow> int \<Rightarrow> int \<Rightarrow> channel_store \<Rightarrow> channel_store" where
  "enable_channel stmt now cid = update_channel_status_by_id stmt now cid channel_status_enabled"

text \<open>
  \<open>processChannelRelayError\<close> on the channels; a failing suspension is only logged. What it emits goes to the
  metrics below.
\<close>

definition process_channel_relay_error ::
  "relay_config \<Rightarrow> outcomes \<Rightarrow> int \<Rightarrow> error_params \<Rightarrow> channel_store \<Rightarrow> bool \<times> channel_store" where
  "process_channel_relay_error cfg stmt now p st =
     (let r = error_reaction cfg (ep_err p);
          st = (case suspend_for r of
              None \<Rightarrow> st
            | Some d \<Rightarrow>
                if stmt ''suspend ability''
                then st\<lparr>cs_abilities := snd (suspend_ability (ep_group p) (ep_original_model p) (ep_channel_id p) d now
                  (cs_abilities st))\<rparr>
                else st);
          st = (if disables r then disable_channel stmt now (ep_channel_id p) st else st) in
      (emits_failure r, st))"

subsection \<open>Metrics\<close>

text \<open>The outcomes of the last calls of each channel.\<close>

type_synonym metric_store = "int \<Rightarrow> bool list"

definition trim_window :: "int \<Rightarrow> bool list \<Rightarrow> bool list" where
  "trim_window queue_size w = (if int (length w) > queue_size then tl w else w)"

definition consume_success :: "int \<Rightarrow> int \<Rightarrow> metric_store \<Rightarrow> metric_store" where
  "consume_success queue_size cid ms = ms(cid := trim_window queue_size (ms cid) @ [True])"

definition success_rate :: "bool list \<Rightarrow> rat" where
  "success_rate w = f64 (of_nat (length (filter id w)) / of_nat (length w))"

definition consume_fail :: "int \<Rightarrow> rat \<Rightarrow> int \<Rightarrow> metric_store \<Rightarrow> (bool \<times> rat) \<times> metric_store" where
  "consume_fail queue_size threshold cid ms =
     (let w = trim_window queue_size (ms cid) @ [False];
          ms = ms(cid := w);
          rate = success_rate w in
      if int (length w) < queue_size then ((False, rate), ms)
      else if rate < threshold then ((True, rate), ms(cid := []))
      else ((False, rate), ms))"

definition metric_disable_channel :: "outcomes \<Rightarrow> int \<Rightarrow> int \<Rightarrow> channel_store \<Rightarrow> channel_store" where
  "metric_disable_channel stmt now cid = update_channel_status_by_id stmt now cid channel_status_auto_disabled"

text \<open>One event of the two consumers.\<close>

definition emit :: "relay_config \<Rightarrow> outcomes \<Rightarrow> int \<Rightarrow> int \<Rightarrow> bool \<Rightarrow> metric_store \<times> channel_store \<Rightarrow> metric_store \<times> channel_store" where
  "emit cfg stmt now cid success s =
     (case s of (ms, st) \<Rightarrow>
      if \<not> rc_enable_metric cfg then (ms, st)
      else if success then (consume_success (rc_metric_queue_size cfg) cid ms, st)
      else
        (case consume_fail (rc_metric_queue_size cfg) (rc_metric_threshold cfg) cid ms of ((disable, rate), ms) \<Rightarrow>
           (ms, if disable then metric_disable_channel stmt now cid st else st)))"

subsection \<open>The context of an attempt\<close>

record relay_context =
  cx_channel_ratio :: rat
  cx_channel_type :: int
  cx_channel_id :: int
  cx_channel_name :: string
  cx_system_prompt :: "string option"
  cx_model_mapping :: "(string, string) gomap"
  cx_rate_limit :: int

text \<open>The smallest group ratio of the channel; \<open>ratio.GetGroupRatio\<close> is a parameter.\<close>

definition minimal_ratio :: "(string \<Rightarrow> rat) \<Rightarrow> string \<Rightarrow> rat" where
  "minimal_ratio group_ratio groups =
     fold (\<lambda>g r. if r < 0 \<or> group_ratio g < r then group_ratio g else r) (split_comma groups) (- 1)"

definition setup_context_for_selected_channel :: "(string \<Rightarrow> rat) \<Rightarrow> channel_row \<Rightarrow> relay_context \<Rightarrow> relay_context" where
  "setup_context_for_selected_channel group_ratio c cx = cx\<lparr>
     cx_channel_ratio := minimal_ratio group_ratio (ch_group c),
     cx_channel_type := ch_type c,
     cx_channel_id := ch_id c,
     cx_channel_name := ch_name c,
     cx_system_prompt := (case ch_system_prompt c of
         Some p \<Rightarrow> if p \<noteq> [] then Some p else cx_system_prompt cx
       | None \<Rightarrow> cx_system_prompt cx),
     cx_model_mapping := get_model_mapping c,
     cx_rate_limit := (case ch_rate_limit c of None \<Rightarrow> 0 | Some n \<Rightarrow> n)\<rparr>"

subsection \<open>Retries\<close>

definition retry_times :: "relay_config \<Rightarrow> int \<Rightarrow> error_with_status \<Rightarrow> string + channel_row list \<Rightarrow> int" where
  "retry_times cfg specific_channel_id e cached =
     (let n = rc_retry_times cfg;
          n = (if should_retry specific_channel_id e \<noteq> None \<and> \<not> is_retryable_upstream_client_error e then 0 else n);
          n = (if es_status e = 429 \<and> n > 0 then n * 2 else n) in
      if es_status e = 413 then (case cached of Inl _ \<Rightarrow> 1 | Inr cs \<Rightarrow> int (length cs) - 1) else n)"

text \<open>
  A source of channels: the channel to take for \<open>ignore_first\<close>, the ids to leave out and \<open>try_larger\<close>, in the
  state of the moment.
\<close>

type_synonym 's channel_source = "'s \<Rightarrow> bool \<Rightarrow> int list \<Rightarrow> bool \<Rightarrow> string + channel_row"

definition select_for_retry :: "'s channel_source \<Rightarrow> int \<Rightarrow> 's \<Rightarrow> int list \<Rightarrow> string + channel_row" where
  "select_for_retry select status s failed =
     (if status = 413 then select s False failed True
      else if status = 429 then
        (case select s True failed False of Inr c \<Rightarrow> Inr c | Inl _ \<Rightarrow> select s False failed False)
      else
        (case select s False failed False of Inr c \<Rightarrow> Inr c | Inl _ \<Rightarrow> select s True failed False))"

text \<open>
  The loop: \<open>attempt\<close> serves the request on a channel, \<open>others\<close> is what happens before the \<open>n\<close>-th next selection.
  The result is the last error, the ids that failed (the first one last) and the ids tried here, in order.
\<close>

fun retry_loop ::
  "'s channel_source \<Rightarrow> (nat \<Rightarrow> 's \<Rightarrow> 's) \<Rightarrow> (channel_row \<Rightarrow> 's \<Rightarrow> error_with_status option \<times> 's) \<Rightarrow> int \<Rightarrow> nat \<Rightarrow>
   error_with_status \<Rightarrow> int list \<Rightarrow> 's \<Rightarrow> error_with_status option \<times> int list \<times> int list \<times> 's" where
  "retry_loop select others attempt status 0 e failed s = (Some e, failed, [], s)"
| "retry_loop select others attempt status (Suc n) e failed s =
     (let s = others n s in
      case select_for_retry select status s failed of
        Inl _ \<Rightarrow> (Some e, failed, [], s)
      | Inr c \<Rightarrow>
          (case attempt c s of
             (None, s) \<Rightarrow> (None, failed, [ch_id c], s)
           | (Some e, s) \<Rightarrow>
               (case retry_loop select others attempt status n e (ch_id c # failed) s of
                  (r, failed, tried, s) \<Rightarrow> (r, failed, ch_id c # tried, s))))"

definition message_with_request_id :: "string \<Rightarrow> string \<Rightarrow> string" where
  "message_with_request_id message rid = message @ '' (request id: '' @ rid @ '')''"

definition final_error :: "string \<Rightarrow> int list \<Rightarrow> error_with_status \<Rightarrow> error_with_status" where
  "final_error rid failed e =
     (let e = (if es_status e = 429 then
           e\<lparr>es_message :=
             (if length failed > 1
              then ''All available channels ('' @ itoa (int (length failed)) @
                '') for this model are currently rate limited, please try again later''
              else ''The current group load is saturated, please try again later'')\<rparr>
         else e) in
      e\<lparr>es_message := message_with_request_id (es_message e) rid\<rparr>)"

text \<open>\<open>Relay\<close>: the first attempt on the channel of the distributor, then the retries.\<close>

definition relay ::
  "relay_config \<Rightarrow> int \<Rightarrow> string \<Rightarrow> ('s \<Rightarrow> string + channel_row list) \<Rightarrow> 's channel_source \<Rightarrow> (nat \<Rightarrow> 's \<Rightarrow> 's) \<Rightarrow>
   (channel_row \<Rightarrow> 's \<Rightarrow> error_with_status option \<times> 's) \<Rightarrow> channel_row \<Rightarrow> 's \<Rightarrow> error_with_status option \<times> int list \<times> 's" where
  "relay cfg specific_channel_id rid cached select others attempt c s =
     (case attempt c s of
        (None, s) \<Rightarrow> (None, [ch_id c], s)
      | (Some e, s) \<Rightarrow>
          (case retry_loop select others attempt (es_status e)
                  (nat (retry_times cfg specific_channel_id e (cached s))) e [ch_id c] s of
             (r, failed, tried, s) \<Rightarrow> (map_option (final_error rid failed) r, ch_id c # tried, s)))"

subsection \<open>Sources that leave out what failed\<close>

locale excluding_source =
  fixes select :: "'s channel_source"
  assumes excludes: "select s ignore_first exclude try_larger = Inr c \<Longrightarrow> ch_id c \<notin> set exclude"
begin

lemma retry_excludes: "select_for_retry select status s failed = Inr c \<Longrightarrow> ch_id c \<notin> set failed"
  using excludes by (auto simp: select_for_retry_def split: if_splits sum.splits)

lemma loop_tries:
  "retry_loop select others attempt status n e failed s = (r, failed', tried, s') \<Longrightarrow>
     distinct tried \<and> set tried \<inter> set failed = {} \<and> length tried \<le> n"
proof (induction n arbitrary: e failed s r failed' tried s')
  case (Suc n)
  show ?case
  proof (cases "select_for_retry select status (others n s) failed")
    case (Inl m)
    with Suc.prems show ?thesis by simp
  next
    case (Inr c)
    obtain res s1 where a: "attempt c (others n s) = (res, s1)" by (cases "attempt c (others n s)")
    show ?thesis
    proof (cases res)
      case None
      with Suc.prems Inr a retry_excludes [OF Inr] show ?thesis by auto
    next
      case (Some e1)
      obtain r2 f2 t2 s2 where l: "retry_loop select others attempt status n e1 (ch_id c # failed) s1 = (r2, f2, t2, s2)"
        by (cases "retry_loop select others attempt status n e1 (ch_id c # failed) s1") auto
      from Suc.IH [OF l] Suc.prems Inr a Some l retry_excludes [OF Inr] show ?thesis by auto
    qed
  qed
qed simp

text \<open>What failed is what was tried, but for a last attempt that succeeded.\<close>

lemma loop_failed:
  "retry_loop select others attempt status n e failed s = (r, failed', tried, s') \<Longrightarrow>
     (case r of None \<Rightarrow> tried \<noteq> [] \<and> failed' = rev (butlast tried) @ failed | Some e' \<Rightarrow> failed' = rev tried @ failed)"
proof (induction n arbitrary: e failed s r failed' tried s')
  case (Suc n)
  show ?case
  proof (cases "select_for_retry select status (others n s) failed")
    case (Inl m)
    with Suc.prems show ?thesis by auto
  next
    case (Inr c)
    obtain res s1 where a: "attempt c (others n s) = (res, s1)" by (cases "attempt c (others n s)")
    show ?thesis
    proof (cases res)
      case None
      with Suc.prems Inr a show ?thesis by auto
    next
      case (Some e1)
      obtain r2 f2 t2 s2 where l: "retry_loop select others attempt status n e1 (ch_id c # failed) s1 = (r2, f2, t2, s2)"
        by (cases "retry_loop select others attempt status n e1 (ch_id c # failed) s1") auto
      from Suc.IH [OF l] Suc.prems Inr a Some l show ?thesis by (auto split: option.splits)
    qed
  qed
qed simp

lemma relay_tries:
  assumes "relay cfg specific rid cached select others attempt c s = (r, tried, s')"
  shows "distinct tried \<and> tried \<noteq> [] \<and> hd tried = ch_id c \<and>
    (case attempt c s of (None, s1) \<Rightarrow> r = None \<and> tried = [ch_id c]
     | (Some e, s1) \<Rightarrow> length tried \<le> Suc (nat (retry_times cfg specific e (cached s1))))"
proof -
  obtain res s1 where a: "attempt c s = (res, s1)" by (cases "attempt c s")
  show ?thesis
  proof (cases res)
    case (Some e)
    obtain r2 f2 t2 s2 where l: "retry_loop select others attempt (es_status e)
        (nat (retry_times cfg specific e (cached s1))) e [ch_id c] s1 = (r2, f2, t2, s2)"
      by (cases "retry_loop select others attempt (es_status e)
        (nat (retry_times cfg specific e (cached s1))) e [ch_id c] s1") auto
    from loop_tries [OF l] assms a Some l show ?thesis by (auto simp: relay_def)
  qed (use assms a in \<open>auto simp: relay_def\<close>)
qed

end

text \<open>The channels of a store, with a seed for the random choice: \<open>others\<close> may set it to any number.\<close>

record retry_state =
  rs_store :: channel_store
  rs_now :: int
  rs_seed :: nat

definition seeded :: "nat \<Rightarrow> nat \<Rightarrow> nat" where
  "seeded seed n = seed mod n"

lemma random_seeded: "random_choice (seeded seed)"
  by (simp add: random_choice_def seeded_def)

definition store_source :: "bool \<Rightarrow> string \<Rightarrow> string \<Rightarrow> retry_state channel_source" where
  "store_source memory_cache g m s ignore_first exclude try_larger =
     select_channel_excluding memory_cache (seeded (rs_seed s)) (cs_cache (rs_store s)) (cs_channels (rs_store s))
       (cs_abilities (rs_store s)) (rs_now s) g m ignore_first exclude try_larger"

definition store_cached :: "bool \<Rightarrow> string \<Rightarrow> string \<Rightarrow> retry_state \<Rightarrow> string + channel_row list" where
  "store_cached memory_cache g m s = get_channels_from_cache memory_cache (cs_cache (rs_store s)) g m"

interpretation store_source: excluding_source "store_source memory_cache g m" for memory_cache g m
  by unfold_locales (auto simp: store_source_def dest: selected_not_excluded [OF random_seeded])

subsection \<open>The second selection\<close>

text \<open>Where no channel of the first tier is left there is no channel at all: the fallback to lower tiers fails too.\<close>

lemma choose_cached_Inl: "isl (choose_cached rnd False cs) \<longleftrightarrow> cs = []"
  by (simp add: choose_cached_def Let_def)

lemma fallback_never_helps:
  assumes "select_channel_excluding memory_cache rnd cache channels abl now g m False exclude False = Inl x"
    and "random_choice rnd" "store_match st" "channels = cs_channels st" "abl = cs_abilities st"
  shows "isl (select_channel_excluding memory_cache rnd cache channels abl now g m True exclude False)"
proof (cases memory_cache)
  case True
  with assms(1) have "cache g m = [] \<or> filter (\<lambda>c. ch_id c \<notin> set exclude) (cache g m) = []"
    using choose_cached_Inl [of rnd "filter (\<lambda>c. ch_id c \<notin> set exclude) (cache g m)"]
    by (auto simp: select_channel_excluding_def cache_get_random_satisfied_channel_excluding_def Let_def split: if_splits)
  with True show ?thesis
    by (auto simp: select_channel_excluding_def cache_get_random_satisfied_channel_excluding_def choose_cached_def Let_def)
next
  case False
  let ?S = "eligible g m exclude now channels abl"
  have m: "abilities_match channels abl" using assms(3-5) by (simp add: store_match_def)
  from assms(1) False have "isl (get_random_satisfied_channel_excluding rnd g m False exclude now channels abl)"
    by (simp add: select_channel_excluding_def)
  with db_picks [OF m, of g m False exclude now] assms(2) have "tier False ?S = {}"
    unfolding picks_def by (metis sum.disc(2))
  moreover have "finite ?S" by (simp add: eligible_def)
  ultimately have "?S = {}" using top_tier_nonempty by (auto simp: tier_def)
  then have "tier True ?S = {}" by (simp add: tier_def)
  with db_picks [OF m, of g m True exclude now] False show ?thesis
    by (simp add: picks_def select_channel_excluding_def)
qed

subsection \<open>Errors and channels\<close>

lemma cancelled_is_users:
  assumes "es_status e = 408 \<or> es_cancelled e"
  shows "is_user_originated_relay_error e"
proof -
  have "is_client_context_cancel e" using assms by (auto simp: is_client_context_cancel_def)
  then show ?thesis by (simp add: is_user_originated_relay_error_def)
qed

lemma reaction_only_emits:
  assumes "is_user_originated_relay_error e \<or> is_adaptor_internal_error e \<or> is_internal_infra_error e \<or>
     es_status e \<in> {400, 408, 413} \<or> es_cancelled e"
  shows "error_reaction cfg e = only_emits"
proof (cases "is_internal_infra_error e \<or> is_adaptor_internal_error e \<or> is_user_originated_relay_error e")
  case True
  then show ?thesis unfolding error_reaction_def by presburger
next
  case False
  with assms cancelled_is_users have "es_status e = 400 \<or> es_status e = 413" by blast
  with False show ?thesis by (elim disjE) (simp_all add: error_reaction_def)
qed

lemma process_match:
  assumes "store_match st" "stmt ''update ability status''"
  shows "store_match (snd (process_channel_relay_error cfg stmt now p st))"
proof -
  have "store_match (disable_channel stmt now cid st')" if "store_match st'" for cid st'
    unfolding disable_channel_def using that assms(2)
    by (intro status_match) (simp_all add: channel_status_auto_disabled_def channel_status_enabled_def)
  with suspend_match [OF assms(1)] assms(1) show ?thesis
    by (simp add: process_channel_relay_error_def Let_def split: option.splits)
qed

subsection \<open>The window of the metrics\<close>

text \<open>One outcome of one channel: whether it disables the channel, and the window.\<close>

definition metric_step :: "int \<Rightarrow> rat \<Rightarrow> bool list \<Rightarrow> bool \<Rightarrow> bool \<times> bool list" where
  "metric_step q thr w x =
     (if x then (False, consume_success q 0 (\<lambda>_. w) 0)
      else (case consume_fail q thr 0 (\<lambda>_. w) of ((d, r), ms) \<Rightarrow> (d, ms 0)))"

lemma consume_channel:
  "consume_success q cid ms cid = snd (metric_step q thr (ms cid) True)"
  "fst (fst (consume_fail q thr cid ms)) = fst (metric_step q thr (ms cid) False)"
  "snd (consume_fail q thr cid ms) cid = snd (metric_step q thr (ms cid) False)"
  "cid' \<noteq> cid \<Longrightarrow> consume_success q cid ms cid' = ms cid'"
  "cid' \<noteq> cid \<Longrightarrow> snd (consume_fail q thr cid ms) cid' = ms cid'"
  by (simp_all add: metric_step_def consume_success_def consume_fail_def Let_def)

fun metric_run :: "int \<Rightarrow> rat \<Rightarrow> bool list \<Rightarrow> bool list \<Rightarrow> bool list" where
  "metric_run q thr w [] = []"
| "metric_run q thr w (x # xs) = (case metric_step q thr w x of (d, w) \<Rightarrow> d # metric_run q thr w xs)"

text \<open>The reference keeps the whole history since the last disabling and looks at its last outcomes.\<close>

definition last_n :: "nat \<Rightarrow> 'a list \<Rightarrow> 'a list" where
  "last_n n xs = drop (length xs - n) xs"

fun reference_run :: "nat \<Rightarrow> rat \<Rightarrow> bool list \<Rightarrow> bool list \<Rightarrow> bool list" where
  "reference_run q thr h [] = []"
| "reference_run q thr h (x # xs) =
     (let recent = last_n (Suc q) (h @ [x]);
          d = (\<not> x \<and> length recent \<ge> q \<and> success_rate recent < thr) in
      d # reference_run q thr (if d then [] else h @ [x]) xs)"

lemma last_n_snoc: "trim_window (int q) (last_n (Suc q) h) @ [x] = last_n (Suc q) (h @ [x])"
proof (cases "length h \<le> q")
  case True
  then show ?thesis by (simp add: trim_window_def last_n_def)
next
  case False
  then have "int (length (last_n (Suc q) h)) > int q" by (simp add: last_n_def)
  then have "trim_window (int q) (last_n (Suc q) h) = drop (Suc (length h - Suc q)) h"
    by (simp add: trim_window_def last_n_def drop_Suc tl_drop)
  with False show ?thesis by (simp add: last_n_def Suc_diff_Suc)
qed

lemma metric_step_recent:
  "metric_step (int q) thr (last_n (Suc q) h) x =
     (let recent = last_n (Suc q) (h @ [x]); d = (\<not> x \<and> length recent \<ge> q \<and> success_rate recent < thr) in
      (d, last_n (Suc q) (if d then [] else h @ [x])))"
  using last_n_snoc [of q h x]
  by (auto simp: metric_step_def consume_success_def consume_fail_def Let_def last_n_def not_less)

lemma metric_run_recent: "metric_run (int q) thr (last_n (Suc q) h) xs = reference_run q thr h xs"
  by (induction xs arbitrary: h) (simp_all add: metric_step_recent Let_def)


subsection \<open>Properties\<close>

text \<open>
  C31. C. However the channels change between the attempts, a request is tried on pairwise different channels,
  first on the one of the distributor, and at most \<open>retry_times\<close> more; a success ends it.
\<close>

theorem relay_tries_each_channel_once:
  assumes "relay cfg specific rid (store_cached memory_cache g m) (store_source memory_cache g m) others attempt c s = (r, tried, s')"
  shows "distinct tried \<and> tried \<noteq> [] \<and> hd tried = ch_id c \<and>
    (case attempt c s of (None, s1) \<Rightarrow> r = None \<and> tried = [ch_id c]
     | (Some e, s1) \<Rightarrow> length tried \<le> Suc (nat (retry_times cfg specific e (store_cached memory_cache g m s1))))"
  by (rule store_source.relay_tries [OF assms])


text \<open>
  C33. C. The window of the metrics, trimmed with each outcome, disables a channel exactly when the last
  \<open>queue_size + 1\<close> outcomes since it was last disabled do: at a failure, with at least \<open>queue_size\<close> of them and a
  success rate under the threshold.
\<close>

theorem metrics_see_last_outcomes: "metric_run (int q) thr [] xs = reference_run q thr [] xs"
  using metric_run_recent [of q thr "[]" xs] by (simp add: last_n_def)

subsection \<open>Examples\<close>

definition failed_with :: "int \<Rightarrow> error_with_status" where
  "failed_with status = \<lparr>es_status = status, es_type = [], es_code = NilCode, es_message = [], es_retry_after = 0,
     es_cancelled = False, es_ffprobe = False\<rparr>"

definition retry_config :: relay_config where
  "retry_config = \<lparr>rc_retry_times = 3, rc_suspend_429 = 5, rc_suspend_5xx = 10, rc_suspend_auth = 60,
     rc_automatic_disable = True, rc_enable_metric = True, rc_metric_queue_size = 10, rc_metric_threshold = 4 / 5\<rparr>"

definition retry_start :: retry_state where
  "retry_start = \<lparr>rs_store = \<lparr>cs_channels = example_channels, cs_abilities = example_abilities,
     cs_cache = init_channel_cache 0 example_channels example_abilities\<rparr>, rs_now = 0, rs_seed = 0\<rparr>"

text \<open>The first channel answers 500, then the second one serves the request.\<close>

definition first_fails :: "channel_row \<Rightarrow> retry_state \<Rightarrow> error_with_status option \<times> retry_state" where
  "first_fails c s = ((if ch_id c = 1 then Some (failed_with 500) else None), s)"

lemma example_retry:
  "(case relay retry_config 0 ''r'' (store_cached True ''vip'' ''m'') (store_source True ''vip'' ''m'') (\<lambda>_ s. s) first_fails
     (example_channel 1 5 1000) retry_start of (r, tried, s') \<Rightarrow> (r, tried)) = (None, [1, 2])"
  by code_simp

theorem relay_tries_each_channel_once_witness:
  "\<exists>s'. relay retry_config 0 ''r'' (store_cached True ''vip'' ''m'') (store_source True ''vip'' ''m'') (\<lambda>_ s. s) first_fails
     (example_channel 1 5 1000) retry_start = (None, [1, 2], s') \<and> distinct [1, 2 :: int]"
proof -
  obtain s' where r: "relay retry_config 0 ''r'' (store_cached True ''vip'' ''m'') (store_source True ''vip'' ''m'') (\<lambda>_ s. s)
      first_fails (example_channel 1 5 1000) retry_start = (None, [1, 2], s')"
    using example_retry by (auto split: prod.splits)
  from relay_tries_each_channel_once [OF this] r show ?thesis by blast
qed

definition failure_params :: "int \<Rightarrow> error_params" where
  "failure_params status = \<lparr>ep_channel_id = 2, ep_group = ''vip'', ep_original_model = ''m'', ep_err = failed_with status\<rparr>"


text \<open>A key the upstream service reports as invalid with status 400 never suspends or disables its channel.\<close>

lemma bad_key_400_not_disabled:
  "should_disable_channel True ((failed_with 400)\<lparr>es_message := ''API key not valid''\<rparr>) \<and>
   error_reaction retry_config ((failed_with 400)\<lparr>es_message := ''API key not valid''\<rparr>) = only_emits"
  by code_simp

text \<open>The word credit anywhere in the message of a 404 disables the channel.\<close>

lemma credit_disables:
  "disables (error_reaction retry_config ((failed_with 404)\<lparr>es_message := ''no model accredited''\<rparr>))"
  by code_simp

text \<open>The code of an error without one prints as \<open><nil>\<close>, so the malformed tool call is not recognised.\<close>

lemma nil_code_not_empty:
  "\<not> is_upstream_malformed_tool_call_error
     ((failed_with 400)\<lparr>es_message := ''Failed to parse tool call arguments as JSON''\<rparr>) \<and>
   is_upstream_malformed_tool_call_error
     ((failed_with 400)\<lparr>es_message := ''Failed to parse tool call arguments as JSON'', es_code := StringCode []\<rparr>)"
  by code_simp

text \<open>After a 413 a request is retried though it asked for one channel, or was cancelled.\<close>

lemma retry_413_unconditional:
  "should_retry 7 (failed_with 413) \<noteq> None \<and> retry_times retry_config 7 (failed_with 413) (Inr [c1, c2, c3]) = 2"
  by (simp add: should_retry_def retry_times_def failed_with_def)

text \<open>A channel without a system prompt keeps the one of the channel tried before.\<close>

lemma system_prompt_kept:
  "ch_system_prompt c = None \<Longrightarrow> cx_system_prompt (setup_context_for_selected_channel ratio c cx) = cx_system_prompt cx"
  by (simp add: setup_context_for_selected_channel_def)

end
