(* ===== verification/RetryCosts.thy ===== *)
theory RetryCosts
  imports RelayBilling RelayRetry
begin

text \<open>
  What a retried text request costs: the attempts of \<open>controller/relay.go\<close> with the billing of
  \<open>relay/controller/text.go\<close>. The attempts share the context of the request, in which \<open>possibly_forwarded\<close> stays
  set once it is.
\<close>

subsection \<open>Attempts that serve a text request\<close>

text \<open>
  \<open>meta_of\<close> and \<open>up_of\<close> give what \<open>meta.GetByContext\<close> reads for a channel and its upstream service, \<open>to_error\<close> the HTTP
  error of a failed attempt.
\<close>

definition text_attempt ::
  "(channel_row \<Rightarrow> relay_meta) \<Rightarrow> (channel_row \<Rightarrow> upstream) \<Rightarrow> text_request \<Rightarrow> (relay_error \<Rightarrow> error_with_status) \<Rightarrow>
   channel_row \<Rightarrow> retry_state \<times> gin_context \<times> relay_world \<Rightarrow> error_with_status option \<times> retry_state \<times> gin_context \<times> relay_world" where
  "text_attempt meta_of up_of r to_error c s =
     (case s of (rs, cs) \<Rightarrow>
      (case relay_text_helper (meta_of c) r (up_of c) cs of (err, cs) \<Rightarrow> (map_option to_error err, rs, cs)))"

definition relay_text_request ::
  "relay_config \<Rightarrow> int \<Rightarrow> string \<Rightarrow> bool \<Rightarrow> string \<Rightarrow> string \<Rightarrow> (nat \<Rightarrow> retry_state \<Rightarrow> retry_state) \<Rightarrow>
   (channel_row \<Rightarrow> relay_meta) \<Rightarrow> (channel_row \<Rightarrow> upstream) \<Rightarrow> text_request \<Rightarrow> (relay_error \<Rightarrow> error_with_status) \<Rightarrow>
   channel_row \<Rightarrow> retry_state \<times> gin_context \<times> relay_world \<Rightarrow>
   error_with_status option \<times> int list \<times> retry_state \<times> gin_context \<times> relay_world" where
  "relay_text_request cfg specific rid memory_cache g m others meta_of up_of r to_error =
     relay cfg specific rid (\<lambda>s. store_cached memory_cache g m (fst s))
       (\<lambda>s. store_source memory_cache g m (fst s)) (\<lambda>n s. (others n (fst s), snd s))
       (text_attempt meta_of up_of r to_error)"

text \<open>What an attempt reserves: the reservation its admission makes, if it is admitted.\<close>

definition reservation :: "relay_meta \<Rightarrow> text_request \<Rightarrow> relay_world \<Rightarrow> int option" where
  "reservation m r s = (case fst (text_admission m r s) of Inl _ \<Rightarrow> None | Inr (pu, i, cr, pre) \<Rightarrow> Some pre)"

text \<open>
  Attempts on several channels that all were admitted and failed after one of them was forwarded, with their
  reservations.
\<close>

fun failed_attempts ::
  "(channel_row \<Rightarrow> relay_meta) \<Rightarrow> (channel_row \<Rightarrow> upstream) \<Rightarrow> text_request \<Rightarrow> channel_row list \<Rightarrow>
   gin_context \<times> relay_world \<Rightarrow> (int list \<times> gin_context \<times> relay_world) option" where
  "failed_attempts meta_of up_of r [] cs = Some ([], cs)"
| "failed_attempts meta_of up_of r (c # ch) cs =
     (case (reservation (meta_of c) r (snd cs), relay_text_helper (meta_of c) r (up_of c) cs) of
        (Some pre, Some e, c', s') \<Rightarrow>
          if 0 \<le> pre \<and> possibly_forwarded c' then
            map_option (\<lambda>(pres, cs). (pre # pres, cs)) (failed_attempts meta_of up_of r ch (c', s'))
          else None
      | _ \<Rightarrow> None)"

lemma reservation_admission:
  assumes "reservation m r s = Some pre"
  obtains pu i cr s1 where "text_admission m r s = (Inr (pu, i, cr, pre), s1)"
  using assms by (cases "text_admission m r s") (auto simp: reservation_def split: sum.splits prod.splits)

subsection \<open>Paying in steps\<close>

lemma paid_trans:
  assumes p: "paid s0 tid t u a s" and r: "row_after s tid t u a t' u'" and p': "paid s tid t' u' b s'"
  shows "paid s0 tid t u (a + b) s'"
proof -
  from p' obtain t2 u2 where "row_after s' tid t' u' b t2 u2" by (auto simp: paid_def)
  with r have "row_after s' tid t u (a + b) t2 u2" by (auto simp: row_after_def)
  then show ?thesis using p p' row_afterD [OF r] by (auto simp: paid_def)
qed

text \<open>The accounts before an attempt: what was paid, and rows that can go on paying.\<close>

definition standing :: "relay_world \<Rightarrow> int \<Rightarrow> token_row \<Rightarrow> user_row \<Rightarrow> int \<Rightarrow> relay_world \<Rightarrow> token_row \<Rightarrow> user_row \<Rightarrow> bool" where
  "standing s0 tid t u a s t' u' \<longleftrightarrow> paid s0 tid t u a s \<and> row_after s tid t u a t' u' \<and> in_i64 (u_quota u') \<and>
     prices_of s = prices_of s0"

lemma standing_start:
  assumes "calm s" "\<not> redis_enabled s" "owned s tid t u" "in_i64 (u_quota u)"
  shows "standing s tid t u 0 s t u"
  using paid_start [OF assms(1-3)] assms(3,4) by (simp add: standing_def row_after_def)

lemma standing_facts:
  assumes "standing s0 tid t u a s t' u'"
  shows "calm s" "\<not> redis_enabled s" "owned s tid t' u'" "in_i64 (u_quota u')" "t_user_id t' = t_user_id t"
    "affords t' u' q \<longleftrightarrow> affords t u (a + q)" "prices_of s = prices_of s0"
  using assms paid_calm [of s0 tid t u a s] by (auto simp: standing_def row_after_def affords_def)

lemma request_for_row: "request_for m r tid t \<Longrightarrow> t_user_id t' = t_user_id t \<Longrightarrow> request_for m r tid t'"
  by (simp add: request_for_def)

lemma failed_attempt_pays:
  assumes st: "standing s0 tid t u a s t' u'" and rq: "request_for m r tid t" and ns: "\<not> tr_stream r"
    and a: "text_admission m r s = (Inr (pu, i, cr, pre), s1)" "0 \<le> pre"
    and r: "relay_text_helper m r up (c0, s) = (Some e, c', s')" and fw: "possibly_forwarded c'"
  shows "\<exists>t2 u2. standing s0 tid t u (a + pre) s' t2 u2"
proof -
  note f = standing_facts [OF st]
  have rq': "request_for m r tid t'" by (rule request_for_row [OF rq f(5)])
  have p: "paid s tid t' u' pre s'" "prices_of s' = prices_of s"
    using failed_attempt_keeps_reservation [OF f(1-4) rq' a ns r fw] by blast+
  have aff: "0 < pre \<longrightarrow> affords t' u' pre" using admission_end [OF paid_start [OF f(1-3)] rq' a] by blast
  from st have "paid s0 tid t u a s" "row_after s tid t u a t' u'" by (simp_all add: standing_def)
  from paid_trans [OF this p(1)] have p2: "paid s0 tid t u (a + pre) s'" .
  then obtain t2 u2 where r2: "row_after s' tid t u (a + pre) t2 u2" by (auto simp: paid_def)
  have "u_quota u2 = u_quota u' - pre" using r2 st by (auto simp: standing_def row_after_def)
  then have "in_i64 (u_quota u2)" using f(4) aff a(2) by (cases "pre = 0") (auto simp: affords_def in_i64_def)
  with p2 r2 p(2) f(7) show ?thesis by (auto simp: standing_def)
qed

lemma failed_attempts_pay:
  "failed_attempts meta_of up_of r ch (c0, s) = Some (pres, c1, s1) \<Longrightarrow> standing s0 tid t u a s t' u' \<Longrightarrow>
   (\<And>c. request_for (meta_of c) r tid t) \<Longrightarrow> \<not> tr_stream r \<Longrightarrow>
   length pres = length ch \<and> (\<forall>pre \<in> set pres. 0 \<le> pre) \<and> (\<exists>t2 u2. standing s0 tid t u (a + sum_list pres) s1 t2 u2)"
proof (induction ch arbitrary: c0 s pres a t' u')
  case (Cons c ch)
  from Cons.prems(1) obtain pre e c' s' where
    a: "reservation (meta_of c) r s = Some pre" and r: "relay_text_helper (meta_of c) r (up_of c) (c0, s) = (Some e, c', s')"
    and pre: "0 \<le> pre" and fw: "possibly_forwarded c'"
    by (auto split: option.splits prod.splits if_splits)
  with Cons.prems(1) obtain pres' where f: "failed_attempts meta_of up_of r ch (c', s') = Some (pres', c1, s1)"
    and pres: "pres = pre # pres'" by auto
  from reservation_admission [OF a] obtain pu i cr s2 where "text_admission (meta_of c) r s = (Inr (pu, i, cr, pre), s2)" .
  from failed_attempt_pays [OF Cons.prems(2,3,4) this pre r fw] obtain t2 u2 where
    "standing s0 tid t u (a + pre) s' t2 u2" by blast
  from Cons.IH [OF f this Cons.prems(3,4)] pre show ?case by (simp add: pres add.assoc)
qed auto

subsection \<open>The attempts of a request\<close>

lemma text_attempt_pair:
  "text_attempt meta_of up_of r to_error c (rs, cs) =
     (case relay_text_helper (meta_of c) r (up_of c) cs of (err, cs) \<Rightarrow> (map_option to_error err, rs, cs))"
  by (simp add: text_attempt_def)

lemma loop_runs:
  assumes "\<And>n s. snd (others n s) = snd s"
  shows "retry_loop select others (text_attempt meta_of up_of r to_error) status n e failed (rs, cs) = (None, failed', tried, rs', cs') \<Longrightarrow>
    \<exists>ch cl. map ch_id (ch @ [cl]) = tried \<and> (\<forall>pres cs1. failed_attempts meta_of up_of r ch cs = Some (pres, cs1) \<longrightarrow>
      relay_text_helper (meta_of cl) r (up_of cl) cs1 = (None, cs'))"
proof (induction n arbitrary: e failed rs cs failed' tried)
  case (Suc n)
  obtain rs1 where o: "others n (rs, cs) = (rs1, cs)" using assms [of n "(rs, cs)"] by (cases "others n (rs, cs)") auto
  show ?case
  proof (cases "select_for_retry select status (rs1, cs) failed")
    case (Inl m)
    with Suc.prems o show ?thesis by simp
  next
    case (Inr c)
    obtain res cs1 where h: "relay_text_helper (meta_of c) r (up_of c) cs = (res, cs1)"
      by (cases "relay_text_helper (meta_of c) r (up_of c) cs")
    show ?thesis
    proof (cases res)
      case None
      with Suc.prems o Inr h have "tried = [ch_id c]" "cs1 = cs'" by (auto simp: text_attempt_pair)
      with h None show ?thesis by (intro exI [of _ "[]"] exI [of _ c]) auto
    next
      case (Some e1)
      obtain r2 f2 t2 s2 where l: "retry_loop select others (text_attempt meta_of up_of r to_error) status n (to_error e1)
          (ch_id c # failed) (rs1, cs1) = (r2, f2, t2, s2)"
        by (cases "retry_loop select others (text_attempt meta_of up_of r to_error) status n (to_error e1)
          (ch_id c # failed) (rs1, cs1)") auto
      with Suc.prems o Inr h Some have t: "tried = ch_id c # t2" and "r2 = None" "s2 = (rs', cs')"
        by (auto simp: text_attempt_pair)
      with Suc.IH [of "to_error e1" "ch_id c # failed" rs1 cs1 f2 t2] l obtain ch cl where
        m: "map ch_id (ch @ [cl]) = t2" and f: "\<And>pres cs2. failed_attempts meta_of up_of r ch cs1 = Some (pres, cs2) \<Longrightarrow>
          relay_text_helper (meta_of cl) r (up_of cl) cs2 = (None, cs')" by auto
      have "relay_text_helper (meta_of cl) r (up_of cl) cs2 = (None, cs')"
        if "failed_attempts meta_of up_of r (c # ch) cs = Some (pres, cs2)" for pres cs2
        using that h Some f by (auto split: option.splits prod.splits if_splits)
      with m t show ?thesis by (intro exI [of _ "c # ch"] exI [of _ cl]) auto
    qed
  qed
qed simp

lemma relay_runs:
  assumes "relay_text_request cfg specific rid mc g m others meta_of up_of r to_error c (rs, cs) = (None, tried, rs', cs')"
  shows "\<exists>ch cl. map ch_id (ch @ [cl]) = tried \<and> (\<forall>pres cs1. failed_attempts meta_of up_of r ch cs = Some (pres, cs1) \<longrightarrow>
      relay_text_helper (meta_of cl) r (up_of cl) cs1 = (None, cs'))"
proof -
  let ?loop = "retry_loop (\<lambda>s. store_source mc g m (fst s)) (\<lambda>n s. (others n (fst s), snd s)) (text_attempt meta_of up_of r to_error)"
  obtain res cs1 where h: "relay_text_helper (meta_of c) r (up_of c) cs = (res, cs1)"
    by (cases "relay_text_helper (meta_of c) r (up_of c) cs")
  show ?thesis
  proof (cases res)
    case None
    with assms h have "tried = [ch_id c]" "cs1 = cs'" by (auto simp: relay_text_request_def relay_def text_attempt_pair)
    with h None show ?thesis by (intro exI [of _ "[]"] exI [of _ c]) auto
  next
    case (Some e)
    define n where "n = nat (retry_times cfg specific (to_error e) (store_cached mc g m rs))"
    obtain r2 f2 t2 s2 where l: "?loop (es_status (to_error e)) n (to_error e) [ch_id c] (rs, cs1) = (r2, f2, t2, s2)"
      by (cases "?loop (es_status (to_error e)) n (to_error e) [ch_id c] (rs, cs1)") auto
    with assms h Some have t: "tried = ch_id c # t2" and s2: "r2 = None" "s2 = (rs', cs')"
      by (auto simp: relay_text_request_def relay_def text_attempt_pair n_def)
    from loop_runs [OF _ l [unfolded s2]] obtain ch cl where m: "map ch_id (ch @ [cl]) = t2" and
      f: "\<And>pres cs2. failed_attempts meta_of up_of r ch cs1 = Some (pres, cs2) \<Longrightarrow>
          relay_text_helper (meta_of cl) r (up_of cl) cs2 = (None, cs')" by auto
    have "relay_text_helper (meta_of cl) r (up_of cl) cs2 = (None, cs')"
      if "failed_attempts meta_of up_of r (c # ch) cs = Some (pres, cs2)" for pres cs2
      using that h Some f by (auto split: option.splits prod.splits if_splits)
    with m t show ?thesis by (intro exI [of _ "c # ch"] exI [of _ cl]) auto
  qed
qed

lemma failed_attempts_forwarded:
  "failed_attempts meta_of up_of r ch cs = Some (pres, c1, s1) \<Longrightarrow> ch \<noteq> [] \<Longrightarrow> possibly_forwarded c1"
proof (induction ch arbitrary: cs pres)
  case (Cons c ch)
  then show ?case by (cases "ch = []") (auto split: option.splits prod.splits if_splits)
qed simp



subsection \<open>Example\<close>

text \<open>Nothing in an attempt that ends with an upstream error changes the configuration.\<close>

lemma estimate_config:
  "estimate_pre_consumed_quota m r pu i cr s = (q, s') \<Longrightarrow> pre_consumed_quota_config s' = pre_consumed_quota_config s"
  by (auto simp: estimate_pre_consumed_quota_def dest: compute_quota_spec(4) split: if_splits prod.splits)

lemma admission_config:
  assumes c: "paid s0 tid t u a s" and r: "text_admission m r s = (Inr (pu, i, cr, pre), s')"
  shows "pre_consumed_quota_config s' = pre_consumed_quota_config s"
proof -
  obtain x g where tp: "text_prices m r (global_pricing s) = (x, g)" by (cases "text_prices m r (global_pricing s)")
  let ?s1 = "s\<lparr>global_pricing := g\<rparr>"
  have "quiet s ?s1" by simp
  from paid_quiet [OF c this] have p1: "paid s0 tid t u a ?s1" .
  have pc: "pre_consume_quota m r pu i cr ?s1 = (Inr pre, s')"
    using r tp by (auto simp: text_admission_def Let_def split: if_splits prod.splits option.splits sum.splits)
  obtain est s2 where es: "estimate_pre_consumed_quota m r pu i cr ?s1 = (est, s2)"
    by (cases "estimate_pre_consumed_quota m r pu i cr ?s1")
  have "stands s0 tid t u a (prices_of ?s1) s2" using stands_estimate [OF _ es] p1 by (simp add: stands_def)
  from stands_calm [OF this] have calm: "calm s2" "\<not> redis_enabled s2" by simp_all
  have c2: "pre_consumed_quota_config s2 = pre_consumed_quota_config s" using estimate_config [OF es] by simp
  obtain y where g: "cache_get_user_quota (m_user_id m) s2 = (y, s2)"
    using calm by (simp add: get_user_quota_def exec_calm)
  obtain z s3 where p3: "pre_consume_token_quota (m_token_id m) pre s2 = (z, s3)"
    by (cases "pre_consume_token_quota (m_token_id m) pre s2")
  have a3: "aside s2 s3" using pre_consume_aside [of s2 "m_token_id m" pre] by (simp add: p3)
  then have r3: "\<not> redis_enabled s3" using calm by (simp add: aside_def)
  have "pre_consumed_quota_config s3 = pre_consumed_quota_config s2" by (rule relay_fields_aside(2) [OF a3])
  then show ?thesis
    using pc g p3 r3 c2 by (auto simp: pre_consume_quota_def es Let_def split: if_splits sum.splits prod.splits)
qed

lemma update_cost_config:
  assumes "calm s"
  shows "pre_consumed_quota_config (snd (update_user_request_cost_quota_by_request_id uid rid q s)) = pre_consumed_quota_config s"
proof (cases "rid = []")
  case False
  from request_cost_calm [OF assms False, of uid q] show ?thesis by auto
qed (simp add: update_user_request_cost_quota_by_request_id_def)

lemma provisional_config:
  "calm s \<Longrightarrow> pre_consumed_quota_config (snd (record_provisional_log m r q s)) = pre_consumed_quota_config s"
  by (simp add: record_provisional_log_def record_provisional_consume_log_def look_up_username_calm insert_log_calm)

lemma upstream_error_config:
  assumes p: "paid s0 tid t u 0 s" and rq: "request_for m r tid t"
    and a: "text_admission m r s = (Inr (pu, i, cr, pre), s1)" "0 \<le> pre"
    and up: "up_convert_ok up" "up_transport up = HelperTransport" "up_setup_ok up" "up_send up = Inr (Some resp)"
      "status_code resp = 500"
    and r: "relay_text_helper m r up (c0, s) = (err, c', s')"
  shows "pre_consumed_quota_config s' = pre_consumed_quota_config s \<and> err = Some (UpstreamHttpError (Some 500)) \<and> possibly_forwarded c'"
proof -
  from admission_end [OF p rq a] have st: "stands s0 tid t u pre (prices_of s) s1" by simp
  obtain l s2 where l: "record_provisional_log m r pre s1 = (l, s2)" by (cases "record_provisional_log m r pre s1")
  have st2: "stands s0 tid t u pre (prices_of s) s2" using stands_provisional [OF st, of m r pre] by (simp add: l)
  obtain est s3 where es: "estimate_pre_consumed_quota m r pu i cr s2 = (est, s3)"
    by (cases "estimate_pre_consumed_quota m r pu i cr s2")
  note st3 = stands_estimate [OF st2 es]
  define s4 where "s4 = record_request_cost m est s3"
  have st4: "stands s0 tid t u pre (prices_of s) s4" using stands_record_cost [OF st3, of m est] by (simp add: s4_def)
  have "pre_consumed_quota_config s2 = pre_consumed_quota_config s1"
    using provisional_config [of s1 m r pre] stands_calm [OF st] by (simp add: l)
  moreover have "pre_consumed_quota_config s4 = pre_consumed_quota_config s3"
    using update_cost_config [of s3] stands_calm [OF st3] by (simp add: s4_def record_request_cost_def)
  ultimately have c4: "pre_consumed_quota_config s4 = pre_consumed_quota_config s"
    using estimate_config [OF es] admission_config [OF p a(1)] by simp
  have err: "is_error_happened m (tr_stream r) (Some resp)" by (simp add: is_error_happened_def up)
  let ?c = "((mark_pre_consumed pre c0)\<lparr>provisional_log_id := l\<rparr>)\<lparr>possibly_forwarded := True\<rparr>"
  obtain b c6 s6 where ret: "return_pre_consumed_quota_conservative pre (m_token_id m) (?c, s4) = (b, c6, s6)"
    by (cases "return_pre_consumed_quota_conservative pre (m_token_id m) (?c, s4)") auto
  then have c6: "s6 = s4" "possibly_forwarded c6"
    by (auto simp: return_pre_consumed_quota_conservative_def should_skip_pre_consumed_refund_def mark_billing_reconciled_def
        split: if_splits)
  have "err = Some (UpstreamHttpError (Some 500))" and c': "c' = c6"
    and s': "s' = snd (update_user_request_cost_quota_by_request_id (m_user_id m) (m_request_id m) 0 s4)"
    using r ret err c6 by (auto simp: relay_text_helper_def a(1) l text_exchange_def up es s4_def [symmetric] do_request_def
        do_request_helper_def safety_net_forwarded Let_def)
  then show ?thesis using update_cost_config [of s4] stands_calm [OF st4] c4 c6 by simp
qed

lemma example_up: "up_convert_ok example_error" "up_transport example_error = HelperTransport" "up_setup_ok example_error"
  "up_send example_error = Inr (Some \<lparr>status_code = 500, json_content = True\<rparr>)"
  by (simp_all add: example_error_def example_answer_def)

text \<open>Two channels: the first upstream service answers 500, the second one answers.\<close>

definition two_upstreams :: "channel_row \<Rightarrow> upstream" where
  "two_upstreams c = (if ch_id c = 1 then example_error else example_answer)"

lemma second_channel:
  "store_source True ''vip'' ''m'' retry_start False [1] False = Inr (example_channel 2 3 500)"
  by code_simp

lemma three_retries: "nat (retry_times retry_config 0 (failed_with 500) cached) = 3"
  by (simp add: retry_times_def should_retry_def failed_with_def retry_config_def)

lemma failed_status: "es_status (failed_with n) = n"
  by (simp add: failed_with_def)

lemma example_ids: "ch_id (example_channel i p l) = i"
  by (simp add: example_channel_def)

lemma example_answers:
  assumes "text_admission example_meta example_text s = (Inr (example_usage 100 0, example_prices_of, 2, 150), s1)"
  shows "fst (relay_text_helper example_meta example_text example_answer (c0, s)) = None"
  by (simp add: relay_text_helper_def assms text_exchange_def text_answer_def text_settle_def Let_def do_request_def
      do_request_helper_def example_fields is_error_happened_def split: prod.split)


end
