(* ===== verification/Routing.thy ===== *)
theory Routing
  imports Channels
begin

text \<open>
  What a request asks for and what a channel offers: the relay modes of \<open>relay/relaymode\<close>, the endpoints of
  \<open>relay/channeltype/endpoints.go\<close>, and the detection of image input (\<open>middleware/utils.go\<close>).
\<close>

subsection \<open>Relay modes\<close>

datatype relay_mode = UnknownMode | ChatCompletions | Completions | Embeddings | Moderations | ImagesGenerations | Edits
  | AudioSpeech | AudioTranscription | AudioTranslation | ProxyMode | Rerank | ImagesEdits | ResponseAPI | ClaudeMessages
  | Realtime | Videos | OCR

definition relay_mode_string :: "relay_mode \<Rightarrow> string" where
  "relay_mode_string mode = (case mode of
     ChatCompletions \<Rightarrow> ''chat'' | Completions \<Rightarrow> ''completion'' | Embeddings \<Rightarrow> ''embedding''
   | Moderations \<Rightarrow> ''moderation'' | ImagesGenerations \<Rightarrow> ''image_generation'' | Edits \<Rightarrow> ''edit''
   | AudioSpeech \<Rightarrow> ''audio_speech'' | AudioTranscription \<Rightarrow> ''audio_transcription''
   | AudioTranslation \<Rightarrow> ''audio_translation'' | ProxyMode \<Rightarrow> ''proxy'' | Rerank \<Rightarrow> ''rerank'' | ImagesEdits \<Rightarrow> ''image_edit''
   | ResponseAPI \<Rightarrow> ''response_api'' | ClaudeMessages \<Rightarrow> ''claude_messages'' | Realtime \<Rightarrow> ''realtime''
   | Videos \<Rightarrow> ''video'' | OCR \<Rightarrow> ''ocr'' | UnknownMode \<Rightarrow> ''unknown'')"

text \<open>The cases of the switch in their order, each with its prefixes and its suffixes.\<close>

definition path_cases :: "(string list \<times> string list \<times> relay_mode) list" where
  "path_cases =
    [([''/v1/realtime''], [], Realtime),
     ([''/v1/oneapi/proxy''], [], ProxyMode),
     ([''/v1/responses''], [], ResponseAPI),
     ([''/v1/messages''], [], ClaudeMessages),
     ([''/v1/chat/completions''], [], ChatCompletions),
     ([''/v1/completions''], [], Completions),
     ([''/v1/embeddings''], [''embeddings''], Embeddings),
     ([''/v1/rerank''], [''/v2/rerank'', ''/rerank'', ''/rerankers''], Rerank),
     ([''/v1/moderations''], [], Moderations),
     ([''/v1/images/generations''], [], ImagesGenerations),
     ([''/v1/edits''], [], Edits),
     ([''/v1/audio/speech''], [], AudioSpeech),
     ([''/v1/audio/transcriptions''], [], AudioTranscription),
     ([''/v1/audio/translations''], [], AudioTranslation),
     ([''/v1/images/edits''], [], ImagesEdits),
     ([''/v1/videos''], [], Videos),
     ([''/api/paas/v4/layout_parsing''], [], OCR)]"

definition get_by_path :: "string \<Rightarrow> relay_mode" where
  "get_by_path path =
     (case find (\<lambda>(prefixes, suffixes, mode). list_ex (has_prefix path) prefixes \<or> list_ex (has_suffix path) suffixes)
        path_cases of
        None \<Rightarrow> UnknownMode
      | Some (_, _, mode) \<Rightarrow> mode)"

subsection \<open>Channel types\<close>

datatype channel_type = UnknownType | OpenAI | API2D | Azure | CloseAI | OpenAISB | OpenAIMax | OhMyGPT | Custom | Ails
  | AIProxy | PaLM | API2GPT | AIGC2D | Anthropic | Baidu | Zhipu | Ali | Xunfei | AI360 | OpenRouter | AIProxyLibrary
  | FastGPT | Tencent | Gemini | Moonshot | Baichuan | Minimax | Mistral | Groq | Ollama | LingYiWanWu | StepFun
  | AwsClaude | Coze | Cohere | DeepSeek | GLM | Cloudflare | DeepL | TogetherAI | Doubao | Novita | VertextAI | Proxy
  | SiliconFlow | XAI | Replicate | BaiduV2 | XunfeiV2 | AliBailian | OpenAICompatible | GeminiOpenAICompatible
  | ClaudeCompatible | Copilot | TencentTokenHub | Dummy

text \<open>The order of the constants is their value (\<open>iota\<close>); a number past them has no type.\<close>

definition channel_types :: "channel_type list" where
  "channel_types = [UnknownType, OpenAI, API2D, Azure, CloseAI, OpenAISB, OpenAIMax, OhMyGPT, Custom, Ails,
     AIProxy, PaLM, API2GPT, AIGC2D, Anthropic, Baidu, Zhipu, Ali, Xunfei, AI360, OpenRouter, AIProxyLibrary,
     FastGPT, Tencent, Gemini, Moonshot, Baichuan, Minimax, Mistral, Groq, Ollama, LingYiWanWu, StepFun,
     AwsClaude, Coze, Cohere, DeepSeek, GLM, Cloudflare, DeepL, TogetherAI, Doubao, Novita, VertextAI, Proxy,
     SiliconFlow, XAI, Replicate, BaiduV2, XunfeiV2, AliBailian, OpenAICompatible, GeminiOpenAICompatible,
     ClaudeCompatible, Copilot, TencentTokenHub, Dummy]"

definition channel_type_of :: "int \<Rightarrow> channel_type" where
  "channel_type_of n = (if 0 \<le> n \<and> nat n < length channel_types then channel_types ! nat n else UnknownType)"

subsection \<open>Endpoints\<close>

text \<open>An endpoint is the relay mode it serves.\<close>

definition all_endpoints :: "(relay_mode \<times> string) list" where
  "all_endpoints =
    [(ChatCompletions, ''chat_completions''), (Completions, ''completions''), (Embeddings, ''embeddings''),
     (Moderations, ''moderations''), (ImagesGenerations, ''images_generations''), (ImagesEdits, ''images_edits''),
     (AudioSpeech, ''audio_speech''), (AudioTranscription, ''audio_transcription''),
     (AudioTranslation, ''audio_translation''), (Rerank, ''rerank''), (ResponseAPI, ''response_api''),
     (ClaudeMessages, ''claude_messages''), (Realtime, ''realtime''), (Videos, ''videos''), (OCR, ''ocr'')]"

text \<open>The path each endpoint is documented with.\<close>

definition endpoint_paths :: "(relay_mode \<times> string) list" where
  "endpoint_paths =
    [(ChatCompletions, ''/v1/chat/completions''), (Completions, ''/v1/completions''), (Embeddings, ''/v1/embeddings''),
     (Moderations, ''/v1/moderations''), (ImagesGenerations, ''/v1/images/generations''), (ImagesEdits, ''/v1/images/edits''),
     (AudioSpeech, ''/v1/audio/speech''), (AudioTranscription, ''/v1/audio/transcriptions''),
     (AudioTranslation, ''/v1/audio/translations''), (Rerank, ''/v1/rerank''), (ResponseAPI, ''/v1/responses''),
     (ClaudeMessages, ''/v1/messages''), (Realtime, ''/v1/realtime''), (Videos, ''/v1/videos''),
     (OCR, ''/api/paas/v4/layout_parsing'')]"

definition endpoint_name_to_id :: "string \<Rightarrow> relay_mode option" where
  "endpoint_name_to_id name = map_of (map (\<lambda>(e, n). (n, e)) all_endpoints) (to_lower (trim_space name))"

definition endpoint_id_to_name :: "relay_mode \<Rightarrow> string" where
  "endpoint_id_to_name e = (case map_of all_endpoints e of None \<Rightarrow> [] | Some n \<Rightarrow> n)"

definition parse_endpoint_list :: "string list \<Rightarrow> relay_mode list" where
  "parse_endpoint_list names = List.map_filter endpoint_name_to_id names"

definition endpoint_list_to_names :: "relay_mode list \<Rightarrow> string list" where
  "endpoint_list_to_names es = filter (\<lambda>n. n \<noteq> []) (map endpoint_id_to_name es)"

definition open_ai_full :: "relay_mode list" where
  "open_ai_full = [ChatCompletions, Completions, Embeddings, Moderations, ImagesGenerations, ImagesEdits, AudioSpeech,
     AudioTranscription, AudioTranslation, ResponseAPI, ClaudeMessages, Realtime, Videos]"

definition chat_only :: "relay_mode list" where
  "chat_only = [ChatCompletions, ResponseAPI, ClaudeMessages]"

definition chat_and_embeddings :: "relay_mode list" where
  "chat_and_embeddings = [ChatCompletions, Embeddings, ResponseAPI, ClaudeMessages]"

definition chat_embeddings_images :: "relay_mode list" where
  "chat_embeddings_images = [ChatCompletions, Embeddings, ImagesGenerations, ResponseAPI, ClaudeMessages]"

definition default_endpoints_for_channel_type :: "int \<Rightarrow> relay_mode list" where
  "default_endpoints_for_channel_type n =
     (let t = channel_type_of n in
      if t \<in> {OpenAI, API2D, CloseAI, OpenAISB, OpenAIMax, OhMyGPT, Ails, AIProxy, API2GPT, AIGC2D, FastGPT, Proxy}
        then open_ai_full
      else if t = Azure then [ChatCompletions, Completions, Embeddings, ImagesGenerations, AudioSpeech, AudioTranscription,
        ResponseAPI, ClaudeMessages]
      else if t \<in> {Gemini, GeminiOpenAICompatible, AliBailian, Mistral, Ollama, AwsClaude, Cloudflare, TogetherAI, Doubao,
        SiliconFlow} then chat_and_embeddings
      else if t = Copilot then [ChatCompletions, Embeddings, ResponseAPI]
      else if t = Zhipu then [ChatCompletions, Embeddings, ImagesGenerations, ResponseAPI, ClaudeMessages, OCR]
      else if t \<in> {Ali, VertextAI, XAI} then chat_embeddings_images
      else if t = Baidu then [ChatCompletions, Embeddings, Rerank, ResponseAPI, ClaudeMessages]
      else if t \<in> {BaiduV2, Cohere} then [ChatCompletions, Rerank, ResponseAPI, ClaudeMessages]
      else if t = Groq then [ChatCompletions, AudioTranscription, ResponseAPI, ClaudeMessages]
      else if t = DeepL then []
      else if t = Replicate then [ChatCompletions, ImagesGenerations, ResponseAPI, ClaudeMessages]
      else if t \<in> {Custom, OpenAICompatible} then [ChatCompletions, Completions, Embeddings, ImagesGenerations, AudioSpeech,
        AudioTranscription, ResponseAPI, ClaudeMessages, Videos]
      else chat_only)"

definition default_endpoint_names_for_channel_type :: "int \<Rightarrow> string list" where
  "default_endpoint_names_for_channel_type n = endpoint_list_to_names (default_endpoints_for_channel_type n)"

definition is_endpoint_supported :: "relay_mode \<Rightarrow> relay_mode list \<Rightarrow> bool" where
  "is_endpoint_supported mode es \<longleftrightarrow> mode \<in> set es"

definition is_endpoint_supported_by_name :: "string \<Rightarrow> string list \<Rightarrow> bool" where
  "is_endpoint_supported_by_name name names \<longleftrightarrow>
     list_ex (\<lambda>n. to_lower (trim_space n) = to_lower (trim_space name)) names"

definition relay_mode_to_endpoint_name :: "relay_mode \<Rightarrow> string" where
  "relay_mode_to_endpoint_name mode = endpoint_id_to_name mode"

subsection \<open>What a channel supports\<close>

definition channel_supports_endpoint :: "channel_row \<Rightarrow> relay_mode \<Rightarrow> bool" where
  "channel_supports_endpoint c mode =
     (let name = relay_mode_to_endpoint_name mode; custom = get_supported_endpoints c in
      if name = [] then True
      else if custom \<noteq> [] then is_endpoint_supported_by_name name custom
      else is_endpoint_supported_by_name name (default_endpoint_names_for_channel_type (ch_type c)))"

definition channel_supports_response_web_socket :: "channel_row \<Rightarrow> relay_mode \<Rightarrow> bool \<Rightarrow> bool" where
  "channel_supports_response_web_socket c mode handshake \<longleftrightarrow>
     \<not> handshake \<or> mode \<noteq> ResponseAPI \<or> channel_type_of (ch_type c) = OpenAI"

definition channel_supports_group :: "channel_row \<Rightarrow> string \<Rightarrow> bool" where
  "channel_supports_group c user_group =
     (let target = trim_space user_group in
      target \<noteq> [] \<and> list_ex (\<lambda>g. equal_fold (trim_space g) target) (split_comma (ch_group c)))"

subsection \<open>Image input\<close>

text \<open>A decoded JSON value.\<close>

datatype json = JNull | JBool bool | JNumber rat | JString string | JArray "json list" | JObject "(string \<times> json) list"

fun collect_image_markers :: "json \<Rightarrow> string list" where
  "collect_image_markers (JObject fs) =
     (case map_of fs ''type'' of
        Some (JString marker) \<Rightarrow>
          if to_lower (trim_space marker) \<in> {''image_url'', ''input_image'', ''image''} then [to_lower (trim_space marker)] else []
      | _ \<Rightarrow> []) @
     (if ''image_url'' \<in> fst ` set fs then [''image_url''] else []) @
     concat (map (\<lambda>f. collect_image_markers (snd f)) fs)"
| "collect_image_markers (JArray vs) = concat (map collect_image_markers vs)"
| "collect_image_markers _ = []"

definition json_field :: "json \<Rightarrow> string \<Rightarrow> json" where
  "json_field v name = (case v of JObject fs \<Rightarrow> (case map_of fs name of None \<Rightarrow> JNull | Some w \<Rightarrow> w) | _ \<Rightarrow> JNull)"

text \<open>The body, \<open>None\<close> where it cannot be read as an object; the order of the result is not used.\<close>

definition detect_image_input_content_types :: "string \<Rightarrow> json option \<Rightarrow> string list" where
  "detect_image_input_content_types path body =
     (if \<not> (has_prefix path ''/v1/chat/completions'' \<or> has_prefix path ''/v1/messages'' \<or> has_prefix path ''/v1/responses'')
      then []
      else (case body of
          None \<Rightarrow> []
        | Some payload \<Rightarrow>
            remdups (collect_image_markers (json_field payload ''messages'') @ collect_image_markers (json_field payload ''input''))))"

definition request_contains_image_input :: "string \<Rightarrow> json option \<Rightarrow> bool" where
  "request_contains_image_input path body \<longleftrightarrow> detect_image_input_content_types path body \<noteq> []"

definition is_text_only_chat_model_name :: "string \<Rightarrow> bool" where
  "is_text_only_chat_model_name name =
     (let normalized = to_lower (trim_space name) in normalized \<noteq> [] \<and> contains_sub normalized ''gpt-oss'')"

definition is_model_in_list :: "string \<Rightarrow> string \<Rightarrow> bool" where
  "is_model_in_list name models \<longleftrightarrow> name \<in> set (split_comma models)"

subsection \<open>Lemmas\<close>

text \<open>Names and ids of the endpoints are each other's inverses.\<close>

lemma endpoint_table:
  "list_all (\<lambda>(e, n). n \<noteq> [] \<and> endpoint_id_to_name e = n \<and> endpoint_name_to_id n = Some e) all_endpoints"
  by code_simp

lemma endpoint_entry:
  assumes "endpoint_id_to_name e \<noteq> []"
  shows "(e, endpoint_id_to_name e) \<in> set all_endpoints"
  using assms map_of_SomeD [of all_endpoints e] by (auto simp: endpoint_id_to_name_def split: option.splits)

lemma endpoint_round_trip: "endpoint_id_to_name e \<noteq> [] \<Longrightarrow> endpoint_name_to_id (endpoint_id_to_name e) = Some e"
  using endpoint_entry [of e] endpoint_table by (auto simp: list_all_iff)

lemma endpoint_of_name: "endpoint_name_to_id n = Some e \<Longrightarrow> endpoint_id_to_name e = to_lower (trim_space n)"
  using endpoint_table by (auto simp: endpoint_name_to_id_def list_all_iff dest!: map_of_SomeD)

lemma endpoint_name_equal:
  "to_lower (trim_space n) = to_lower (trim_space k) \<Longrightarrow> endpoint_name_to_id n = endpoint_name_to_id k"
  by (simp add: endpoint_name_to_id_def)

lemma endpoint_name_normal: "to_lower (trim_space (to_lower (trim_space n))) = to_lower (trim_space n)"
  by (simp add: trim_space_lower to_lower_idem)

text \<open>A list of names supports a mode exactly if one of the names is read as the mode.\<close>

lemma supported_by_name:
  assumes m: "endpoint_id_to_name mode \<noteq> []"
  shows "is_endpoint_supported_by_name (endpoint_id_to_name mode) names \<longleftrightarrow> mode \<in> set (parse_endpoint_list names)"
proof -
  have "to_lower (trim_space n) = to_lower (trim_space (endpoint_id_to_name mode)) \<longleftrightarrow> endpoint_name_to_id n = Some mode" for n
  proof
    assume "to_lower (trim_space n) = to_lower (trim_space (endpoint_id_to_name mode))"
    from endpoint_name_equal [OF this] endpoint_round_trip [OF m] show "endpoint_name_to_id n = Some mode" by simp
  next
    assume "endpoint_name_to_id n = Some mode"
    from endpoint_of_name [OF this] show "to_lower (trim_space n) = to_lower (trim_space (endpoint_id_to_name mode))"
      by (simp only: endpoint_name_normal)
  qed
  note same = this
  show ?thesis
    by (induction names)
      (auto simp: is_endpoint_supported_by_name_def parse_endpoint_list_def List.map_filter_simps same split: option.splits)
qed

lemma parse_names: "parse_endpoint_list (endpoint_list_to_names es) = filter (\<lambda>e. endpoint_id_to_name e \<noteq> []) es"
  by (induction es) (auto simp: parse_endpoint_list_def endpoint_list_to_names_def List.map_filter_simps endpoint_round_trip)

text \<open>What a channel supports: its configured endpoints, or those of its type; a mode without an endpoint is not checked.\<close>

lemma channel_supports_mode:
  "channel_supports_endpoint c mode \<longleftrightarrow>
     endpoint_id_to_name mode = [] \<or>
     mode \<in> set (if get_supported_endpoints c = [] then default_endpoints_for_channel_type (ch_type c)
       else parse_endpoint_list (get_supported_endpoints c))"
  by (auto simp: channel_supports_endpoint_def relay_mode_to_endpoint_name_def Let_def supported_by_name
      default_endpoint_names_for_channel_type_def parse_names)

text \<open>Each endpoint is reached by its path.\<close>

lemma paths_reach_endpoints:
  "map fst endpoint_paths = map fst all_endpoints" "list_all (\<lambda>(e, p). get_by_path p = e) endpoint_paths"
  by code_simp+

end
