(* ===== verification/Sticky.thy ===== *)
theory Sticky
  imports ChannelChoice
begin

text \<open>
  Which channel a user's session or response is bound to (\<open>model/sticky_session.go\<close>), kept in memory or in Redis.
  Times are nanoseconds. A reply list says how the next Redis calls end: \<open>Some e\<close> is a failure with the message \<open>e\<close>,
  which changes nothing; past its end the calls succeed. A Redis key whose time is over is gone.
\<close>

subsection \<open>Keys\<close>

definition normalized_model_key :: "string \<Rightarrow> string" where
  "normalized_model_key model = (let trimmed = trim_space (to_lower model) in if trimmed = [] then ''unknown'' else trimmed)"

definition sticky_session_key :: "int \<Rightarrow> string \<Rightarrow> string" where
  "sticky_session_key uid model = ''sticky_session:user:'' @ itoa uid @ '':model:'' @ normalized_model_key model"

definition response_channel_key :: "int \<Rightarrow> string \<Rightarrow> string" where
  "response_channel_key uid rid = ''response_channel:user:'' @ itoa uid @ '':response:'' @ trim_space rid"

definition function_context_key :: "int \<Rightarrow> string \<Rightarrow> string" where
  "function_context_key uid model = ''function_context:user:'' @ itoa uid @ '':model:'' @ normalized_model_key model"

subsection \<open>Stores\<close>

record function_context =
  fc_request_id :: string
  fc_user_id :: int
  fc_model :: string
  fc_channel_id :: int
  fc_previous_response_id :: string
  fc_tool_count :: int
  fc_created_at :: int

record sticky_store =
  sk_memory :: "string \<rightharpoonup> int \<times> int"                            \<comment> \<open>channel and end of validity\<close>
  sk_redis :: "string \<rightharpoonup> string \<times> int"
  sk_lists :: "string \<rightharpoonup> function_context list \<times> int option"
  sk_replies :: "string option list"

record sticky_config =
  sc_redis_enabled :: bool
  sc_client :: bool                                          \<comment> \<open>\<open>RDB\<close> is not nil\<close>
  sc_timeout :: int                                          \<comment> \<open>seconds\<close>
  sc_history_limit :: int

definition sticky_session_ttl :: "sticky_config \<Rightarrow> int" where
  "sticky_session_ttl cfg = (if sc_timeout cfg \<le> 0 then 30 * 60 else sc_timeout cfg) * 10 ^ 9"

definition next_reply :: "sticky_store \<Rightarrow> string option \<times> sticky_store" where
  "next_reply s = (case sk_replies s of [] \<Rightarrow> (None, s) | r # rs \<Rightarrow> (r, s\<lparr>sk_replies := rs\<rparr>))"

definition redis_set :: "sticky_config \<Rightarrow> int \<Rightarrow> string \<Rightarrow> string \<Rightarrow> int \<Rightarrow> sticky_store \<Rightarrow> string option \<times> sticky_store" where
  "redis_set cfg now key val ttl s =
     (if \<not> sc_client cfg then (Some ''redis not initialized'', s)
      else (case next_reply s of
          (Some e, s) \<Rightarrow> (Some (''failed to set redis key: '' @ key @ '': '' @ e), s)
        | (None, s) \<Rightarrow> (None, s\<lparr>sk_redis := (sk_redis s)(key \<mapsto> (val, now + ttl))\<rparr>)))"

definition redis_get :: "sticky_config \<Rightarrow> int \<Rightarrow> string \<Rightarrow> sticky_store \<Rightarrow> (string + string) \<times> sticky_store" where
  "redis_get cfg now key s =
     (if \<not> sc_client cfg then (Inl ''redis not initialized'', s)
      else (case next_reply s of
          (Some e, s) \<Rightarrow> (Inl (''failed to get redis key: '' @ key @ '': '' @ e), s)
        | (None, s) \<Rightarrow>
            (case sk_redis s key of
               Some (val, e) \<Rightarrow> if now < e then (Inr val, s) else (Inl (''failed to get redis key: '' @ key @ '': redis: nil''), s)
             | None \<Rightarrow> (Inl (''failed to get redis key: '' @ key @ '': redis: nil''), s))))"

definition redis_del :: "sticky_config \<Rightarrow> string \<Rightarrow> sticky_store \<Rightarrow> string option \<times> sticky_store" where
  "redis_del cfg key s =
     (if \<not> sc_client cfg then (Some ''redis not initialized'', s)
      else (case next_reply s of
          (Some e, s) \<Rightarrow> (Some (''failed to delete redis key: '' @ key @ '': '' @ e), s)
        | (None, s) \<Rightarrow> (None, s\<lparr>sk_redis := (sk_redis s)(key := None)\<rparr>)))"

text \<open>\<open>fmt.Sscanf(s, "%d", _)\<close> into an \<open>int\<close>; what follows the digits is ignored.\<close>

definition scan_int :: "string \<Rightarrow> int option" where
  "scan_int s =
     (let s = dropWhile (\<lambda>c. is_space c \<and> c \<noteq> CHR 0x0A) s;
          neg = (s \<noteq> [] \<and> hd s = CHR ''-'');
          s = (if s \<noteq> [] \<and> hd s \<in> {CHR ''-'', CHR ''+''} then tl s else s);
          ds = takeWhile is_digit s;
          n = (if neg then - int (digits_val ds) else int (digits_val ds)) in
      if ds = [] \<or> \<not> in_i64 n then None else Some n)"

subsection \<open>Bindings\<close>

text \<open>The common part of the two lookups; a lookup in memory deletes an entry that is over.\<close>

definition lookup_redis :: "sticky_config \<Rightarrow> string \<Rightarrow> string \<Rightarrow> int \<Rightarrow> string \<Rightarrow> sticky_store \<Rightarrow> (string + int option) \<times> sticky_store" where
  "lookup_redis cfg get_msg parse_msg now key s =
     (case redis_get cfg now key s of
        (Inl e, s) \<Rightarrow>
          if contains_sub (to_lower e) ''redis: nil'' then (Inr None, s) else (Inl (get_msg @ '': '' @ e), s)
      | (Inr val, s) \<Rightarrow>
          (case scan_int val of
             None \<Rightarrow> (Inl parse_msg, s)
           | Some cid \<Rightarrow> (Inr (if cid \<le> 0 then None else Some cid), s)))"

definition drop_memory :: "string \<Rightarrow> sticky_store \<Rightarrow> sticky_store" where
  "drop_memory key s = s\<lparr>sk_memory := (sk_memory s)(key := None)\<rparr>"

definition put_memory :: "sticky_config \<Rightarrow> int \<Rightarrow> string \<Rightarrow> int \<Rightarrow> sticky_store \<Rightarrow> sticky_store" where
  "put_memory cfg now key cid s = s\<lparr>sk_memory := (sk_memory s)(key \<mapsto> (cid, now + sticky_session_ttl cfg))\<rparr>"

definition lookup_memory :: "int \<Rightarrow> string \<Rightarrow> sticky_store \<Rightarrow> (string + int option) \<times> sticky_store" where
  "lookup_memory now key s =
     (case sk_memory s key of
        None \<Rightarrow> (Inr None, s)
      | Some (cid, e) \<Rightarrow> if now > e then (Inr None, drop_memory key s) else (Inr (Some cid), s))"

definition set_sticky_session_channel ::
  "sticky_config \<Rightarrow> int \<Rightarrow> int \<Rightarrow> string \<Rightarrow> int \<Rightarrow> sticky_store \<Rightarrow> string option \<times> sticky_store" where
  "set_sticky_session_channel cfg now uid model cid s =
     (if uid \<le> 0 \<or> cid \<le> 0 \<or> trim_space model = [] then (Some ''invalid sticky-session binding arguments'', s)
      else
        let key = sticky_session_key uid model in
        if sc_redis_enabled cfg then
          (case redis_set cfg now key (itoa cid) (sticky_session_ttl cfg) s of
             (Some e, s) \<Rightarrow> (Some (''set sticky session channel in redis: '' @ e), s)
           | (None, s) \<Rightarrow> (None, s))
        else (None, put_memory cfg now key cid s))"

definition get_sticky_session_channel ::
  "sticky_config \<Rightarrow> int \<Rightarrow> int \<Rightarrow> string \<Rightarrow> sticky_store \<Rightarrow> (string + int option) \<times> sticky_store" where
  "get_sticky_session_channel cfg now uid model s =
     (if uid \<le> 0 \<or> trim_space model = [] then (Inr None, s)
      else if sc_redis_enabled cfg then
        lookup_redis cfg ''get sticky session channel from redis'' ''parse sticky session channel id'' now
          (sticky_session_key uid model) s
      else lookup_memory now (sticky_session_key uid model) s)"

definition delete_sticky_session_channel :: "sticky_config \<Rightarrow> int \<Rightarrow> string \<Rightarrow> sticky_store \<Rightarrow> string option \<times> sticky_store" where
  "delete_sticky_session_channel cfg uid model s =
     (if uid \<le> 0 \<or> trim_space model = [] then (None, s)
      else
        let key = sticky_session_key uid model in
        if sc_redis_enabled cfg then
          (case redis_del cfg key s of
             (Some e, s) \<Rightarrow> (Some (''delete sticky session channel from redis: '' @ e), s)
           | (None, s) \<Rightarrow> (None, s))
        else (None, drop_memory key s))"

text \<open>Here Redis is tried first, whether it is enabled or not.\<close>

definition set_response_bound_channel ::
  "sticky_config \<Rightarrow> int \<Rightarrow> int \<Rightarrow> string \<Rightarrow> int \<Rightarrow> sticky_store \<Rightarrow> string option \<times> sticky_store" where
  "set_response_bound_channel cfg now uid rid cid s =
     (if uid \<le> 0 \<or> cid \<le> 0 \<or> trim_space rid = [] then (Some ''invalid response-channel binding arguments'', s)
      else
        let key = response_channel_key uid rid in
        (case redis_set cfg now key (itoa cid) (sticky_session_ttl cfg) s of
           (Some e, s) \<Rightarrow>
             if \<not> sc_redis_enabled cfg then (None, put_memory cfg now key cid s)
             else (Some (''set response-channel binding in redis: '' @ e), s)
         | (None, s) \<Rightarrow> (None, s)))"

definition get_response_bound_channel ::
  "sticky_config \<Rightarrow> int \<Rightarrow> int \<Rightarrow> string \<Rightarrow> sticky_store \<Rightarrow> (string + int option) \<times> sticky_store" where
  "get_response_bound_channel cfg now uid rid s =
     (if uid \<le> 0 \<or> trim_space rid = [] then (Inr None, s)
      else if sc_redis_enabled cfg then
        lookup_redis cfg ''get response-channel binding from redis'' ''parse response-channel binding channel id'' now
          (response_channel_key uid rid) s
      else lookup_memory now (response_channel_key uid rid) s)"

text \<open>One round of the cleanup.\<close>

definition sticky_cleanup :: "int \<Rightarrow> sticky_store \<Rightarrow> sticky_store" where
  "sticky_cleanup now s = s\<lparr>sk_memory := (\<lambda>key. case sk_memory s key of
     None \<Rightarrow> None
   | Some (cid, e) \<Rightarrow> if now > e then None else Some (cid, e))\<rparr>"

subsection \<open>The history of function calls\<close>

definition live_list :: "int \<Rightarrow> string \<Rightarrow> sticky_store \<Rightarrow> function_context list \<times> int option" where
  "live_list now key s =
     (case sk_lists s key of
        None \<Rightarrow> ([], None)
      | Some (xs, None) \<Rightarrow> (xs, None)
      | Some (xs, Some e) \<Rightarrow> if now < e then (xs, Some e) else ([], None))"

definition max_records :: "sticky_config \<Rightarrow> int" where
  "max_records cfg = (if sc_history_limit cfg \<le> 0 then 50 else sc_history_limit cfg)"

definition push_context :: "sticky_config \<Rightarrow> int \<Rightarrow> string \<Rightarrow> function_context \<Rightarrow> sticky_store \<Rightarrow> sticky_store" where
  "push_context cfg now key entry s =
     (case next_reply s of
        (Some e, s) \<Rightarrow> s
      | (None, s) \<Rightarrow>
          let (xs, e) = live_list now key s;
              s = s\<lparr>sk_lists := (sk_lists s)(key \<mapsto> (entry # xs, e))\<rparr>;
              s = (case next_reply s of
                  (Some _, s) \<Rightarrow> s
                | (None, s) \<Rightarrow> s\<lparr>sk_lists := (sk_lists s)(key \<mapsto> (take (nat (max_records cfg)) (entry # xs), e))\<rparr>) in
          (case next_reply s of
             (Some _, s) \<Rightarrow> s
           | (None, s) \<Rightarrow>
               s\<lparr>sk_lists := (sk_lists s)(key := map_option (\<lambda>(ys, _). (ys, Some (now + sticky_session_ttl cfg)))
                 (sk_lists s key))\<rparr>))"

text \<open>With Redis enabled and no client the call panics: \<open>None\<close>.\<close>

definition record_function_context ::
  "sticky_config \<Rightarrow> int \<Rightarrow> int \<Rightarrow> string \<Rightarrow> int \<Rightarrow> string \<Rightarrow> string \<Rightarrow> int \<Rightarrow> sticky_store \<Rightarrow> sticky_store option" where
  "record_function_context cfg now uid model cid request_id previous tool_count s =
     (if uid \<le> 0 \<or> cid \<le> 0 \<or> trim_space model = [] then Some s
      else if tool_count \<le> 0 \<and> trim_space previous = [] then Some s
      else
        let entry = \<lparr>fc_request_id = trim_space request_id, fc_user_id = uid, fc_model = normalized_model_key model,
              fc_channel_id = cid, fc_previous_response_id = trim_space previous, fc_tool_count = tool_count,
              fc_created_at = now div 10 ^ 9\<rparr>;
            key = function_context_key uid model in
        if sc_redis_enabled cfg then
          if sc_client cfg then Some (push_context cfg now key entry s) else None
        else Some (put_memory cfg now (key @ '':history'') cid s))"

subsection \<open>Keys are unambiguous\<close>

lemma digits_no_colon [simp]: "CHR '':'' \<notin> set (itoa n)"
  by (rule colon_itoa)

lemma session_key_inj:
  "sticky_session_key u m = sticky_session_key v n \<longleftrightarrow> u = v \<and> normalized_model_key m = normalized_model_key n"
  using append_colon_eq [of "CHR '':''" "itoa u" "itoa v"] itoa_inj by (auto simp: sticky_session_key_def)

lemma response_key_inj:
  "response_channel_key u r = response_channel_key v q \<longleftrightarrow> u = v \<and> trim_space r = trim_space q"
  using append_colon_eq [of "CHR '':''" "itoa u" "itoa v"] itoa_inj by (auto simp: response_channel_key_def)

lemma keys_disjoint:
  "sticky_session_key u m \<noteq> response_channel_key v r" "response_channel_key v r \<noteq> sticky_session_key u m"
  "function_context_key u m @ x \<noteq> response_channel_key v r" "response_channel_key v r \<noteq> function_context_key u m @ x"
  "function_context_key u m @ x \<noteq> sticky_session_key v n" "sticky_session_key v n \<noteq> function_context_key u m @ x"
  by (simp_all add: sticky_session_key_def response_channel_key_def function_context_key_def)


subsection \<open>The bindings a sequence of calls leaves\<close>

text \<open>What a binding is for, with its model or response id as the keys normalise it.\<close>

datatype binding = Session int string | Response int string

datatype sticky_op = BindSession int string int | UnbindSession int string | BindResponse int string int
  | LookSession int string | LookResponse int string | FunctionCall int string int string string int | Cleanup

fun binding_key :: "binding \<Rightarrow> string" where
  "binding_key (Session u m) = sticky_session_key u m"
| "binding_key (Response u r) = response_channel_key u r"

text \<open>What an operation does to a binding: the channel it sets, or \<open>None\<close> where it deletes it.\<close>

fun touched :: "sticky_op \<Rightarrow> (string \<times> int option) option" where
  "touched (BindSession u m c) =
     (if u \<le> 0 \<or> c \<le> 0 \<or> trim_space m = [] then None else Some (sticky_session_key u m, Some c))"
| "touched (UnbindSession u m) = (if u \<le> 0 \<or> trim_space m = [] then None else Some (sticky_session_key u m, None))"
| "touched (BindResponse u r c) =
     (if u \<le> 0 \<or> c \<le> 0 \<or> trim_space r = [] then None else Some (response_channel_key u r, Some c))"
| "touched _ = None"

fun exec_sticky :: "sticky_config \<Rightarrow> int \<Rightarrow> sticky_op \<Rightarrow> sticky_store \<Rightarrow> sticky_store" where
  "exec_sticky cfg now (BindSession u m c) s = snd (set_sticky_session_channel cfg now u m c s)"
| "exec_sticky cfg now (UnbindSession u m) s = snd (delete_sticky_session_channel cfg u m s)"
| "exec_sticky cfg now (BindResponse u r c) s = snd (set_response_bound_channel cfg now u r c s)"
| "exec_sticky cfg now (LookSession u m) s = snd (get_sticky_session_channel cfg now u m s)"
| "exec_sticky cfg now (LookResponse u r) s = snd (get_response_bound_channel cfg now u r s)"
| "exec_sticky cfg now (FunctionCall u m c q p n) s =
     (case record_function_context cfg now u m c q p n s of None \<Rightarrow> s | Some s \<Rightarrow> s)"
| "exec_sticky cfg now Cleanup s = (if sc_redis_enabled cfg then s else sticky_cleanup now s)"

definition run_sticky :: "sticky_config \<Rightarrow> (int \<times> sticky_op) list \<Rightarrow> sticky_store \<Rightarrow> sticky_store" where
  "run_sticky cfg ops s = foldl (\<lambda>s (t, op). exec_sticky cfg t op s) s ops"

text \<open>The specification: the last operation on the key decides, as long as its time to live lasts.\<close>

definition last_touch :: "(int \<times> sticky_op) list \<Rightarrow> string \<Rightarrow> (int \<times> int) option" where
  "last_touch ops key =
     foldl (\<lambda>r (t, op). case touched op of
         Some (k, v) \<Rightarrow> if k = key then map_option (\<lambda>c. (c, t)) v else r
       | None \<Rightarrow> r) None ops"

definition in_time :: "sticky_config \<Rightarrow> int \<Rightarrow> int \<Rightarrow> bool" where
  "in_time cfg set_at now \<longleftrightarrow>
     (if sc_redis_enabled cfg then now < set_at + sticky_session_ttl cfg else now \<le> set_at + sticky_session_ttl cfg)"

definition bound_channel :: "sticky_config \<Rightarrow> (int \<times> sticky_op) list \<Rightarrow> int \<Rightarrow> string \<Rightarrow> int option" where
  "bound_channel cfg ops now key =
     (case last_touch ops key of Some (c, t) \<Rightarrow> if in_time cfg t now then Some c else None | None \<Rightarrow> None)"

definition look :: "sticky_config \<Rightarrow> int \<Rightarrow> binding \<Rightarrow> sticky_store \<Rightarrow> string + int option" where
  "look cfg now b s = (case b of
     Session u m \<Rightarrow> fst (get_sticky_session_channel cfg now u m s)
   | Response u r \<Rightarrow> fst (get_response_bound_channel cfg now u r s))"

definition proper_binding :: "binding \<Rightarrow> bool" where
  "proper_binding b = (case b of Session u m \<Rightarrow> u > 0 \<and> trim_space m \<noteq> [] | Response u r \<Rightarrow> u > 0 \<and> trim_space r \<noteq> [])"

text \<open>What a backend shows under a key at a time.\<close>

definition shown_memory :: "int \<Rightarrow> sticky_store \<Rightarrow> string \<Rightarrow> int option" where
  "shown_memory now s key = (case sk_memory s key of Some (c, e) \<Rightarrow> if now > e then None else Some c | None \<Rightarrow> None)"

definition shown_redis :: "int \<Rightarrow> sticky_store \<Rightarrow> string \<Rightarrow> int option" where
  "shown_redis now s key = (case sk_redis s key of
     Some (v, e) \<Rightarrow> if now < e then (case scan_int v of Some c \<Rightarrow> if c \<le> 0 then None else Some c | None \<Rightarrow> None) else None
   | None \<Rightarrow> None)"

text \<open>
  The contract of a backend: a step at time \<open>t\<close> changes what is shown from then on under the key it touches, and
  under no other key a binding can have.
\<close>

locale binding_backend =
  fixes shown :: "int \<Rightarrow> 's \<Rightarrow> string \<Rightarrow> int option"
    and step :: "int \<Rightarrow> sticky_op \<Rightarrow> 's \<Rightarrow> 's"
    and valid :: "int \<Rightarrow> int \<Rightarrow> bool"
    and good :: "'s \<Rightarrow> bool"
    and allowed :: "sticky_op \<Rightarrow> bool"
  assumes keeps: "good s \<Longrightarrow> allowed op \<Longrightarrow> good (step t op s)"
    and displays: "good s \<Longrightarrow> allowed op \<Longrightarrow> t \<le> now \<Longrightarrow>
      shown now (step t op s) (binding_key b) =
        (case touched op of
           Some (k, v) \<Rightarrow> if k = binding_key b then (if valid t now then v else None) else shown now s (binding_key b)
         | None \<Rightarrow> shown now s (binding_key b))"
begin

lemma run_shows:
  assumes "good s" "\<forall>(t, op) \<in> set ops. allowed op \<and> t \<le> now" "shown now s (binding_key b) = None"
  shows "good (foldl (\<lambda>s (t, op). step t op s) s ops) \<and>
    shown now (foldl (\<lambda>s (t, op). step t op s) s ops) (binding_key b) =
      (case last_touch ops (binding_key b) of Some (c, t) \<Rightarrow> if valid t now then Some c else None | None \<Rightarrow> None)"
  using assms(2)
proof (induction ops rule: rev_induct)
  case Nil
  with assms show ?case by (simp add: last_touch_def)
next
  case (snoc o1 ops)
  obtain t op where o: "o1 = (t, op)" by (cases o1)
  let ?s = "foldl (\<lambda>s (t, op). step t op s) s ops"
  from snoc have g: "good ?s" and op: "allowed op" "t \<le> now"
    and ih: "shown now ?s (binding_key b) =
      (case last_touch ops (binding_key b) of Some (c, t) \<Rightarrow> if valid t now then Some c else None | None \<Rightarrow> None)"
    by (auto simp: o)
  from displays [OF g op, of b] ih keeps [OF g op(1)] show ?case
    by (auto simp: o last_touch_def split: option.splits prod.splits)
qed

end

subsection \<open>Memory and Redis as backends\<close>

text \<open>The calls that say a channel number say one of 64 bits.\<close>

fun sized_op :: "sticky_op \<Rightarrow> bool" where
  "sized_op (BindSession u m c) = in_i64 c"
| "sized_op (BindResponse u r c) = in_i64 c"
| "sized_op _ = True"

lemma scan_itoa: "in_i64 n \<Longrightarrow> 0 < n \<Longrightarrow> scan_int (itoa n) = Some n"
proof -
  assume n: "in_i64 n" "0 < n"
  let ?d = "nat_digits (nat n)"
  have i: "itoa n = ?d" using n by (simp add: itoa_def)
  obtain c t where d: "?d = c # t" by (cases ?d) auto
  then have c: "is_digit c" by (rule nat_digits_hd)
  then have "\<not> is_space c" "c \<noteq> CHR ''-''" "c \<noteq> CHR ''+''"
    by (auto simp: is_digit_def is_space_def)
  moreover have "int (digits_val (c # t)) = n" using n d digits_val_nat_digits [of "nat n"] by simp
  moreover have "takeWhile is_digit ?d = ?d" using nat_digits_set [of "nat n"] by (simp add: takeWhile_eq_all_conv)
  ultimately show ?thesis using n d by (simp add: scan_int_def i Let_def)
qed

definition memory_config :: "int \<Rightarrow> int \<Rightarrow> sticky_config" where
  "memory_config timeout limit =
     \<lparr>sc_redis_enabled = False, sc_client = False, sc_timeout = timeout, sc_history_limit = limit\<rparr>"

definition redis_config :: "int \<Rightarrow> int \<Rightarrow> sticky_config" where
  "redis_config timeout limit =
     \<lparr>sc_redis_enabled = True, sc_client = True, sc_timeout = timeout, sc_history_limit = limit\<rparr>"

lemma configs [simp]:
  "sc_redis_enabled (memory_config t l) = False" "sc_client (memory_config t l) = False"
  "sc_redis_enabled (redis_config t l) = True" "sc_client (redis_config t l) = True"
  by (simp_all add: memory_config_def redis_config_def)

lemma shown_put:
  "shown_memory now (put_memory cfg t key cid s) k =
     (if k = key then if now \<le> t + sticky_session_ttl cfg then Some cid else None else shown_memory now s k)"
  by (auto simp: shown_memory_def put_memory_def)

lemma shown_drop: "shown_memory now (drop_memory key s) k = (if k = key then None else shown_memory now s k)"
  by (auto simp: shown_memory_def drop_memory_def)

lemma shown_lookup: "t \<le> now \<Longrightarrow> shown_memory now (snd (lookup_memory t key s)) k = shown_memory now s k"
  by (auto simp: lookup_memory_def shown_drop split: option.splits) (auto simp: shown_memory_def)

lemma shown_cleanup: "t \<le> now \<Longrightarrow> shown_memory now (sticky_cleanup t s) k = shown_memory now s k"
  by (auto simp: shown_memory_def sticky_cleanup_def split: option.splits)

lemma binding_key_not_history: "binding_key b \<noteq> function_context_key u m @ x"
  using keys_disjoint by (cases b) auto

lemma memory_displays:
  assumes "t \<le> now"
  shows "shown_memory now (exec_sticky (memory_config timeout limit) t op s) (binding_key b) =
    (case touched op of
       Some (k, v) \<Rightarrow> if k = binding_key b
         then (if now \<le> t + sticky_session_ttl (memory_config timeout limit) then v else None)
         else shown_memory now s (binding_key b)
     | None \<Rightarrow> shown_memory now s (binding_key b))"
proof (cases op)
  case (FunctionCall u m c q p n)
  then show ?thesis
    using binding_key_not_history [of b] by (auto simp: record_function_context_def Let_def shown_put split: option.splits)
qed (use assms in \<open>auto simp: set_sticky_session_channel_def delete_sticky_session_channel_def Let_def
  get_sticky_session_channel_def set_response_bound_channel_def get_response_bound_channel_def redis_set_def
  shown_put shown_drop shown_lookup shown_cleanup\<close>)

interpretation memory_backend: binding_backend shown_memory "exec_sticky (memory_config timeout limit)"
    "\<lambda>t now. now \<le> t + sticky_session_ttl (memory_config timeout limit)" "\<lambda>_. True" "\<lambda>_. True"
  for timeout limit :: int
  by unfold_locales (simp_all add: memory_displays)

lemma reply_nil [simp]: "sk_replies s = [] \<Longrightarrow> next_reply s = (None, s)"
  by (simp add: next_reply_def)

lemma push_context_redis:
  "sk_replies s = [] \<Longrightarrow> sk_redis (push_context cfg now key entry s) = sk_redis s \<and> sk_replies (push_context cfg now key entry s) = []"
  by (simp add: push_context_def Let_def split: prod.splits)

lemma redis_get_same: "sk_replies s = [] \<Longrightarrow> snd (redis_get cfg now key s) = s"
  by (auto simp: redis_get_def split: option.splits)

lemma lookup_redis_same: "sk_replies s = [] \<Longrightarrow> snd (lookup_redis cfg a b now key s) = s"
  using redis_get_same [of s cfg now key]
  by (cases "redis_get cfg now key s") (auto simp: lookup_redis_def split: sum.splits option.splits)

lemma redis_displays:
  assumes "sk_replies s = []" "sized_op op"
  shows "sk_replies (exec_sticky (redis_config timeout limit) t op s) = [] \<and>
    shown_redis now (exec_sticky (redis_config timeout limit) t op s) k =
    (case touched op of
       Some (k', v) \<Rightarrow> if k' = k
         then (if now < t + sticky_session_ttl (redis_config timeout limit) then v else None)
         else shown_redis now s k
     | None \<Rightarrow> shown_redis now s k)"
proof (cases op)
  case (FunctionCall u m c q p n)
  then show ?thesis
    using assms push_context_redis by (auto simp: record_function_context_def Let_def shown_redis_def split: option.splits)
next
  case (LookSession u m)
  then show ?thesis using assms by (auto simp: get_sticky_session_channel_def lookup_redis_same)
next
  case (LookResponse u m)
  then show ?thesis using assms by (auto simp: get_response_bound_channel_def lookup_redis_same)
qed (use assms in \<open>auto simp: set_sticky_session_channel_def delete_sticky_session_channel_def Let_def
  set_response_bound_channel_def redis_set_def redis_del_def shown_redis_def scan_itoa\<close>)

interpretation redis_backend: binding_backend shown_redis "exec_sticky (redis_config timeout limit)"
    "\<lambda>t now. now < t + sticky_session_ttl (redis_config timeout limit)" "\<lambda>s. sk_replies s = []" sized_op
  for timeout limit :: int
  using redis_displays by unfold_locales auto

subsection \<open>The lookup of a binding\<close>

definition empty_sticky :: sticky_store where
  "empty_sticky = \<lparr>sk_memory = Map.empty, sk_redis = Map.empty, sk_lists = Map.empty, sk_replies = []\<rparr>"

lemma run_memory:
  assumes "\<forall>(t, op) \<in> set ops. t \<le> now"
  shows "shown_memory now (run_sticky (memory_config timeout limit) ops empty_sticky) (binding_key b) =
    bound_channel (memory_config timeout limit) ops now (binding_key b)"
  using memory_backend.run_shows [where s = empty_sticky and ops = ops and now = now and b = b and timeout = timeout and limit = limit] assms
  by (auto simp: run_sticky_def bound_channel_def in_time_def empty_sticky_def shown_memory_def cong: option.case_cong)

lemma run_redis:
  assumes "\<forall>(t, op) \<in> set ops. t \<le> now \<and> sized_op op"
  shows "sk_replies (run_sticky (redis_config timeout limit) ops empty_sticky) = [] \<and>
    shown_redis now (run_sticky (redis_config timeout limit) ops empty_sticky) (binding_key b) =
    bound_channel (redis_config timeout limit) ops now (binding_key b)"
  using redis_backend.run_shows [where s = empty_sticky and ops = ops and now = now and b = b and timeout = timeout and limit = limit] assms
  by (auto simp: run_sticky_def bound_channel_def in_time_def empty_sticky_def shown_redis_def cong: option.case_cong)

lemma look_memory:
  "proper_binding b \<Longrightarrow> look (memory_config timeout limit) now b s = Inr (shown_memory now s (binding_key b))"
  by (cases b) (auto simp: look_def proper_binding_def get_sticky_session_channel_def get_response_bound_channel_def
    lookup_memory_def shown_memory_def split: option.splits)

text \<open>The values in Redis are numbers.\<close>

definition numeric :: "sticky_store \<Rightarrow> bool" where
  "numeric s \<longleftrightarrow> (\<forall>k v e. sk_redis s k = Some (v, e) \<longrightarrow> scan_int v \<noteq> None)"

lemma exec_numeric:
  assumes "sk_replies s = []" "sized_op op" "numeric s"
  shows "numeric (exec_sticky (redis_config timeout limit) t op s)"
proof (cases op)
  case (FunctionCall u m c q p n)
  then show ?thesis
    using assms push_context_redis by (auto simp: record_function_context_def Let_def numeric_def split: option.splits)
next
  case (LookSession u m)
  then show ?thesis using assms by (auto simp: get_sticky_session_channel_def lookup_redis_same)
next
  case (LookResponse u m)
  then show ?thesis using assms by (auto simp: get_response_bound_channel_def lookup_redis_same)
qed (use assms in \<open>auto simp: set_sticky_session_channel_def delete_sticky_session_channel_def Let_def
  set_response_bound_channel_def redis_set_def redis_del_def numeric_def scan_itoa\<close>)

lemma run_numeric:
  "\<forall>(t, op) \<in> set ops. sized_op op \<Longrightarrow>
     sk_replies (run_sticky (redis_config timeout limit) ops empty_sticky) = [] \<and>
     numeric (run_sticky (redis_config timeout limit) ops empty_sticky)"
proof (induction ops rule: rev_induct)
  case Nil
  show ?case by (simp add: run_sticky_def empty_sticky_def numeric_def)
next
  case (snoc o1 ops)
  then show ?case using exec_numeric redis_displays by (cases o1) (auto simp: run_sticky_def)
qed

lemma missing_is_nil: "contains_sub (to_lower (a @ ''redis: nil'')) ''redis: nil''"
proof -
  have "to_lower (a @ ''redis: nil'') = to_lower a @ ''redis: nil'' @ []"
    by (simp add: to_lower_def lower_char_def)
  then show ?thesis unfolding contains_sub_iff by blast
qed

lemma lookup_redis_shown:
  assumes "sk_replies s = []" "numeric s"
  shows "fst (lookup_redis (redis_config timeout limit) e1 e2 now key s) = Inr (shown_redis now s key)"
proof -
  from assms(2) have num: "\<exists>n. scan_int v = Some n" if "sk_redis s key = Some (v, e)" for v e
    using that by (auto simp: numeric_def)
  have "contains_sub (to_lower (''failed to get redis key: '' @ key @ '': redis: nil'')) ''redis: nil''"
    using missing_is_nil [of "''failed to get redis key: '' @ key @ '': ''"] by simp
  with assms(1) num show ?thesis
    by (fastforce simp: lookup_redis_def redis_get_def shown_redis_def split: option.splits)
qed

lemma look_redis:
  assumes "proper_binding b" "sk_replies s = []" "numeric s"
  shows "look (redis_config timeout limit) now b s = Inr (shown_redis now s (binding_key b))"
  using assms(1) by (cases b) (auto simp: look_def proper_binding_def get_sticky_session_channel_def
    get_response_bound_channel_def lookup_redis_shown [OF assms(2,3)])


definition example_sticky_ops :: "(int \<times> sticky_op) list" where
  "example_sticky_ops =
    [(0, BindSession 1 ''M1'' 4), (1, BindSession 2 ''m1'' 5), (2, BindResponse 1 ''m1'' 6), (3, LookSession 1 '' m1''),
     (4, FunctionCall 1 ''m1'' 9 ''q'' [] 2)]"


text \<open>
  The lookup in memory reads the entry under one lock and deletes it under another: a binding set in between is lost.
\<close>

lemma lookup_drops_new_binding:
  assumes "sk_memory s (sticky_session_key u m) = Some (c, e)" "now > e" "0 < u" "trim_space m \<noteq> []" "0 < d"
  shows "let s' = drop_memory (sticky_session_key u m) (snd (set_sticky_session_channel (memory_config t l) now u m d s)) in
    fst (get_sticky_session_channel (memory_config t l) now u m s') = Inr None"
  using assms by (simp add: set_sticky_session_channel_def get_sticky_session_channel_def Let_def lookup_memory_def
    put_memory_def drop_memory_def)

text \<open>With a Redis client that is switched off, a response is bound in Redis and looked up in memory.\<close>

lemma disabled_client_loses_response:
  assumes "sk_replies s = []" "sk_memory s = Map.empty" "0 < u" "0 < c" "trim_space r \<noteq> []"
  shows "let cfg = (memory_config t l)\<lparr>sc_client := True\<rparr> in
    fst (get_response_bound_channel cfg now u r (snd (set_response_bound_channel cfg now u r c s))) = Inr None"
  using assms by (simp add: set_response_bound_channel_def get_response_bound_channel_def Let_def redis_set_def
    lookup_memory_def)

text \<open>
  The error text is searched for "redis: nil", and it contains the key: for some models a failure of Redis is taken
  for a missing key.
\<close>

lemma failure_taken_for_missing:
  "let s = empty_sticky\<lparr>sk_replies := [Some ''timeout'']\<rparr> in
   fst (get_sticky_session_channel (redis_config 60 0) 0 1 ''redis: nil'' s) = Inr None \<and>
   isl (fst (get_sticky_session_channel (redis_config 60 0) 0 1 ''m'' s))"
  by code_simp

text \<open>The history of a session keeps its newest records, at most \<open>max_records\<close>.\<close>

lemma history_bounded:
  "sk_replies s = [] \<Longrightarrow> sk_lists (push_context cfg now key entry s) key =
    Some (take (nat (max_records cfg)) (entry # fst (live_list now key s)), Some (now + sticky_session_ttl cfg))"
  by (simp add: push_context_def Let_def split: prod.splits)

end
