(* ===== verification/Distributor.thy ===== *)
theory Distributor
  imports Routing Sticky RelayRetry
begin

text \<open>
  Which channel a request is sent to (\<open>Distribute\<close> in \<open>middleware/distributor.go\<close>): the channel the request names or
  its session is bound to, the sticky channel of the user and the model, or one selected from the channels, with the
  checks on each way. The state the handler reads changes while it runs: a \<open>moment\<close> is that state at one of its
  calls, and the moments of a run are a sequence chosen by the environment. A request whose selection takes more
  rounds than \<open>fuel\<close> has the result \<open>None\<close>.
\<close>

subsection \<open>Requests and moments\<close>

record dist_request =
  dr_user_id :: int
  dr_group :: string                     \<comment> \<open>of the user object, or from the cache\<close>
  dr_path :: string
  dr_method :: string
  dr_upgrade :: bool                     \<comment> \<open>\<open>websocket.IsWebSocketUpgrade\<close>\<close>
  dr_request_model :: string
  dr_auto_routed_model :: string
  dr_specific_channel_id :: int
  dr_response_id :: string               \<comment> \<open>of the path\<close>
  dr_available_models :: string
  dr_query_model :: string
  dr_body :: "json option"               \<comment> \<open>\<open>None\<close> if it cannot be read or parsed\<close>
  dr_gone :: bool                        \<comment> \<open>the client disconnects while the request waits\<close>

record dist_config =
  dc_memory_cache :: bool
  dc_sticky_enabled :: bool
  dc_sticky :: sticky_config
  dc_recovery_wait :: int
  dc_route_mode :: string

text \<open>\<open>mo_blocks\<close> is \<open>WouldChannelRateLimitBlock\<close> for this request; \<open>mo_query\<close> says which queries succeed.\<close>

record moment =
  mo_now :: int
  mo_seed :: nat
  mo_store :: channel_store
  mo_blocks :: "int \<Rightarrow> int \<Rightarrow> unit + bool"
  mo_query :: outcomes

definition is_response_api_web_socket_handshake :: "dist_request \<Rightarrow> relay_mode \<Rightarrow> bool" where
  "is_response_api_web_socket_handshake r mode \<longleftrightarrow> mode = ResponseAPI \<and> dr_method r = ''GET'' \<and> dr_upgrade r"

definition channel_rate_limit_value :: "channel_row \<Rightarrow> int" where
  "channel_rate_limit_value c = (case ch_rate_limit c of None \<Rightarrow> 0 | Some n \<Rightarrow> n)"

definition channel_blocked :: "moment \<Rightarrow> channel_row \<Rightarrow> unit + bool" where
  "channel_blocked mo c = mo_blocks mo (ch_id c) (channel_rate_limit_value c)"

definition get_channel_by_id :: "moment \<Rightarrow> int \<Rightarrow> channel_row option" where
  "get_channel_by_id mo cid =
     (if mo_query mo ''channel by id'' then find (\<lambda>c. ch_id c = cid) (cs_channels (mo_store mo)) else None)"

definition get_all_enabled_channels :: "moment \<Rightarrow> channel_row list option" where
  "get_all_enabled_channels mo =
     (if mo_query mo ''enabled channels''
      then Some (filter (\<lambda>c. ch_status c = channel_status_enabled) (cs_channels (mo_store mo))) else None)"

text \<open>
  Decoding into a struct takes a field under any case of its name, the last one given; a value that is neither a
  string nor null is an error.
\<close>

definition extract_previous_response_id :: "dist_request \<Rightarrow> string" where
  "extract_previous_response_id r =
     (if dr_method r \<noteq> ''POST'' \<or> \<not> has_suffix (dr_path r) ''/v1/responses'' then []
      else (case dr_body r of
          Some (JObject fs) \<Rightarrow>
            let vs = map snd (filter (\<lambda>f. equal_fold (fst f) ''previous_response_id'') fs) in
            if list_ex (\<lambda>v. case v of JString _ \<Rightarrow> False | JNull \<Rightarrow> False | _ \<Rightarrow> True) vs then []
            else (case rev vs of JString s # _ \<Rightarrow> trim_space s | _ \<Rightarrow> [])
        | _ \<Rightarrow> []))"

subsection \<open>Vision models\<close>

definition is_capability_based_routing :: "dist_config \<Rightarrow> bool" where
  "is_capability_based_routing cfg = equal_fold (dc_route_mode cfg) ''capability_based''"

definition first_vision_model_for_channel :: "channel_row \<Rightarrow> string \<Rightarrow> string" where
  "first_vision_model_for_channel c allowed =
     (let cfg = load_config c;
          vision_models = (if cc_vision_models cfg = []
            then (if cc_supports_vision cfg then get_supported_model_names c else []) else cc_vision_models cfg) in
      case find (\<lambda>candidate. candidate \<noteq> [] \<and> supports_model c candidate \<and>
            (trim_space allowed = [] \<or> is_model_in_list candidate allowed)) (map trim_space vision_models) of
        None \<Rightarrow> []
      | Some candidate \<Rightarrow> candidate)"

text \<open>Sorted by descending priority, then by id.\<close>

definition by_priority :: "channel_row list \<Rightarrow> channel_row list" where
  "by_priority cs = sort_key (\<lambda>c. - get_priority c) (sort_key ch_id cs)"

definition select_capability_based_vision_model :: "moment \<Rightarrow> string \<Rightarrow> relay_mode \<Rightarrow> string \<Rightarrow> string" where
  "select_capability_based_vision_model mo user_group mode allowed =
     (case get_all_enabled_channels mo of
        None \<Rightarrow> []
      | Some cs \<Rightarrow>
          (case find (\<lambda>m. m \<noteq> []) (map (\<lambda>c. first_vision_model_for_channel c allowed)
              (filter (\<lambda>c. channel_supports_group c user_group \<and> channel_supports_endpoint c mode) (by_priority cs))) of
             None \<Rightarrow> []
           | Some m \<Rightarrow> m))"

subsection \<open>Selection\<close>

definition select_response_web_socket_channel_without_model ::
  "moment \<Rightarrow> string \<Rightarrow> relay_mode \<Rightarrow> bool \<Rightarrow> string + channel_row" where
  "select_response_web_socket_channel_without_model mo user_group mode ignore_first =
     (case get_all_enabled_channels mo of
        None \<Rightarrow> Inl ''list enabled channels''
      | Some [] \<Rightarrow> Inl ''no enabled channels''
      | Some cs \<Rightarrow>
          let candidates = by_priority (filter (\<lambda>c. channel_supports_group c user_group \<and>
                channel_supports_endpoint c mode \<and> channel_supports_response_web_socket c mode True) cs) in
          if candidates = [] then Inl ''no endpoint-compatible channel found for websocket request''
          else if ignore_first then
            (case find (\<lambda>c. get_priority c < get_priority (hd candidates)) candidates of
               None \<Rightarrow> Inl ''no lower-priority websocket channel available''
             | Some c \<Rightarrow> Inr c)
          else Inr (hd candidates))"

text \<open>The checks of a candidate; a failing look-ahead at the limit does not exclude it.\<close>

definition candidate_fits :: "relay_mode \<Rightarrow> bool \<Rightarrow> moment \<Rightarrow> channel_row \<Rightarrow> bool" where
  "candidate_fits mode handshake mo c \<longleftrightarrow>
     channel_blocked mo c \<noteq> Inr True \<and> channel_supports_endpoint c mode \<and>
     channel_supports_response_web_socket c mode handshake"

text \<open>
  The loop over candidates: a source of channels, a test of each, and the moments from number \<open>i\<close> on. The result
  has the ids excluded and the number of the next moment.
\<close>

fun select_loop ::
  "'s channel_source \<Rightarrow> ('s \<Rightarrow> channel_row \<Rightarrow> bool) \<Rightarrow> bool \<Rightarrow> (nat \<Rightarrow> 's) \<Rightarrow> nat \<Rightarrow> nat \<Rightarrow> int list \<Rightarrow>
   ((string + channel_row) \<times> int list \<times> nat) option" where
  "select_loop select fits ignore_first mos 0 i exclude = None"
| "select_loop select fits ignore_first mos (Suc fuel) i exclude =
     (case select (mos i) ignore_first exclude False of
        Inl e \<Rightarrow> Some (Inl e, exclude, Suc i)
      | Inr c \<Rightarrow>
          if fits (mos i) c then Some (Inr c, exclude, Suc i)
          else select_loop select fits ignore_first mos fuel (Suc i) (ch_id c # exclude))"

definition moment_source :: "bool \<Rightarrow> string \<Rightarrow> string \<Rightarrow> moment channel_source" where
  "moment_source memory_cache g m mo =
     select_channel_excluding memory_cache (seeded (mo_seed mo)) (cs_cache (mo_store mo)) (cs_channels (mo_store mo))
       (cs_abilities (mo_store mo)) (mo_now mo) g m"

definition select_channel ::
  "dist_config \<Rightarrow> dist_request \<Rightarrow> relay_mode \<Rightarrow> string \<Rightarrow> bool \<Rightarrow> (nat \<Rightarrow> moment) \<Rightarrow> nat \<Rightarrow> nat \<Rightarrow> int list \<Rightarrow>
   ((string + channel_row) \<times> int list \<times> nat) option" where
  "select_channel cfg r mode routing_model ignore_first mos fuel i exclude =
     (let handshake = is_response_api_web_socket_handshake r mode in
      if routing_model = [] \<and> handshake
      then Some (select_response_web_socket_channel_without_model (mos i) (dr_group r) mode ignore_first, exclude, Suc i)
      else select_loop (moment_source (dc_memory_cache cfg) (dr_group r) routing_model) (candidate_fits mode handshake)
        ignore_first mos fuel i exclude)"

text \<open>The highest priority first, then the lower ones.\<close>

definition select_tiers ::
  "dist_config \<Rightarrow> dist_request \<Rightarrow> relay_mode \<Rightarrow> string \<Rightarrow> (nat \<Rightarrow> moment) \<Rightarrow> nat \<Rightarrow> nat \<Rightarrow> ((string + channel_row) \<times> nat) option" where
  "select_tiers cfg r mode routing_model mos fuel i =
     (case select_channel cfg r mode routing_model False mos fuel i [] of
        None \<Rightarrow> None
      | Some (Inr c, exclude, i) \<Rightarrow> Some (Inr c, i)
      | Some (Inl e, exclude, i) \<Rightarrow>
          (case select_channel cfg r mode routing_model True mos fuel i exclude of
             None \<Rightarrow> None
           | Some (res, exclude, i) \<Rightarrow> Some (res, i)))"

text \<open>With the wait for the first suspension to end.\<close>

definition select_with_recovery ::
  "dist_config \<Rightarrow> dist_request \<Rightarrow> relay_mode \<Rightarrow> string \<Rightarrow> (nat \<Rightarrow> moment) \<Rightarrow> nat \<Rightarrow> nat \<Rightarrow> (channel_row option \<times> nat) option" where
  "select_with_recovery cfg r mode routing_model mos fuel i =
     (case select_tiers cfg r mode routing_model mos fuel i of
        None \<Rightarrow> None
      | Some (Inr c, i) \<Rightarrow> Some (Some c, i)
      | Some (Inl e, i) \<Rightarrow>
          if routing_model \<noteq> [] \<and> dc_recovery_wait cfg > 0 then
            (case get_soonest_suspend_until (dr_group r) routing_model (mo_now (mos i)) (cs_abilities (mo_store (mos i))) of
               Inl e \<Rightarrow> Some (None, Suc i)
             | Inr soonest \<Rightarrow>
                 let wait = soonest - mo_now (mos i) in
                 if wait > 0 \<and> wait \<le> dc_recovery_wait cfg \<and> \<not> dr_gone r then
                   (case select_tiers cfg r mode routing_model mos fuel (Suc i) of
                      None \<Rightarrow> None
                    | Some (Inl e, i) \<Rightarrow> Some (None, i)
                    | Some (Inr c, i) \<Rightarrow> Some (Some c, i))
                 else Some (None, Suc i))
          else Some (None, i))"

subsection \<open>The handler\<close>

text \<open>What the phases hand over: the channel, if there is one yet, and the variables of the handler.\<close>

record route =
  rt_channel :: "channel_row option"
  rt_specific :: int                     \<comment> \<open>\<open>SpecificChannelId\<close> in the context\<close>
  rt_auto :: string                      \<comment> \<open>\<open>autoRoutedModel\<close>\<close>
  rt_auto_ctx :: string                  \<comment> \<open>\<open>AutoRoutedModel\<close> in the context\<close>
  rt_model :: string                     \<comment> \<open>\<open>routingModel\<close>\<close>
  rt_request_ctx :: string               \<comment> \<open>\<open>RequestModel\<close> in the context\<close>
  rt_selected_by :: string

type_synonym rejection = "int \<times> string"

text \<open>The bindings of a response: the channel number, and whether it comes from one of them.\<close>

definition bound_response ::
  "dist_config \<Rightarrow> dist_request \<Rightarrow> int \<Rightarrow> string \<Rightarrow> int \<times> bool \<Rightarrow> sticky_store \<Rightarrow> (int \<times> bool) \<times> sticky_store" where
  "bound_response cfg r now rid acc sk =
     (if fst acc \<noteq> 0 \<or> rid = [] then (acc, sk)
      else (case get_response_bound_channel (dc_sticky cfg) now (dr_user_id r) rid sk of
          (Inr (Some cid), sk) \<Rightarrow> ((cid, True), sk)
        | (_, sk) \<Rightarrow> (acc, sk)))"

definition resolve_channel ::
  "dist_config \<Rightarrow> dist_request \<Rightarrow> int \<Rightarrow> sticky_store \<Rightarrow> (int \<times> bool) \<times> sticky_store" where
  "resolve_channel cfg r now sk =
     (case bound_response cfg r now (trim_space (dr_response_id r)) (dr_specific_channel_id r, False) sk of
        (acc, sk) \<Rightarrow> bound_response cfg r now (extract_previous_response_id r) acc sk)"

definition initial_route :: "dist_request \<Rightarrow> int \<Rightarrow> route" where
  "initial_route r specific =
     \<lparr>rt_channel = None, rt_specific = specific, rt_auto = trim_space (dr_auto_routed_model r),
      rt_auto_ctx = dr_auto_routed_model r, rt_model = [], rt_request_ctx = dr_request_model r,
      rt_selected_by = ''auto_selection''\<rparr>"

text \<open>
  The model to route by: the automatically routed one, or, for an image sent to a text model, the vision model
  \<open>vision\<close> gives; \<open>None\<close> if there is none.
\<close>

definition routing_model :: "dist_config \<Rightarrow> dist_request \<Rightarrow> string \<Rightarrow> string \<Rightarrow> route \<Rightarrow> route option" where
  "routing_model cfg r vision selected_by rt =
     (if rt_auto rt \<noteq> [] then Some (rt\<lparr>rt_model := rt_auto rt\<rparr>)
      else if is_capability_based_routing cfg \<and> request_contains_image_input (dr_path r) (dr_body r) \<and>
          is_text_only_chat_model_name (dr_request_model r) then
        (if vision \<noteq> []
         then Some (rt\<lparr>rt_auto := vision, rt_auto_ctx := vision, rt_model := vision, rt_selected_by := selected_by\<rparr>)
         else None)
      else Some (rt\<lparr>rt_model := dr_request_model r\<rparr>))"

definition route_specific ::
  "dist_config \<Rightarrow> dist_request \<Rightarrow> relay_mode \<Rightarrow> moment \<Rightarrow> int \<Rightarrow> bool \<Rightarrow> route \<Rightarrow> rejection + route" where
  "route_specific cfg r mode mo cid bound rt =
     (let rt = rt\<lparr>rt_selected_by := (if bound then ''response_binding'' else ''specific_channel'')\<rparr> in
      case get_channel_by_id mo cid of
        None \<Rightarrow> Inl (400, ''Invalid Channel Id'')
      | Some c \<Rightarrow>
          if ch_status c \<noteq> channel_status_enabled then Inl (403, ''The channel has been disabled'')
          else (case routing_model cfg r (first_vision_model_for_channel c (dr_available_models r))
              ''specific_channel_capability_vision_autoroute'' rt of
            None \<Rightarrow> Inl (400, ''no vision-capable model is available for channel #'' @ itoa cid)
          | Some rt \<Rightarrow>
              if rt_model rt \<noteq> [] \<and> \<not> supports_model c (rt_model rt)
              then Inl (400, ''Channel #'' @ itoa cid @ '' does not support the requested model: '' @ rt_model rt)
              else if \<not> channel_supports_response_web_socket c mode (is_response_api_web_socket_handshake r mode)
              then Inl (400, ''Channel #'' @ itoa cid @ '' does not support Response API websocket transport'')
              else if \<not> channel_supports_endpoint c mode
              then Inl (400, ''Channel #'' @ itoa cid @ '' does not support the requested endpoint: '' @
                relay_mode_to_endpoint_name mode)
              else if bound \<and> channel_blocked mo c = Inr True then Inr (rt\<lparr>rt_channel := None, rt_specific := 0\<rparr>)
              else Inr (rt\<lparr>rt_channel := Some c\<rparr>)))"

definition sticky_channel ::
  "dist_config \<Rightarrow> dist_request \<Rightarrow> moment \<Rightarrow> route \<Rightarrow> sticky_store \<Rightarrow> route \<times> sticky_store" where
  "sticky_channel cfg r mo rt sk =
     (if \<not> dc_sticky_enabled cfg \<or> rt_model rt = [] then (rt, sk)
      else (case get_sticky_session_channel (dc_sticky cfg) (mo_now mo) (dr_user_id r) (rt_model rt) sk of
          (Inr (Some cid), sk) \<Rightarrow>
            (case get_channel_by_id mo cid of
               None \<Rightarrow> (rt, snd (delete_sticky_session_channel (dc_sticky cfg) (dr_user_id r) (rt_model rt) sk))
             | Some c \<Rightarrow>
                 if ch_status c \<noteq> channel_status_enabled \<or> \<not> supports_model c (rt_model rt)
                 then (rt, snd (delete_sticky_session_channel (dc_sticky cfg) (dr_user_id r) (rt_model rt) sk))
                 else if channel_blocked mo c = Inr False
                 then (rt\<lparr>rt_channel := Some c, rt_selected_by := ''sticky_session''\<rparr>, sk)
                 else (rt, sk))
        | (_, sk) \<Rightarrow> (rt, sk)))"

definition hint_model :: "dist_request \<Rightarrow> relay_mode \<Rightarrow> route \<Rightarrow> route" where
  "hint_model r mode rt =
     (let hint = trim_space (dr_query_model r) in
      if rt_model rt = [] \<and> is_response_api_web_socket_handshake r mode \<and> hint \<noteq> []
      then rt\<lparr>rt_model := hint, rt_request_ctx := hint\<rparr> else rt)"

definition route_automatic ::
  "dist_config \<Rightarrow> dist_request \<Rightarrow> relay_mode \<Rightarrow> (nat \<Rightarrow> moment) \<Rightarrow> nat \<Rightarrow> route \<Rightarrow> sticky_store \<Rightarrow>
   ((rejection + route) \<times> nat \<times> sticky_store) option" where
  "route_automatic cfg r mode mos fuel rt sk =
     (case routing_model cfg r (select_capability_based_vision_model (mos 1) (dr_group r) mode (dr_available_models r))
         ''capability_vision_autoroute'' rt of
        None \<Rightarrow> Some (Inl (400, ''no vision-capable model is currently available''), 2, sk)
      | Some rt \<Rightarrow>
          (case sticky_channel cfg r (mos 2) rt sk of (rt, sk) \<Rightarrow>
             let rt = hint_model r mode rt in
             if rt_channel rt \<noteq> None then Some (Inr rt, 3, sk)
             else (case select_with_recovery cfg r mode (rt_model rt) mos fuel 3 of
                 None \<Rightarrow> None
               | Some (None, i) \<Rightarrow>
                   Some (Inl (503, ''No available channels for Model '' @ rt_model rt @ '' under Group '' @ dr_group r), i, sk)
               | Some (Some c, i) \<Rightarrow> Some (Inr (rt\<lparr>rt_channel := Some c, rt_selected_by := ''auto_selection''\<rparr>), i, sk))))"

text \<open>After the choice: the limit once more, the context of the channel, and the binding of the session.\<close>

definition merge_mapping :: "dist_request \<Rightarrow> route \<Rightarrow> relay_context \<Rightarrow> relay_context" where
  "merge_mapping r rt cx =
     (if rt_auto rt \<noteq> [] \<and> dr_request_model r \<noteq> [] \<and> rt_model rt \<noteq> [] \<and> \<not> equal_fold (dr_request_model r) (rt_model rt)
      then cx\<lparr>cx_model_mapping := AList.update (dr_request_model r) (rt_model rt) (cx_model_mapping cx)\<rparr> else cx)"

definition finish_routing ::
  "dist_config \<Rightarrow> (string \<Rightarrow> rat) \<Rightarrow> dist_request \<Rightarrow> moment \<Rightarrow> channel_row \<Rightarrow> route \<Rightarrow> relay_context \<Rightarrow> sticky_store \<Rightarrow>
   (rejection + route \<times> relay_context) \<times> sticky_store" where
  "finish_routing cfg group_ratio r mo c rt cx sk =
     (if channel_blocked mo c = Inr True then (Inl (429, ''selected channel is rate limited''), sk)
      else
        let cx = merge_mapping r rt (setup_context_for_selected_channel group_ratio c cx) in
        (Inr (rt, cx),
         if dc_sticky_enabled cfg \<and> rt_specific rt = 0 \<and> rt_model rt \<noteq> []
         then snd (set_sticky_session_channel (dc_sticky cfg) (mo_now mo) (dr_user_id r) (rt_model rt) (ch_id c) sk)
         else sk))"

definition distribute ::
  "dist_config \<Rightarrow> (string \<Rightarrow> rat) \<Rightarrow> dist_request \<Rightarrow> (nat \<Rightarrow> moment) \<Rightarrow> nat \<Rightarrow> relay_context \<Rightarrow> sticky_store \<Rightarrow>
   ((rejection + route \<times> relay_context) \<times> sticky_store) option" where
  "distribute cfg group_ratio r mos fuel cx sk =
     (let mode = get_by_path (dr_path r) in
      case resolve_channel cfg r (mo_now (mos 0)) sk of ((cid, bound), sk) \<Rightarrow>
        let rt = initial_route r cid;
            first = (if cid \<noteq> 0 then route_specific cfg r mode (mos 0) cid bound rt else Inr rt) in
        (case first of
           Inl e \<Rightarrow> Some (Inl e, sk)
         | Inr rt \<Rightarrow>
             (case (if rt_channel rt = None then route_automatic cfg r mode mos fuel rt sk else Some (Inr rt, 1, sk)) of
                None \<Rightarrow> None
              | Some (Inl e, i, sk) \<Rightarrow> Some (Inl e, sk)
              | Some (Inr rt, i, sk) \<Rightarrow>
                  (case rt_channel rt of
                     None \<Rightarrow> None
                   | Some c \<Rightarrow> Some (finish_routing cfg group_ratio r (mos i) c rt cx sk)))))"

subsection \<open>The selection ends\<close>

context excluding_source
begin

lemma select_loop_returns:
  assumes "finite P" "\<And>k e c. select (mos k) ignore_first e False = Inr c \<Longrightarrow> ch_id c \<in> P"
    and "card (P - set exclude) < fuel"
  shows "\<exists>r. select_loop select fits ignore_first mos fuel i exclude = Some r"
  using assms(3)
proof (induction fuel arbitrary: i exclude)
  case (Suc fuel)
  show ?case
  proof (cases "select (mos i) ignore_first exclude False")
    case (Inr c)
    show ?thesis
    proof (cases "fits (mos i) c")
      case False
      have "ch_id c \<in> P - set exclude" using assms(2) [OF Inr] excludes [OF Inr] by simp
      then have "card (P - set (ch_id c # exclude)) < card (P - set exclude)"
        using assms(1) by (intro psubset_card_mono) auto
      with Suc.prems have "card (P - set (ch_id c # exclude)) < fuel" by simp
      from Suc.IH [OF this, of "Suc i"] False Inr show ?thesis by simp
    qed (simp add: Inr)
  qed simp
qed simp

end

lemma select_loop_fits:
  "select_loop select fits ignore_first mos fuel i exclude = Some (Inr c, exclude', j) \<Longrightarrow>
     \<exists>k \<ge> i. j = Suc k \<and> fits (mos k) c"
proof (induction fuel arbitrary: i exclude)
  case (Suc fuel)
  show ?case
  proof (cases "select (mos i) ignore_first exclude False")
    case (Inl e)
    with Suc.prems show ?thesis by simp
  next
    case (Inr d)
    show ?thesis
    proof (cases "fits (mos i) d")
      case True
      with Suc.prems Inr show ?thesis by auto
    next
      case False
      with Suc.prems Inr have "select_loop select fits ignore_first mos fuel (Suc i) (ch_id d # exclude) = Some (Inr c, exclude', j)"
        by simp
      from Suc.IH [OF this] show ?thesis using Suc_leD by blast
    qed
  qed
qed simp

text \<open>
  A source over a pool of channels that, while its state is \<open>good\<close>, gives a channel of the highest priority left in
  the pool, and an error only if nothing is left.
\<close>

locale tiered_source = excluding_source select
  for select :: "'s channel_source" +
  fixes pool :: "'s \<Rightarrow> channel_row set" and good :: "'s \<Rightarrow> bool"
  assumes none_left: "good s \<Longrightarrow> select s False exclude False = Inl e \<Longrightarrow> c \<in> pool s \<Longrightarrow> ch_id c \<in> set exclude"
    and best_left: "good s \<Longrightarrow> select s False exclude False = Inr c \<Longrightarrow>
      c \<in> pool s \<and> (\<forall>d \<in> pool s. ch_id d \<notin> set exclude \<longrightarrow> get_priority d \<le> get_priority c)"
    and from_pool: "good s \<Longrightarrow> select s ignore_first exclude False = Inr c \<Longrightarrow> c \<in> pool s"
    and pool_ids: "good s \<Longrightarrow> c \<in> pool s \<Longrightarrow> d \<in> pool s \<Longrightarrow> ch_id c = ch_id d \<Longrightarrow> c = d"
begin

lemma loop_best:
  assumes calm: "\<And>k. good (mos k) \<and> pool (mos k) = P \<and> (\<forall>c \<in> P. fits (mos k) c = f c)"
    and "\<forall>c \<in> P. ch_id c \<in> set exclude \<longrightarrow> \<not> f c"
    and "select_loop select fits False mos fuel i exclude = Some (res, exclude', j)"
  shows "case res of
      Inl e \<Rightarrow> \<forall>c \<in> P. \<not> f c \<and> ch_id c \<in> set exclude'
    | Inr c \<Rightarrow> c \<in> P \<and> f c \<and> (\<forall>d \<in> P. f d \<longrightarrow> get_priority d \<le> get_priority c)"
  using assms(2,3)
proof (induction fuel arbitrary: i exclude)
  case (Suc fuel)
  show ?case
  proof (cases "select (mos i) False exclude False")
    case (Inl e)
    then have "\<forall>c \<in> P. ch_id c \<in> set exclude" using none_left [of "mos i" exclude e] calm [of i] by auto
    moreover from Inl Suc.prems(2) have "res = Inl e" "exclude' = exclude" by simp_all
    ultimately show ?thesis using Suc.prems(1) by simp
  next
    case (Inr c)
    have c: "c \<in> P" "\<forall>d \<in> P. ch_id d \<notin> set exclude \<longrightarrow> get_priority d \<le> get_priority c"
      using best_left [of "mos i" exclude c] Inr calm [of i] by auto
    show ?thesis
    proof (cases "f c")
      case True
      have "fits (mos i) c" using calm [of i] c(1) True by auto
      moreover have "\<forall>d \<in> P. f d \<longrightarrow> get_priority d \<le> get_priority c" using c(2) Suc.prems(1) by blast
      moreover from calculation(1) Inr Suc.prems(2) have "res = Inr c" by simp
      ultimately show ?thesis using True c(1) by simp
    next
      case False
      have "\<not> fits (mos i) c" using calm [of i] c(1) False by auto
      then have l: "select_loop select fits False mos fuel (Suc i) (ch_id c # exclude) = Some (res, exclude', j)"
        using Suc.prems(2) Inr by simp
      have "\<not> f d" if "d \<in> P" "ch_id d = ch_id c" for d
        using pool_ids [of "mos i" d c] calm [of i] that c(1) False by auto
      then have "\<forall>d \<in> P. ch_id d \<in> set (ch_id c # exclude) \<longrightarrow> \<not> f d" using Suc.prems(1) by auto
      from Suc.IH [OF this l] show ?thesis .
    qed
  qed
qed simp

lemma loop_from_pool:
  assumes calm: "\<And>k. good (mos k) \<and> pool (mos k) = P"
    and "select_loop select fits ignore_first mos fuel i exclude = Some (Inr c, exclude', j)"
  shows "c \<in> P \<and> ch_id c \<notin> set exclude"
  using assms(2)
proof (induction fuel arbitrary: i exclude)
  case (Suc fuel)
  show ?case
  proof (cases "select (mos i) ignore_first exclude False")
    case (Inl e)
    with Suc.prems show ?thesis by simp
  next
    case (Inr d)
    then have "d \<in> P \<and> ch_id d \<notin> set exclude"
      using from_pool [of "mos i" ignore_first exclude d] excludes [of "mos i" ignore_first exclude False d] calm [of i] by simp
    with Suc.IH [of "Suc i" "ch_id d # exclude"] Suc.prems Inr show ?thesis by (auto split: if_splits)
  qed
qed simp

end

text \<open>At a moment: the channels with an ability that can be used, while the abilities match and the cache is fresh.\<close>

definition moment_pool :: "string \<Rightarrow> string \<Rightarrow> moment \<Rightarrow> channel_row set" where
  "moment_pool g m mo = eligible g m [] (mo_now mo) (cs_channels (mo_store mo)) (cs_abilities (mo_store mo))"

definition moment_good :: "bool \<Rightarrow> moment \<Rightarrow> bool" where
  "moment_good memory_cache mo \<longleftrightarrow> store_match (mo_store mo) \<and>
     (memory_cache \<longrightarrow> plain_groups (cs_channels (mo_store mo)) \<and>
       cs_cache (mo_store mo) = init_channel_cache (mo_now mo) (cs_channels (mo_store mo)) (cs_abilities (mo_store mo)))"

lemma moment_picks:
  assumes "moment_good memory_cache mo"
  shows "picks (\<lambda>rnd. select_channel_excluding memory_cache rnd (cs_cache (mo_store mo)) (cs_channels (mo_store mo))
       (cs_abilities (mo_store mo)) (mo_now mo) g m False exclude False)
     (top_tier (eligible g m exclude (mo_now mo) (cs_channels (mo_store mo)) (cs_abilities (mo_store mo))))"
proof (cases memory_cache)
  case True
  with assms cache_picks [of "cs_channels (mo_store mo)" "cs_abilities (mo_store mo)" False g m exclude "mo_now mo"]
  show ?thesis by (simp add: moment_good_def store_match_def select_channel_excluding_def tier_def)
next
  case False
  with assms db_picks [of "cs_channels (mo_store mo)" "cs_abilities (mo_store mo)" g m False exclude "mo_now mo"]
  show ?thesis by (simp add: moment_good_def store_match_def select_channel_excluding_def tier_def)
qed

lemma eligible_left:
  "c \<in> eligible g m exclude now channels abl \<longleftrightarrow> c \<in> eligible g m [] now channels abl \<and> ch_id c \<notin> set exclude"
  by (subst eligible_exclude) auto

lemma moment_none_left:
  assumes "moment_good memory_cache mo" "moment_source memory_cache g m mo False exclude False = Inl e"
    and "c \<in> moment_pool g m mo"
  shows "ch_id c \<in> set exclude"
proof (rule ccontr)
  let ?S = "eligible g m exclude (mo_now mo) (cs_channels (mo_store mo)) (cs_abilities (mo_store mo))"
  assume "ch_id c \<notin> set exclude"
  with assms(3) have "c \<in> ?S" unfolding moment_pool_def by (subst eligible_left) simp
  moreover have "finite ?S" by (simp add: eligible_def)
  ultimately have "top_tier ?S \<noteq> {}" using top_tier_nonempty by blast
  with moment_picks [OF assms(1), of g m exclude] random_seeded [of "mo_seed mo"] assms(2) show False
    unfolding picks_def moment_source_def by (metis sum.distinct(1))
qed

lemma moment_best_left:
  assumes "moment_good memory_cache mo" "moment_source memory_cache g m mo False exclude False = Inr c"
  shows "c \<in> moment_pool g m mo \<and>
    (\<forall>d \<in> moment_pool g m mo. ch_id d \<notin> set exclude \<longrightarrow> get_priority d \<le> get_priority c)"
proof -
  let ?S = "eligible g m exclude (mo_now mo) (cs_channels (mo_store mo)) (cs_abilities (mo_store mo))"
  have "c \<in> selectable (\<lambda>rnd. select_channel_excluding memory_cache rnd (cs_cache (mo_store mo)) (cs_channels (mo_store mo))
       (cs_abilities (mo_store mo)) (mo_now mo) g m False exclude False)"
    using assms(2) random_seeded [of "mo_seed mo"] by (auto simp: selectable_def moment_source_def)
  with moment_picks [OF assms(1), of g m exclude] have "c \<in> top_tier ?S" by (simp add: picks_def)
  then have c: "c \<in> ?S" "\<forall>d \<in> ?S. get_priority d \<le> get_priority c" by (auto simp: top_tier_def)
  have "d \<in> ?S" if "d \<in> moment_pool g m mo" "ch_id d \<notin> set exclude" for d
    using that unfolding moment_pool_def by (subst eligible_left) simp
  moreover have "c \<in> moment_pool g m mo" using c(1) unfolding moment_pool_def by (subst (asm) eligible_left) simp
  ultimately show ?thesis using c(2) by blast
qed

lemma moment_from_pool:
  assumes g: "moment_good memory_cache mo" and "moment_source memory_cache g m mo ignore_first exclude False = Inr c"
  shows "c \<in> moment_pool g m mo"
proof (cases memory_cache)
  case True
  with assms cache_selected [OF random_seeded [of "mo_seed mo"], of "cs_cache (mo_store mo)" g m ignore_first exclude False c]
  have "c \<in> set (init_channel_cache (mo_now mo) (cs_channels (mo_store mo)) (cs_abilities (mo_store mo)) g m)"
    by (simp add: moment_source_def select_channel_excluding_def moment_good_def)
  with g True show ?thesis using cache_entry by (simp add: moment_good_def store_match_def moment_pool_def)
next
  case False
  let ?S = "eligible g m exclude (mo_now mo) (cs_channels (mo_store mo)) (cs_abilities (mo_store mo))"
  have "abilities_match (cs_channels (mo_store mo)) (cs_abilities (mo_store mo))"
    using g by (simp add: moment_good_def store_match_def)
  from db_picks [OF this, of g m ignore_first exclude "mo_now mo"]
  have "selectable (\<lambda>rnd. get_random_satisfied_channel_excluding rnd g m ignore_first exclude (mo_now mo)
      (cs_channels (mo_store mo)) (cs_abilities (mo_store mo))) \<subseteq> ?S"
    by (auto simp: picks_def tier_def top_tier_def)
  with False assms(2) random_seeded [of "mo_seed mo"] have "c \<in> ?S"
    by (auto simp: moment_source_def select_channel_excluding_def selectable_def)
  then show ?thesis unfolding moment_pool_def by (subst (asm) eligible_left) simp
qed

interpretation moment_source: tiered_source "moment_source memory_cache g m" "moment_pool g m" "moment_good memory_cache"
  for memory_cache g m
proof unfold_locales
  show "ch_id c \<notin> set exclude" if "moment_source memory_cache g m s ignore_first exclude try_larger = Inr c"
    for s ignore_first exclude try_larger c
    using that by (auto simp: moment_source_def dest: selected_not_excluded [OF random_seeded])
next
  show "c = d" if "moment_good memory_cache s" "c \<in> moment_pool g m s" "d \<in> moment_pool g m s" "ch_id c = ch_id d" for s c d
    using that same_channel [of "cs_channels (mo_store s)" c d]
    by (auto simp: moment_good_def store_match_def abilities_match_def moment_pool_def eligible_def)
qed (fact moment_none_left moment_best_left moment_from_pool)+

subsection \<open>The handler returns\<close>

definition known_channels :: "(nat \<Rightarrow> moment) \<Rightarrow> int set" where
  "known_channels mos = {ch_id c | c k g m. c \<in> set (cs_channels (mo_store (mos k))) \<or> c \<in> set (cs_cache (mo_store (mos k)) g m)}"

lemma moment_known:
  assumes "moment_source memory_cache g m (mos k) ignore_first exclude False = Inr c"
  shows "ch_id c \<in> known_channels mos"
proof (cases memory_cache)
  case True
  with assms cache_selected [OF random_seeded, of "mo_seed (mos k)" "cs_cache (mo_store (mos k))" g m ignore_first exclude False c]
  show ?thesis by (auto simp: moment_source_def select_channel_excluding_def known_channels_def)
next
  case False
  with assms db_selected_channel [OF random_seeded, of "mo_seed (mos k)" g m ignore_first exclude "mo_now (mos k)"
      "cs_channels (mo_store (mos k))" "cs_abilities (mo_store (mos k))" c]
  show ?thesis by (auto simp: moment_source_def select_channel_excluding_def known_channels_def)
qed

lemma select_channel_returns:
  assumes "finite (known_channels mos)" "card (known_channels mos) < fuel"
  shows "select_channel cfg r mode m ignore_first mos fuel i exclude \<noteq> None"
proof -
  have "card (known_channels mos - set exclude) < fuel"
    using assms card_mono [OF assms(1), of "known_channels mos - set exclude"] by (meson Diff_subset le_less_trans)
  from moment_source.select_loop_returns [OF assms(1) moment_known this] show ?thesis
    by (force simp: select_channel_def Let_def)
qed

lemma select_with_recovery_returns:
  assumes "finite (known_channels mos)" "card (known_channels mos) < fuel"
  shows "select_with_recovery cfg r mode m mos fuel i \<noteq> None"
proof -
  have "select_tiers cfg r mode m mos fuel i \<noteq> None" for i
    by (auto simp: select_tiers_def select_channel_returns [OF assms] split: option.splits sum.splits prod.splits)
  note tiers = this
  show ?thesis by (auto simp: select_with_recovery_def tiers Let_def split: option.splits sum.splits prod.splits)
qed

lemma routing_model_channel: "routing_model cfg r vision sel rt = Some rt' \<Longrightarrow> rt_channel rt' = rt_channel rt"
  by (auto simp: routing_model_def split: if_splits)

lemma route_automatic_channel: "route_automatic cfg r mode mos fuel rt sk = Some (Inr rt', i, sk') \<Longrightarrow> rt_channel rt' \<noteq> None"
  by (auto simp: route_automatic_def Let_def split: option.splits prod.splits if_splits)

text \<open>
  C37. C. The distributor returns: however the channels change while it runs, as long as they are finitely many, its
  loops end, each after at most as many rounds as there are channels and one more.
\<close>

theorem distribute_returns:
  assumes "finite (known_channels mos)" and "card (known_channels mos) < fuel"
  shows "distribute cfg group_ratio r mos fuel cx sk \<noteq> None"
proof -
  have "route_automatic cfg r mode mos fuel rt sk \<noteq> None" for mode rt sk
    by (auto simp: route_automatic_def select_with_recovery_returns [OF assms] Let_def split: option.splits prod.splits)
  note automatic = this
  show ?thesis
    by (auto simp: distribute_def automatic Let_def dest: route_automatic_channel split: option.splits prod.splits sum.splits)
qed

subsection \<open>The chosen channel\<close>

lemma find_mem: "find P xs = Some c \<Longrightarrow> c \<in> set xs"
  by (induction xs) (auto split: if_splits)

lemma web_socket_channel_fits:
  assumes "select_response_web_socket_channel_without_model mo g mode ignore_first = Inr c"
  shows "channel_supports_endpoint c mode \<and> channel_supports_response_web_socket c mode True \<and> channel_supports_group c g"
proof -
  obtain x xs where cs: "get_all_enabled_channels mo = Some (x # xs)"
    using assms by (auto simp: select_response_web_socket_channel_without_model_def split: option.splits list.splits)
  define candidates where "candidates = by_priority (filter (\<lambda>c. channel_supports_group c g \<and>
    channel_supports_endpoint c mode \<and> channel_supports_response_web_socket c mode True) (x # xs))"
  have "candidates \<noteq> [] \<and> (find (\<lambda>c. get_priority c < get_priority (hd candidates)) candidates = Some c \<or> hd candidates = c)"
    using assms cs unfolding select_response_web_socket_channel_without_model_def
    by (simp add: candidates_def [symmetric] Let_def del: filter.simps split: if_splits option.splits)
  then have "c \<in> set candidates" using find_mem [of _ candidates c] by auto
  then show ?thesis by (auto simp: candidates_def by_priority_def split: if_splits)
qed

lemma select_channel_fits:
  assumes "select_channel cfg r mode m ignore_first mos fuel i exclude = Some (Inr c, exclude', j)"
  shows "channel_supports_endpoint c mode \<and>
    channel_supports_response_web_socket c mode (is_response_api_web_socket_handshake r mode)"
proof (cases "m = [] \<and> is_response_api_web_socket_handshake r mode")
  case True
  with assms web_socket_channel_fits show ?thesis by (auto simp: select_channel_def Let_def)
next
  case False
  with assms select_loop_fits show ?thesis by (fastforce simp: select_channel_def Let_def candidate_fits_def)
qed

lemma select_tiers_fits:
  assumes "select_tiers cfg r mode m mos fuel i = Some (Inr c, j)"
  shows "channel_supports_endpoint c mode \<and>
    channel_supports_response_web_socket c mode (is_response_api_web_socket_handshake r mode)"
  using assms select_channel_fits by (auto simp: select_tiers_def split: option.splits sum.splits prod.splits)

lemma select_with_recovery_tiers:
  "select_with_recovery cfg r mode m mos fuel i = Some (Some c, j) \<Longrightarrow>
     \<exists>i. select_tiers cfg r mode m mos fuel i = Some (Inr c, j)"
  by (auto simp: select_with_recovery_def Let_def split: option.splits sum.splits if_splits prod.splits)

lemma select_with_recovery_none:
  "select_with_recovery cfg r mode m mos fuel i = Some (None, j) \<Longrightarrow>
     \<exists>e k. select_tiers cfg r mode m mos fuel i = Some (Inl e, k)"
  by (auto simp: select_with_recovery_def Let_def split: option.splits sum.splits if_splits prod.splits)

lemma select_with_recovery_fits:
  assumes "select_with_recovery cfg r mode m mos fuel i = Some (Some c, j)"
  shows "channel_supports_endpoint c mode \<and>
    channel_supports_response_web_socket c mode (is_response_api_web_socket_handshake r mode)"
  using select_with_recovery_tiers [OF assms] select_tiers_fits by blast

text \<open>What the channel of a route meets, by the way it was found.\<close>

definition route_fits :: "dist_request \<Rightarrow> relay_mode \<Rightarrow> route \<Rightarrow> bool" where
  "route_fits r mode rt = (case rt_channel rt of
     None \<Rightarrow> True
   | Some c \<Rightarrow>
      if rt_selected_by rt = ''sticky_session'' then ch_status c = channel_status_enabled \<and> supports_model c (rt_model rt)
      else channel_supports_endpoint c mode \<and>
        channel_supports_response_web_socket c mode (is_response_api_web_socket_handshake r mode))"

lemma initial_route_fits: "route_fits r mode (initial_route r cid)"
  by (simp add: route_fits_def initial_route_def)

lemma routing_model_selected:
  "routing_model cfg r vision sel rt = Some rt' \<Longrightarrow> rt_selected_by rt' \<in> {sel, rt_selected_by rt}"
  by (auto simp: routing_model_def split: if_splits)

lemma route_specific_fits:
  assumes "route_specific cfg r mode mo cid bound rt = Inr rt'"
  shows "route_fits r mode rt'"
proof -
  from assms obtain c rt1 where
    m: "routing_model cfg r (first_vision_model_for_channel c (dr_available_models r))
        ''specific_channel_capability_vision_autoroute''
        (rt\<lparr>rt_selected_by := (if bound then ''response_binding'' else ''specific_channel'')\<rparr>) = Some rt1"
    and s: "channel_supports_response_web_socket c mode (is_response_api_web_socket_handshake r mode)"
      "channel_supports_endpoint c mode"
    and e: "rt' = rt1\<lparr>rt_channel := None, rt_specific := 0\<rparr> \<or> rt' = rt1\<lparr>rt_channel := Some c\<rparr>"
    by (auto simp: route_specific_def Let_def split: option.splits if_splits)
  from routing_model_selected [OF m] have "rt_selected_by rt1 \<noteq> ''sticky_session''" by (auto split: if_splits)
  with e s show ?thesis by (auto simp: route_fits_def)
qed

lemma sticky_channel_route:
  assumes "sticky_channel cfg r mo rt sk = (rt', sk')"
  shows "rt' = rt \<or> (\<exists>c. rt' = rt\<lparr>rt_channel := Some c, rt_selected_by := ''sticky_session''\<rparr> \<and> rt_model rt \<noteq> [] \<and>
    ch_status c = channel_status_enabled \<and> supports_model c (rt_model rt))"
  using assms by (auto simp: sticky_channel_def split: if_splits option.splits sum.splits prod.splits)

lemma hint_model_same:
  "rt_channel (hint_model r mode rt) = rt_channel rt" "rt_selected_by (hint_model r mode rt) = rt_selected_by rt"
  "rt_model rt \<noteq> [] \<Longrightarrow> hint_model r mode rt = rt"
  by (simp_all add: hint_model_def Let_def)

lemma route_automatic_fits:
  assumes "route_automatic cfg r mode mos fuel rt sk = Some (Inr rt', i, sk')" "rt_channel rt = None"
  shows "route_fits r mode rt'"
proof -
  from assms(1) obtain rt1 where m: "routing_model cfg r (select_capability_based_vision_model (mos 1) (dr_group r) mode (dr_available_models r))
      ''capability_vision_autoroute'' rt = Some rt1"
    by (auto simp: route_automatic_def split: option.splits)
  obtain rt2 sk2 where s: "sticky_channel cfg r (mos 2) rt1 sk = (rt2, sk2)" by (cases "sticky_channel cfg r (mos 2) rt1 sk")
  have n: "rt_channel rt1 = None" using routing_model_channel [OF m] assms(2) by simp
  show ?thesis
  proof (cases "rt_channel (hint_model r mode rt2) = None")
    case False
    then have "rt' = hint_model r mode rt2" using assms(1) m s by (auto simp: route_automatic_def Let_def)
    with False n sticky_channel_route [OF s] hint_model_same(3) show ?thesis by (auto simp: route_fits_def hint_model_same(1))
  next
    case True
    with assms(1) m s obtain c where
      "select_with_recovery cfg r mode (rt_model (hint_model r mode rt2)) mos fuel 3 = Some (Some c, i)"
      "rt' = (hint_model r mode rt2)\<lparr>rt_channel := Some c, rt_selected_by := ''auto_selection''\<rparr>"
      by (auto simp: route_automatic_def Let_def split: option.splits prod.splits)
    with select_with_recovery_fits show ?thesis by (auto simp: route_fits_def)
  qed
qed

lemma setup_channel_id [simp]: "cx_channel_id (merge_mapping r rt (setup_context_for_selected_channel group_ratio c cx)) = ch_id c"
  by (simp add: merge_mapping_def setup_context_for_selected_channel_def)

text \<open>
  C35. C. A request is only passed on with a channel that its rate limit does not block at that moment, the context is
  that channel's, and the channel serves the endpoint and the transport of the request; but for a channel taken from
  the sticky session, of which only the status and the model are checked.
\<close>

theorem distributed_channel_fits:
  assumes "distribute cfg group_ratio r mos fuel cx sk = Some (Inr (rt, cx'), sk')"
  shows "\<exists>c k. rt_channel rt = Some c \<and> cx_channel_id cx' = ch_id c \<and> channel_blocked (mos k) c \<noteq> Inr True \<and>
    (if rt_selected_by rt = ''sticky_session'' then ch_status c = channel_status_enabled \<and> supports_model c (rt_model rt)
     else channel_supports_endpoint c (get_by_path (dr_path r)) \<and>
       channel_supports_response_web_socket c (get_by_path (dr_path r))
         (is_response_api_web_socket_handshake r (get_by_path (dr_path r))))"
proof -
  let ?mode = "get_by_path (dr_path r)"
  obtain cid bound sk1 where res: "resolve_channel cfg r (mo_now (mos 0)) sk = ((cid, bound), sk1)"
    by (metis prod.exhaust)
  define first where "first = (if cid \<noteq> 0 then route_specific cfg r ?mode (mos 0) cid bound (initial_route r cid) else Inr (initial_route r cid))"
  from assms res obtain rt1 where f: "first = Inr rt1"
    by (cases first) (auto simp: distribute_def Let_def first_def [symmetric])
  have f1: "route_fits r ?mode rt1"
    using f route_specific_fits initial_route_fits by (cases "cid = 0") (auto simp: first_def)
  obtain rt2 i sk2 c where n: "(if rt_channel rt1 = None then route_automatic cfg r ?mode mos fuel rt1 sk1 else Some (Inr rt1, 1, sk1)) =
      Some (Inr rt2, i, sk2)" and c: "rt_channel rt2 = Some c"
    and fin: "finish_routing cfg group_ratio r (mos i) c rt2 cx sk2 = (Inr (rt, cx'), sk')"
    using assms res f by (auto simp: distribute_def Let_def first_def [symmetric] split: option.splits sum.splits prod.splits)
  have "route_fits r ?mode rt2" using n f1 route_automatic_fits by (auto split: if_splits)
  moreover have "rt = rt2" "channel_blocked (mos i) c \<noteq> Inr True" "cx_channel_id cx' = ch_id c"
    using fin by (auto simp: finish_routing_def Let_def split: if_splits)
  ultimately show ?thesis using c by (auto simp: route_fits_def)
qed

text \<open>
  C36. C. While the abilities match the channels and the cache is fresh, the selection takes a channel of the highest
  priority among those of the group that serve the model, are not suspended and pass the checks; it finds none only
  if there is none. The second selection, of the lower priorities, and the wait do not change that.
\<close>

theorem best_fitting_channel_selected:
  assumes calm: "\<And>k. moment_good (dc_memory_cache cfg) (mos k) \<and> moment_pool (dr_group r) m (mos k) = P \<and>
      (\<forall>c \<in> P. candidate_fits mode (is_response_api_web_socket_handshake r mode) (mos k) c = f c)"
    and m: "m \<noteq> [] \<or> \<not> is_response_api_web_socket_handshake r mode"
    and sel: "select_with_recovery cfg r mode m mos fuel i = Some (res, j)"
  shows "case res of
      None \<Rightarrow> \<forall>c \<in> P. \<not> f c
    | Some c \<Rightarrow> c \<in> P \<and> f c \<and> (\<forall>d \<in> P. f d \<longrightarrow> get_priority d \<le> get_priority c)"
proof -
  let ?src = "moment_source (dc_memory_cache cfg) (dr_group r) m"
  let ?fits = "candidate_fits mode (is_response_api_web_socket_handshake r mode)"
  have loop: "select_channel cfg r mode m ign mos fuel i ex = select_loop ?src ?fits ign mos fuel i ex" for ign i ex
    using m by (auto simp: select_channel_def Let_def)
  note best = moment_source.loop_best [of "dc_memory_cache cfg" mos "dr_group r" m P ?fits f, OF calm, of "[]", simplified]
  have calm': "moment_good (dc_memory_cache cfg) (mos k) \<and> moment_pool (dr_group r) m (mos k) = P" for k
    using calm by blast
  have tiers: "case out of
      Inl e \<Rightarrow> \<forall>c \<in> P. \<not> f c
    | Inr c \<Rightarrow> c \<in> P \<and> f c \<and> (\<forall>d \<in> P. f d \<longrightarrow> get_priority d \<le> get_priority c)"
    if t: "select_tiers cfg r mode m mos fuel i = Some (out, j)" for i out j
  proof -
    from t obtain o1 ex k where l: "select_loop ?src ?fits False mos fuel i [] = Some (o1, ex, k)"
      by (auto simp: select_tiers_def loop split: option.splits prod.splits)
    show ?thesis
    proof (cases o1)
      case (Inr c)
      with t l have "out = Inr c" by (simp add: select_tiers_def loop)
      with best [OF l] Inr show ?thesis by simp
    next
      case (Inl e)
      with best [OF l] have none: "\<forall>c \<in> P. \<not> f c \<and> ch_id c \<in> set ex" by simp
      from t l Inl obtain ex' where l2: "select_loop ?src ?fits True mos fuel k ex = Some (out, ex', j)"
        by (auto simp: select_tiers_def loop split: option.splits prod.splits)
      have "out \<noteq> Inr c" for c
      proof
        assume "out = Inr c"
        with l2 have "select_loop ?src ?fits True mos fuel k ex = Some (Inr c, ex', j)" by simp
        from moment_source.loop_from_pool [OF calm' this] none show False by blast
      qed
      with none show ?thesis by (cases out) auto
    qed
  qed
  show ?thesis
  proof (cases res)
    case None
    with sel select_with_recovery_none tiers show ?thesis by fastforce
  next
    case (Some c)
    with sel select_with_recovery_tiers tiers show ?thesis by fastforce
  qed
qed

subsection \<open>Examples\<close>

definition example_moment :: moment where
  "example_moment = \<lparr>mo_now = 0, mo_seed = 0,
     mo_store = \<lparr>cs_channels = example_channels, cs_abilities = example_abilities, cs_cache = (\<lambda>_ _. [])\<rparr>,
     mo_blocks = (\<lambda>cid _. Inr (cid = 1)), mo_query = all_succeed\<rparr>"

definition example_dist_config :: dist_config where
  "example_dist_config = \<lparr>dc_memory_cache = False, dc_sticky_enabled = True, dc_sticky = memory_config 1800 50,
     dc_recovery_wait = 3 * 10 ^ 9, dc_route_mode = ''fixed_fallback''\<rparr>"

definition example_dist_request :: dist_request where
  "example_dist_request = \<lparr>dr_user_id = 7, dr_group = ''vip'', dr_path = ''/v1/chat/completions'', dr_method = ''POST'',
     dr_upgrade = False, dr_request_model = ''m'', dr_auto_routed_model = [], dr_specific_channel_id = 0,
     dr_response_id = [], dr_available_models = [], dr_query_model = [], dr_body = None, dr_gone = False\<rparr>"

definition empty_context :: relay_context where
  "empty_context = \<lparr>cx_channel_ratio = 1, cx_channel_type = 0, cx_channel_id = 0, cx_channel_name = [],
     cx_system_prompt = None, cx_model_mapping = [], cx_rate_limit = 0\<rparr>"

text \<open>The outcome in short: the channel and how it was found, or the status of the rejection.\<close>

definition outcome_of :: "((rejection + route \<times> relay_context) \<times> sticky_store) option \<Rightarrow> (int + int \<times> string) option" where
  "outcome_of d = map_option (\<lambda>(res, sk). case res of
     Inl e \<Rightarrow> Inl (fst e)
   | Inr (rt, cx) \<Rightarrow> Inr (cx_channel_id cx, rt_selected_by rt)) d"

lemma outcome_routed: "outcome_of d = Some (Inr x) \<Longrightarrow> \<exists>rt cx sk. d = Some (Inr (rt, cx), sk)"
proof -
  assume o: "outcome_of d = Some (Inr x)"
  then obtain res sk where d: "d = Some (res, sk)" by (cases d) (auto simp: outcome_of_def)
  with o show ?thesis by (cases res) (auto simp: outcome_of_def)
qed

definition sticky_of :: "((rejection + route \<times> relay_context) \<times> sticky_store) option \<Rightarrow> sticky_store" where
  "sticky_of d = (case d of None \<Rightarrow> empty_sticky | Some (_, sk) \<Rightarrow> sk)"

definition run_example :: "dist_request \<Rightarrow> sticky_store \<Rightarrow> ((rejection + route \<times> relay_context) \<times> sticky_store) option" where
  "run_example r sk = distribute example_dist_config (\<lambda>_. 1) r (\<lambda>_. example_moment) 3 empty_context sk"

text \<open>The limit blocks channel 1, of the higher priority: channel 2 is taken and becomes the sticky channel.\<close>

lemma example_routed:
  "outcome_of (run_example example_dist_request empty_sticky) = Some (Inr (2, ''auto_selection''))"
  "look (memory_config 1800 50) 1 (Session 7 ''m'') (sticky_of (run_example example_dist_request empty_sticky)) = Inr (Some 2)"
  by code_simp+

lemma example_known: "known_channels (\<lambda>_. example_moment) = {1, 2}"
proof -
  have "known_channels (\<lambda>_. example_moment) = ch_id ` set example_channels"
    by (auto simp: known_channels_def example_moment_def)
  then show ?thesis by (simp add: example_channels_def example_channel_def)
qed

theorem distribute_returns_witness: "run_example example_dist_request empty_sticky \<noteq> None"
  unfolding run_example_def by (rule distribute_returns) (simp_all add: example_known)

theorem distributed_channel_fits_witness:
  "\<exists>rt cx' sk' c k. run_example example_dist_request empty_sticky = Some (Inr (rt, cx'), sk') \<and> rt_channel rt = Some c \<and>
     cx_channel_id cx' = ch_id c \<and> channel_blocked ((\<lambda>_ :: nat. example_moment) k) c \<noteq> Inr True"
proof -
  obtain rt cx' sk' where r: "run_example example_dist_request empty_sticky = Some (Inr (rt, cx'), sk')"
    using outcome_routed [OF example_routed(1)] by blast
  from distributed_channel_fits [OF r [unfolded run_example_def]] r show ?thesis by blast
qed

lemma example_moment_good:
  "moment_good (dc_memory_cache example_dist_config) example_moment"
  using example_match by (simp add: moment_good_def example_moment_def example_dist_config_def store_match_def)

lemma example_moment_pool: "example_channel 2 3 500 \<in> moment_pool ''vip'' ''m'' example_moment"
  using example_eligible by (simp add: moment_pool_def example_moment_def)

lemma example_fits: "candidate_fits ChatCompletions False example_moment (example_channel 2 3 500)"
  by code_simp

theorem best_fitting_channel_selected_witness:
  "\<exists>res j. select_with_recovery example_dist_config example_dist_request ChatCompletions ''m'' (\<lambda>_. example_moment) 3 0 = Some (res, j) \<and>
     (case res of None \<Rightarrow> False | Some c \<Rightarrow> c \<in> moment_pool ''vip'' ''m'' example_moment)"
proof -
  let ?P = "moment_pool ''vip'' ''m'' example_moment" and ?f = "candidate_fits ChatCompletions False example_moment"
  have hs: "is_response_api_web_socket_handshake example_dist_request ChatCompletions = False" by code_simp
  have g: "dr_group example_dist_request = ''vip''" by (simp add: example_dist_request_def)
  obtain res j where s: "select_with_recovery example_dist_config example_dist_request ChatCompletions ''m''
      (\<lambda>_. example_moment) 3 0 = Some (res, j)"
    using select_with_recovery_returns [of "\<lambda>_. example_moment" 3 example_dist_config example_dist_request ChatCompletions "''m''" 0]
      example_known by auto
  have calm: "moment_good (dc_memory_cache example_dist_config) example_moment \<and>
      moment_pool (dr_group example_dist_request) ''m'' example_moment = ?P \<and>
      (\<forall>c \<in> ?P. candidate_fits ChatCompletions (is_response_api_web_socket_handshake example_dist_request ChatCompletions)
        example_moment c = ?f c)"
    using example_moment_good by (simp add: hs g)
  from best_fitting_channel_selected [OF calm _ s] have
    "case res of None \<Rightarrow> \<forall>c \<in> ?P. \<not> ?f c | Some c \<Rightarrow> c \<in> ?P \<and> ?f c \<and> (\<forall>d \<in> ?P. ?f d \<longrightarrow> get_priority d \<le> get_priority c)"
    by simp
  with s example_moment_pool example_fits show ?thesis by (cases res) auto
qed

text \<open>
  The sticky channel is taken for another endpoint, although it does not serve it: a channel that only chats is
  asked for embeddings.
\<close>

definition chat_only_moment :: moment where
  "chat_only_moment = example_moment\<lparr>mo_blocks := (\<lambda>_ _. Inr False), mo_store :=
     \<lparr>cs_channels = [(example_channel 1 5 0)\<lparr>ch_type := 14\<rparr>, example_channel 2 3 0], cs_abilities = example_abilities,
      cs_cache = (\<lambda>_ _. [])\<rparr>\<rparr>"

definition run_chat_only :: "dist_request \<Rightarrow> sticky_store \<Rightarrow> ((rejection + route \<times> relay_context) \<times> sticky_store) option" where
  "run_chat_only r sk = distribute example_dist_config (\<lambda>_. 1) r (\<lambda>_. chat_only_moment) 3 empty_context sk"

lemma sticky_ignores_endpoint:
  "let embed = example_dist_request\<lparr>dr_path := ''/v1/embeddings''\<rparr> in
   outcome_of (run_chat_only embed empty_sticky) = Some (Inr (2, ''auto_selection'')) \<and>
   outcome_of (run_chat_only embed (sticky_of (run_chat_only example_dist_request empty_sticky))) =
     Some (Inr (1, ''sticky_session'')) \<and>
   \<not> channel_supports_endpoint ((example_channel 1 5 0)\<lparr>ch_type := 14\<rparr>) Embeddings"
  by code_simp

text \<open>A sticky channel is also kept for a user whose group does not have it any more.\<close>

lemma sticky_ignores_group:
  "let r = example_dist_request\<lparr>dr_group := ''free''\<rparr>; sk = sticky_of (run_chat_only example_dist_request empty_sticky) in
   outcome_of (run_chat_only r empty_sticky) = Some (Inl 503) \<and>
   outcome_of (run_chat_only r sk) = Some (Inr (1, ''sticky_session''))"
  by code_simp

text \<open>
  The wait for the end of a suspension retries on the memory cache of before: the channel is found in the database
  only.
\<close>

definition suspended_moment :: "nat \<Rightarrow> moment" where
  "suspended_moment k =
     (let abl = map (\<lambda>a. a\<lparr>ab_suspend_until := Some (10 ^ 9)\<rparr>) example_abilities in
      example_moment\<lparr>mo_now := (if k \<le> 5 then 0 else 2 * 10 ^ 9), mo_blocks := (\<lambda>_ _. Inr False), mo_store :=
       \<lparr>cs_channels = example_channels, cs_abilities = abl, cs_cache = init_channel_cache 0 example_channels abl\<rparr>\<rparr>)"

lemma recovery_needs_database:
  "outcome_of (distribute example_dist_config (\<lambda>_. 1) example_dist_request suspended_moment 3 empty_context empty_sticky) =
     Some (Inr (1, ''auto_selection'')) \<and>
   outcome_of (distribute (example_dist_config\<lparr>dc_memory_cache := True\<rparr>) (\<lambda>_. 1) example_dist_request suspended_moment 3
     empty_context empty_sticky) = Some (Inl 503)"
  by code_simp

text \<open>
  A websocket handshake without a model takes the channel of the highest priority without looking at its limit and is
  then rejected for it, although another channel is free.
\<close>

lemma handshake_ignores_limit:
  "let r = example_dist_request\<lparr>dr_path := ''/v1/responses'', dr_method := ''GET'', dr_upgrade := True, dr_request_model := []\<rparr> in
   outcome_of (run_example r empty_sticky) = Some (Inl 429) \<and>
   outcome_of (run_example (r\<lparr>dr_query_model := ''m''\<rparr>) empty_sticky) = Some (Inr (2, ''auto_selection''))"
  by code_simp

text \<open>A request bound to the channel of its session counts as one with a specific channel, which is not retried.\<close>

lemma bound_requests_not_retried:
  assumes "resolve_channel cfg r now sk = ((cid, True), sk')" "cid \<noteq> 0"
    and "route_specific cfg r mode mo cid True (initial_route r cid) = Inr rt" "rt_channel rt \<noteq> None"
  shows "should_retry (rt_specific rt) e \<noteq> None"
proof -
  have "rt_specific rt = cid"
    using assms(3,4) by (auto simp: route_specific_def routing_model_def initial_route_def Let_def split: option.splits if_splits)
  with assms(2) show ?thesis by (simp add: should_retry_def)
qed

end
