(* ===== verification/Subnets.thy ===== *)
theory Subnets
  imports Prelude "HOL-Library.Word"
begin

text \<open>
  The subnets a token may be used from (\<open>common/network/ip.go\<close>), with what the code uses of Go's package \<open>net\<close>:
  \<open>ParseIP\<close>, \<open>ParseCIDR\<close> and \<open>IPNet.Contains\<close> on addresses of 4 or 16 bytes. An address with a zone is refused
  by both parsers.
\<close>

unbundle bit_operations_syntax

type_synonym byte = "8 word"

subsection \<open>Addresses\<close>

definition parse_octet :: "string \<Rightarrow> byte option" where
  "parse_octet s =
     (if s \<noteq> [] \<and> list_all is_digit s \<and> (hd s = CHR ''0'' \<longrightarrow> s = ''0'') \<and> digits_val s \<le> 255
      then Some (of_nat (digits_val s)) else None)"

definition parse_ipv4 :: "string \<Rightarrow> byte list option" where
  "parse_ipv4 s =
     (let parts = split_on CHR ''.'' s in
      if length parts = 4 \<and> list_all (\<lambda>p. parse_octet p \<noteq> None) parts then Some (List.map_filter parse_octet parts) else None)"

definition hex_digit :: "char \<Rightarrow> int option" where
  "hex_digit c =
     (let n = of_char c in
      if 48 \<le> n \<and> n \<le> 57 then Some (n - 48)
      else if 97 \<le> n \<and> n \<le> 102 then Some (n - 97 + 10)
      else if 65 \<le> n \<and> n \<le> 70 then Some (n - 65 + 10) else None)"

definition hex_val :: "string \<Rightarrow> int" where
  "hex_val s = foldl (\<lambda>acc c. case hex_digit c of None \<Rightarrow> acc | Some d \<Rightarrow> acc * 16 + d) 0 s"

text \<open>
  The loop of the IPv6 parser over the groups: the rest of the text, the bytes so far and the place of the
  ellipsis. Each round adds at least two bytes, so eight rounds are enough.
\<close>

fun parse_groups :: "nat \<Rightarrow> string \<Rightarrow> byte list \<Rightarrow> nat option \<Rightarrow> (string \<times> byte list \<times> nat option) option" where
  "parse_groups 0 s ip ellipsis = Some (s, ip, ellipsis)"
| "parse_groups (Suc n) s ip ellipsis =
     (if 16 \<le> length ip then Some (s, ip, ellipsis)
      else
        let group = takeWhile (\<lambda>c. hex_digit c \<noteq> None) s; rest = drop (length group) s in
        if group = [] \<or> 4 < length group then None
        else if rest \<noteq> [] \<and> hd rest = CHR ''.'' then
          if ellipsis = None \<and> length ip \<noteq> 12 \<or> 16 < length ip + 4 then None
          else map_option (\<lambda>v4. ([], ip @ v4, ellipsis)) (parse_ipv4 s)
        else
          let ip = ip @ [word_of_int (hex_val group div 256), word_of_int (hex_val group)] in
          if rest = [] then Some ([], ip, ellipsis)
          else if hd rest \<noteq> CHR '':'' \<or> tl rest = [] then None
          else if hd (tl rest) = CHR '':'' then
            if ellipsis \<noteq> None then None
            else if tl (tl rest) = [] then Some ([], ip, Some (length ip))
            else parse_groups n (tl (tl rest)) ip (Some (length ip))
          else parse_groups n (tl rest) ip ellipsis)"

definition expand :: "string \<times> byte list \<times> nat option \<Rightarrow> byte list option" where
  "expand r =
     (case r of (s, ip, ellipsis) \<Rightarrow>
        if s \<noteq> [] then None
        else if length ip < 16 then
          (case ellipsis of None \<Rightarrow> None | Some e \<Rightarrow> Some (take e ip @ replicate (16 - length ip) 0 @ drop e ip))
        else if ellipsis \<noteq> None then None else Some ip)"

definition parse_ipv6 :: "string \<Rightarrow> byte list option" where
  "parse_ipv6 s =
     (if CHR ''%'' \<in> set s then None
      else if s = ''::'' then Some (replicate 16 0)
      else Option.bind (if has_prefix s ''::'' then parse_groups 8 (drop 2 s) [] (Some 0) else parse_groups 8 s [] None) expand)"

text \<open>\<open>netip.ParseAddr\<close>: the first dot, colon or percent sign decides.\<close>

definition parse_addr :: "string \<Rightarrow> byte list option" where
  "parse_addr s =
     (case find (\<lambda>c. c = CHR ''.'' \<or> c = CHR '':'' \<or> c = CHR ''%'') s of
        None \<Rightarrow> None
      | Some c \<Rightarrow> if c = CHR ''.'' then parse_ipv4 s else if c = CHR '':'' then parse_ipv6 s else None)"

definition v4_in_v6_prefix :: "byte list" where
  "v4_in_v6_prefix = replicate 10 0 @ [0xFF, 0xFF]"

definition as_16 :: "byte list \<Rightarrow> byte list" where
  "as_16 ip = (if length ip = 4 then v4_in_v6_prefix @ ip else ip)"

definition to_4 :: "byte list \<Rightarrow> byte list option" where
  "to_4 ip = (if length ip = 4 then Some ip
     else if length ip = 16 \<and> take 12 ip = v4_in_v6_prefix then Some (drop 12 ip) else None)"

subsection \<open>Networks\<close>

fun cidr_mask :: "nat \<Rightarrow> nat \<Rightarrow> byte list" where
  "cidr_mask n 0 = []"
| "cidr_mask n (Suc l) = (if 8 \<le> n then 0xFF # cidr_mask (n - 8) l else NOT (drop_bit n 0xFF) # cidr_mask 0 l)"

definition mask_ip :: "byte list \<Rightarrow> byte list \<Rightarrow> byte list" where
  "mask_ip ip m = map2 (AND) ip m"

text \<open>\<open>dtoi\<close> stops at the first character that is no digit, and gives up from \<open>0xFFFFFF\<close> on.\<close>

definition dtoi :: "string \<Rightarrow> (nat \<times> nat) option" where
  "dtoi s = (let ds = takeWhile is_digit s in
     if ds = [] \<or> 0xFFFFFF \<le> int (digits_val ds) then None else Some (digits_val ds, length ds))"

text \<open>The network of a CIDR notation: its number (of 4 bytes for IPv4, masked) and its mask.\<close>

definition parse_cidr :: "string \<Rightarrow> (byte list \<times> byte list) option" where
  "parse_cidr s =
     (if CHR ''/'' \<notin> set s then None
      else
        let addr = takeWhile (\<lambda>c. c \<noteq> CHR ''/'') s; mask = drop (Suc (length addr)) s in
        (case (parse_addr addr, dtoi mask) of
           (Some ip, Some (n, i)) \<Rightarrow>
             if i = length mask \<and> n \<le> 8 * length ip then
               let m = cidr_mask n (length ip) in Some (mask_ip ip m, m)
             else None
         | _ \<Rightarrow> None))"

definition network_number_and_mask :: "byte list \<times> byte list \<Rightarrow> byte list \<times> byte list" where
  "network_number_and_mask net =
     (case to_4 (fst net) of
        Some ip \<Rightarrow> (ip, if length (snd net) = 16 then drop 12 (snd net) else snd net)
      | None \<Rightarrow> net)"

text \<open>\<open>Contains\<close>; the address is \<open>None\<close> where \<open>ParseIP\<close> fails.\<close>

definition contains_ip :: "byte list \<times> byte list \<Rightarrow> byte list option \<Rightarrow> bool" where
  "contains_ip net ip =
     (case ip of
        None \<Rightarrow> False
      | Some ip \<Rightarrow>
          (case network_number_and_mask net of (nn, m) \<Rightarrow>
             let ip = (case to_4 ip of None \<Rightarrow> ip | Some x \<Rightarrow> x) in
             length ip = length nn \<and> mask_ip nn m = mask_ip ip m))"

definition parse_ip :: "string \<Rightarrow> byte list option" where
  "parse_ip s = map_option as_16 (parse_addr s)"

subsection \<open>The subnets of a token\<close>

definition split_subnets :: "string \<Rightarrow> string list" where
  "split_subnets subnets = map trim_space (split_on CHR '','' subnets)"

definition is_valid_subnet :: "string \<Rightarrow> bool" where
  "is_valid_subnet subnet \<longleftrightarrow> parse_cidr subnet \<noteq> None"

definition is_valid_subnets :: "string \<Rightarrow> bool" where
  "is_valid_subnets subnets \<longleftrightarrow> list_all is_valid_subnet (split_subnets subnets)"

definition is_ip_in_subnet :: "string \<Rightarrow> string \<Rightarrow> bool" where
  "is_ip_in_subnet ip subnet = (case parse_cidr subnet of None \<Rightarrow> False | Some net \<Rightarrow> contains_ip net (parse_ip ip))"

definition is_ip_in_subnets :: "string \<Rightarrow> string \<Rightarrow> bool" where
  "is_ip_in_subnets ip subnets \<longleftrightarrow> list_ex (is_ip_in_subnet ip) (split_subnets subnets)"

subsection \<open>Subnets as prefixes\<close>

text \<open>The bits of an address, the most significant first.\<close>

definition byte_bits :: "byte \<Rightarrow> bool list" where
  "byte_bits w = map (bit w) [7, 6, 5, 4, 3, 2, 1, 0]"

definition ip_bits :: "byte list \<Rightarrow> bool list" where
  "ip_bits ip = concat (map byte_bits ip)"

lemma all_byte: "(\<forall>i < 8. P i) \<longleftrightarrow> P 0 \<and> P 1 \<and> P 2 \<and> P 3 \<and> P 4 \<and> P 5 \<and> P 6 \<and> P (7 :: nat)"
  by (simp add: eval_nat_numeral All_less_Suc conj_ac)

lemma byte_eq_bits: "(x :: byte) = y \<longleftrightarrow> (\<forall>i < 8. bit x i = bit y i)"
  by (auto intro: bit_word_eqI)

lemma byte_eq: "x = y \<longleftrightarrow> byte_bits x = byte_bits y"
  unfolding byte_eq_bits all_byte byte_bits_def by auto

lemma bit_full: "bit (0xFF :: byte) i \<longleftrightarrow> i < 8"
proof -
  have "(0xFF :: byte) = mask 8" by (simp add: mask_eq_exp_minus_1)
  then show ?thesis by (simp only: bit_mask_iff) simp
qed

lemma bit_cidr_byte: "i < 8 \<Longrightarrow> bit (NOT (drop_bit n 0xFF) :: byte) i \<longleftrightarrow> 8 \<le> n + i"
  by (auto simp: bit_not_iff bit_drop_bit_eq bit_full simp del: bit_numeral_word_iff)

lemma all_upper: "(n :: nat) < 8 \<Longrightarrow> (\<forall>i < 8. 8 \<le> n + i \<longrightarrow> P i) \<longleftrightarrow> (\<forall>j < n. P (7 - j))"
proof (intro iffI allI impI)
  fix j assume "\<forall>i < 8. 8 \<le> n + i \<longrightarrow> P i" "n < 8" "j < n"
  then show "P (7 - j)" by simp
next
  fix i assume "\<forall>j < n. P (7 - j)" "i < 8" "8 \<le> n + i"
  moreover from this have "7 - (7 - i) = i" "7 - i < n" by auto
  ultimately show "P i" by metis
qed

lemma byte_bits_length [simp]: "length (byte_bits x) = 8"
  by (simp add: byte_bits_def)

lemma byte_bits_nth: "j < 8 \<Longrightarrow> byte_bits x ! j = bit x (7 - j)"
proof -
  have "\<forall>j < 8. byte_bits x ! j = bit x (7 - j)" unfolding all_byte by (simp add: byte_bits_def)
  then show "j < 8 \<Longrightarrow> byte_bits x ! j = bit x (7 - j)" by blast
qed

lemma byte_prefix:
  assumes "n < 8"
  shows "(x AND NOT (drop_bit n 0xFF)) = (y AND NOT (drop_bit n 0xFF) :: byte) \<longleftrightarrow> take n (byte_bits x) = take n (byte_bits y)"
proof -
  have "(x AND NOT (drop_bit n 0xFF)) = (y AND NOT (drop_bit n 0xFF)) \<longleftrightarrow> (\<forall>i < 8. 8 \<le> n + i \<longrightarrow> bit x i = bit y i)"
    unfolding byte_eq_bits bit_and_iff using bit_cidr_byte by blast
  also have "\<dots> \<longleftrightarrow> (\<forall>j < n. bit x (7 - j) = bit y (7 - j))" using assms by (rule all_upper)
  also have "\<dots> \<longleftrightarrow> take n (byte_bits x) = take n (byte_bits y)"
    using assms by (auto simp: list_eq_iff_nth_eq byte_bits_nth)
  finally show ?thesis .
qed

lemma cidr_mask_length [simp]: "length (cidr_mask n l) = l"
  by (induction n l rule: cidr_mask.induct) auto

lemma mask_ip_length [simp]: "length (mask_ip a m) = min (length a) (length m)"
  by (simp add: mask_ip_def)

lemma and_full [simp]: "(x :: byte) AND 0xFF = x"
  by (simp add: byte_eq_bits bit_and_iff bit_full del: bit_numeral_word_iff)

lemma mask_prefix:
  "length a = l \<Longrightarrow> length b = l \<Longrightarrow>
     mask_ip a (cidr_mask n l) = mask_ip b (cidr_mask n l) \<longleftrightarrow> take n (ip_bits a) = take n (ip_bits b)"
proof (induction l arbitrary: n a b)
  case (Suc l)
  obtain x a' y b' where ab: "a = x # a'" "b = y # b'" "length a' = l" "length b' = l"
    using Suc.prems by (cases a; cases b) auto
  show ?case
  proof (cases "8 \<le> n")
    case True
    then show ?thesis using Suc.IH [of a' b' "n - 8"] ab byte_eq [of x y] by (simp add: mask_ip_def ip_bits_def)
  next
    case False
    then show ?thesis using Suc.IH [of a' b' 0] ab byte_prefix [of n x y] by (simp add: mask_ip_def ip_bits_def)
  qed
qed simp

lemma mask_mask: "length a = length m \<Longrightarrow> mask_ip (mask_ip a m) m = mask_ip a m"
  by (rule nth_equalityI) (simp_all add: mask_ip_def and.assoc)

lemma cidr_mask_bit: "j < l \<Longrightarrow> bit (cidr_mask n l ! j) 0 \<longleftrightarrow> 8 * (j + 1) \<le> n"
proof (induction n l arbitrary: j rule: cidr_mask.induct)
  case (2 n l)
  show ?case
  proof (cases j)
    case 0
    then show ?thesis using bit_cidr_byte [of 0 n] bit_full [of 0] by auto
  next
    case (Suc i)
    with 2 show ?thesis by (cases "8 \<le> n") auto
  qed
qed simp

lemma cidr_mask_full: "8 * k \<le> n \<Longrightarrow> k \<le> l \<Longrightarrow> take k (cidr_mask n l) = replicate k 0xFF"
proof (induction n l arbitrary: k rule: cidr_mask.induct)
  case (2 n l)
  then show ?case by (cases k) auto
qed simp

lemma mask_full: "length a = k \<Longrightarrow> mask_ip a (replicate k 0xFF) = a"
  by (rule nth_equalityI) (simp_all add: mask_ip_def)

text \<open>Masking makes no IPv6 network an IPv4 one.\<close>

lemma masked_not_v4:
  assumes l: "length ip = 16" and v: "to_4 ip = None"
  shows "to_4 (mask_ip ip (cidr_mask n 16)) = None"
proof (rule ccontr)
  let ?m = "mask_ip ip (cidr_mask n 16)"
  assume "to_4 ?m \<noteq> None"
  then have p: "take 12 ?m = v4_in_v6_prefix" using l by (auto simp: to_4_def split: if_splits)
  show False
  proof (cases "96 \<le> n")
    case True
    have "take 12 ?m = mask_ip (take 12 ip) (take 12 (cidr_mask n 16))" by (simp add: mask_ip_def take_zip take_map)
    also have "\<dots> = take 12 ip" using cidr_mask_full [of 12 n 16] True l by (simp add: mask_full)
    finally show False using p v l by (simp add: to_4_def)
  next
    case False
    have "?m ! 11 = 0xFF" using arg_cong [OF p, of "\<lambda>xs. xs ! 11"] by (simp add: v4_in_v6_prefix_def nth_append)
    moreover have "?m ! 11 = (ip ! 11) AND (cidr_mask n 16 ! 11)" using l by (simp add: mask_ip_def)
    ultimately have "bit (cidr_mask n 16 ! 11) 0" using bit_full [of 0] by (metis bit_and_iff zero_less_numeral)
    with cidr_mask_bit [of 11 16 n] False show False by simp
  qed
qed

lemma v4_contains:
  assumes "length net = 4" "length x = 4"
  shows "contains_ip (mask_ip net (cidr_mask n 4), cidr_mask n 4) (Some (as_16 x)) \<longleftrightarrow> take n (ip_bits net) = take n (ip_bits x)"
proof -
  have "to_4 (as_16 x) = Some x" using assms(2) by (simp add: to_4_def as_16_def v4_in_v6_prefix_def)
  moreover have "network_number_and_mask (mask_ip net (cidr_mask n 4), cidr_mask n 4) =
      (mask_ip net (cidr_mask n 4), cidr_mask n 4)"
    using assms(1) by (simp add: network_number_and_mask_def to_4_def)
  ultimately show ?thesis
    using assms mask_prefix [of net 4 x n] mask_mask [of net "cidr_mask n 4"] by (simp add: contains_ip_def Let_def)
qed

lemma v6_contains:
  assumes "length net = 16" "to_4 net = None" "length x = 16" "to_4 x = None"
  shows "contains_ip (mask_ip net (cidr_mask n 16), cidr_mask n 16) (Some (as_16 x)) \<longleftrightarrow> take n (ip_bits net) = take n (ip_bits x)"
proof -
  have "network_number_and_mask (mask_ip net (cidr_mask n 16), cidr_mask n 16) =
      (mask_ip net (cidr_mask n 16), cidr_mask n 16)"
    using masked_not_v4 [OF assms(1,2)] by (simp add: network_number_and_mask_def)
  then show ?thesis
    using assms mask_prefix [of net 16 x n] mask_mask [of net "cidr_mask n 16"]
    by (simp add: contains_ip_def as_16_def Let_def)
qed

lemma octet_digits: "parse_octet p \<noteq> None \<Longrightarrow> p \<noteq> []"
  by (auto simp: parse_octet_def)

lemma parse_ipv4_length: "parse_ipv4 s = Some ip \<Longrightarrow> length ip = 4"
proof -
  have "list_all (\<lambda>p. parse_octet p \<noteq> None) ps \<Longrightarrow> length (List.map_filter parse_octet ps) = length ps" for ps
    by (induction ps) (auto simp: List.map_filter_simps)
  then show "parse_ipv4 s = Some ip \<Longrightarrow> length ip = 4" by (auto simp: parse_ipv4_def Let_def split: if_splits)
qed

text \<open>An address is of the one family or, not being an embedded IPv4 address, of the other.\<close>

definition same_family :: "byte list \<Rightarrow> byte list \<Rightarrow> bool" where
  "same_family a b \<longleftrightarrow> length a = 4 \<and> length b = 4 \<or> length a = 16 \<and> length b = 16 \<and> to_4 a = None \<and> to_4 b = None"

lemma dtoi_digits: "n < 0xFFFFFF \<Longrightarrow> dtoi (nat_digits n) = Some (n, length (nat_digits n))"
proof -
  have t: "takeWhile is_digit (nat_digits n) = nat_digits n"
    using nat_digits_set [of n] by (simp only: takeWhile_eq_all_conv)
  show "n < 0xFFFFFF \<Longrightarrow> dtoi (nat_digits n) = Some (n, length (nat_digits n))"
    unfolding dtoi_def Let_def t by (simp add: digits_val_nat_digits del: nat_digits.simps)
qed

lemma cut_slash: "CHR ''/'' \<notin> set a \<Longrightarrow> takeWhile (\<lambda>c. c \<noteq> CHR ''/'') (a @ CHR ''/'' # b) = a"
  by (induction a) auto

text \<open>
  C40. C. An address is in a subnet, of the same family, exactly if it has the first bits of the subnet's address, as
  many as the prefix length says.
\<close>

theorem subnet_is_prefix:
  assumes "parse_addr a = Some net" "CHR ''/'' \<notin> set a" "n \<le> 8 * length net" "parse_addr ip = Some x" "same_family net x"
  shows "is_ip_in_subnet ip (a @ ''/'' @ nat_digits n) \<longleftrightarrow> take n (ip_bits net) = take n (ip_bits x)"
proof -
  let ?m = "cidr_mask n (length net)"
  have "length net \<le> 16" using assms(5) by (auto simp: same_family_def)
  with assms(3) have "n < 0xFFFFFF" by simp
  then have "parse_cidr (a @ ''/'' @ nat_digits n) = Some (mask_ip net ?m, ?m)"
    using assms(1-3) cut_slash [of a "nat_digits n"] by (simp add: parse_cidr_def Let_def dtoi_digits)
  then have "is_ip_in_subnet ip (a @ ''/'' @ nat_digits n) \<longleftrightarrow> contains_ip (mask_ip net ?m, ?m) (Some (as_16 x))"
    using assms(4) by (simp add: is_ip_in_subnet_def parse_ip_def)
  also have "\<dots> \<longleftrightarrow> take n (ip_bits net) = take n (ip_bits x)"
    using assms(5) v4_contains [of net x n] v6_contains [of net x n] by (auto simp: same_family_def)
  finally show ?thesis .
qed

theorem subnet_is_prefix_witness:
  "is_ip_in_subnet ''2001:db8::7'' ''2001:db8:0:0::/33'' \<and> \<not> is_ip_in_subnet ''2001:db8:8000::7'' ''2001:db8:0:0::/33''"
proof -
  let ?a = "''2001:db8:0:0::''"
  define net where "net = [0x20, 1, 0xd, 0xb8, 0, 0, 0, 0, 0, 0, 0, 0, 0, 0, 0, 0 :: byte]"
  define x where "x = [0x20, 1, 0xd, 0xb8, 0, 0, 0, 0, 0, 0, 0, 0, 0, 0, 0, 7 :: byte]"
  define y where "y = [0x20, 1, 0xd, 0xb8, 0x80, 0, 0, 0, 0, 0, 0, 0, 0, 0, 0, 7 :: byte]"
  have p: "parse_addr ?a = Some net" "parse_addr ''2001:db8::7'' = Some x" "parse_addr ''2001:db8:8000::7'' = Some y"
    unfolding net_def x_def y_def by code_simp+
  have f: "same_family net x" "same_family net y" unfolding net_def x_def y_def by code_simp+
  have l: "33 \<le> 8 * length net" by (simp add: net_def)
  have b: "take 33 (ip_bits net) = take 33 (ip_bits x)" "take 33 (ip_bits net) \<noteq> take 33 (ip_bits y)"
    unfolding net_def x_def y_def by code_simp+
  have d: "nat_digits 33 = ''33''" by code_simp
  from subnet_is_prefix [OF p(1) _ l p(2) f(1)] subnet_is_prefix [OF p(1) _ l p(3) f(2)] b d show ?thesis by simp
qed

text \<open>Some notations: leading zeros and a fifth octet are refused, an embedded address is an IPv4 one.\<close>

lemma subnet_examples:
  "is_ip_in_subnets ''10.1.2.3'' ''192.168.0.0/16, 10.1.0.0/16''" "\<not> is_ip_in_subnets ''10.2.2.3'' ''192.168.0.0/16, 10.1.0.0/16''"
  "is_ip_in_subnets ''::ffff:10.1.2.3'' ''10.1.0.0/16''" "\<not> is_valid_subnets ''10.01.0.0/16''"
  "\<not> is_valid_subnets ''10.1.0.0.0/16''" "\<not> is_valid_subnets ''10.1.0.0''" "\<not> is_valid_subnets ''10.1.0.0/33''"
  "\<not> is_valid_subnets ''1::2::3/8''" "\<not> is_valid_subnets ''10.1.0.0/16,''"
  by code_simp+

end
