(* ===== verification/RateLimit.thy ===== *)
theory RateLimit
  imports Prelude
begin

text \<open>
  The in-memory sliding-window rate limiter of \<open>common/rate-limit.go\<close> and the middleware
  of \<open>middleware/rate-limit.go\<close> that uses it when Redis is off.

  The limiter's state is a record of its Go fields; \<open>store\<close> is \<open>None\<close> while the Go map
  is nil. \<open>time.Now().Unix()\<close> is an argument (\<open>now\<close>, in seconds). A run-time panic (a
  write to the nil map, an index into an empty slice, \<open>make\<close> with a negative capacity)
  is the value \<open>None\<close>. The interface \<open>window_limiter\<close> states what a sliding-window limiter
  promises, and proves once that no window of the given length ever sees more than the
  allowed number of grants.
\<close>

subsection \<open>The limiter\<close>

record limiter =
  store :: "(string \<rightharpoonup> int list) option"
  expirationDuration :: int \<comment> \<open>a \<open>time.Duration\<close>: nanoseconds\<close>

definition new_limiter :: limiter where
  "new_limiter = \<lparr>store = None, expirationDuration = 0\<rparr>"

definition init_limiter :: "int \<Rightarrow> limiter \<Rightarrow> limiter" where
  "init_limiter d l =
     (case store l of
        None \<Rightarrow> l\<lparr>store := Some Map.empty, expirationDuration := d\<rparr>
      | Some _ \<Rightarrow> l)"

definition expiration_seconds :: "limiter \<Rightarrow> int" where
  "expiration_seconds l = expirationDuration l div 10 ^ 9"

text \<open>One turn of the pruning goroutine.\<close>

definition stale :: "int \<Rightarrow> int \<Rightarrow> int list \<Rightarrow> bool" where
  "stale now e queue \<longleftrightarrow> length queue = 0 \<or> now - last queue > e"

definition clear_expired_items :: "int \<Rightarrow> limiter \<Rightarrow> limiter" where
  "clear_expired_items now l =
     l\<lparr>store := map_option
        (\<lambda>m k. case m k of
            None \<Rightarrow> None
          | Some queue \<Rightarrow> if stale now (expiration_seconds l) queue then None else Some queue)
        (store l)\<rparr>"

definition request :: "int \<Rightarrow> string \<Rightarrow> int \<Rightarrow> int \<Rightarrow> limiter \<Rightarrow> (bool \<times> limiter) option" where
  "request now key maxRequestNum duration l =
     (let m = (case store l of None \<Rightarrow> Map.empty | Some m \<Rightarrow> m) in
      case m key of
        Some queue \<Rightarrow>
          if int (length queue) < maxRequestNum
          then Some (True, l\<lparr>store := Some (m(key \<mapsto> queue @ [now]))\<rparr>)
          else (case queue of
                  [] \<Rightarrow> None
                | old # rest \<Rightarrow>
                    if now - old \<ge> duration
                    then Some (True, l\<lparr>store := Some (m(key \<mapsto> rest @ [now]))\<rparr>)
                    else Some (False, l))
      | None \<Rightarrow>
          if maxRequestNum < 0 \<or> store l = None then None
          else Some (True, l\<lparr>store := Some (m(key \<mapsto> [now]))\<rparr>))"

definition can_request :: "int \<Rightarrow> string \<Rightarrow> int \<Rightarrow> int \<Rightarrow> limiter \<Rightarrow> bool option" where
  "can_request now key maxRequestNum duration l =
     (let m = (case store l of None \<Rightarrow> Map.empty | Some m \<Rightarrow> m) in
      case m key of
        None \<Rightarrow> Some True
      | Some queue \<Rightarrow>
          if int (length queue) < maxRequestNum then Some True
          else (case queue of [] \<Rightarrow> None | old # _ \<Rightarrow> Some (now - old \<ge> duration)))"

text \<open>The queue recorded for a key, empty when the key is absent.\<close>

definition queue_of :: "limiter \<Rightarrow> string \<Rightarrow> int list" where
  "queue_of l k = (case store l of None \<Rightarrow> [] | Some m \<Rightarrow> (case m k of None \<Rightarrow> [] | Some q \<Rightarrow> q))"

text \<open>What the code keeps: the map exists and no stored queue is empty.\<close>

definition limiter_ok :: "limiter \<Rightarrow> bool" where
  "limiter_ok l \<longleftrightarrow> (case store l of None \<Rightarrow> False | Some m \<Rightarrow> [] \<notin> ran m)"

subsection \<open>Spacing of grants\<close>

definition admits :: "int \<Rightarrow> int \<Rightarrow> int \<Rightarrow> int list \<Rightarrow> bool" where
  "admits m d now q \<longleftrightarrow> q = [] \<or> int (length q) < m \<or> now - hd q \<ge> d"

definition slide :: "int \<Rightarrow> int \<Rightarrow> int list \<Rightarrow> int list" where
  "slide m now q = (if q = [] \<or> int (length q) < m then q else tl q) @ [now]"

text \<open>The \<open>i\<close>-th grant and the \<open>i + m\<close>-th are at least \<open>d\<close> apart.\<close>

definition spaced :: "nat \<Rightarrow> int \<Rightarrow> int list \<Rightarrow> bool" where
  "spaced m d h \<longleftrightarrow> (\<forall>i. i + m < length h \<longrightarrow> h ! i + d \<le> h ! (i + m))"

lemma spaced_Nil [simp]: "spaced m d []"
  by (simp add: spaced_def)

lemma spaced_snoc:
  "spaced m d h \<Longrightarrow> (m \<le> length h \<Longrightarrow> m > 0 \<Longrightarrow> h ! (length h - m) + d \<le> t) \<Longrightarrow> m > 0 \<Longrightarrow>
   spaced m d (h @ [t])"
  unfolding spaced_def
proof (intro allI impI)
  fix i
  assume old: "\<forall>i. i + m < length h \<longrightarrow> h ! i + d \<le> h ! (i + m)"
    and new: "m \<le> length h \<Longrightarrow> m > 0 \<Longrightarrow> h ! (length h - m) + d \<le> t"
    and m: "m > 0" and i: "i + m < length (h @ [t])"
  show "(h @ [t]) ! i + d \<le> (h @ [t]) ! (i + m)"
  proof (cases "i + m < length h")
    case True
    with old show ?thesis by (simp add: nth_append)
  next
    case False
    with i have "i + m = length h" by simp
    moreover from this have "i = length h - m" by simp
    ultimately show ?thesis using new m by (simp add: nth_append)
  qed
qed

lemma spaced_window:
  assumes s: "sorted h" and sp: "spaced m d h"
  shows "length (filter (\<lambda>t. a \<le> t \<and> t < a + d) h) \<le> m"
proof (rule ccontr)
  let ?P = "\<lambda>t. a \<le> t \<and> t < a + d"
  define I where "I = {i. i < length h \<and> ?P (h ! i)}"
  assume "\<not> length (filter ?P h) \<le> m"
  then have c: "m < card I"
    by (simp add: length_filter_conv_card I_def)
  have fin: "finite I" by (simp add: I_def)
  have ne: "I \<noteq> {}" using c by auto
  have "I \<subseteq> {Min I..Max I}" using fin by auto
  then have "card I \<le> Max I + 1 - Min I"
    using card_mono [of "{Min I..Max I}" I] by simp
  with c have le: "Min I + m \<le> Max I" by linarith
  have mn: "Min I \<in> I" and mx: "Max I \<in> I" using fin ne by auto
  have len: "Min I + m < length h" using mx le by (simp add: I_def)
  have "h ! Min I + d \<le> h ! (Min I + m)" using sp len by (simp add: spaced_def)
  also have "\<dots> \<le> h ! Max I" using s le mx by (auto simp: I_def intro: sorted_nth_mono)
  finally show False using mn mx by (auto simp: I_def)
qed

subsection \<open>The interface: a limiter over a stream of events\<close>

datatype event =
    Req string int   \<comment> \<open>a request for a key at a time\<close>
  | Prune int        \<comment> \<open>the pruning goroutine wakes up\<close>

fun event_time :: "event \<Rightarrow> int" where
  "event_time (Req _ t) = t"
| "event_time (Prune t) = t"

text \<open>
  A run gives the grants (key and time, oldest first) and the last state; \<open>None\<close> when a
  request panics. \<open>lim\<close> gives every key its limit and its window.
\<close>

fun run :: "(int \<Rightarrow> string \<Rightarrow> int \<Rightarrow> int \<Rightarrow> 's \<Rightarrow> (bool \<times> 's) option) \<Rightarrow> (int \<Rightarrow> 's \<Rightarrow> 's) \<Rightarrow>
            (string \<Rightarrow> int \<times> int) \<Rightarrow> 's \<Rightarrow> event list \<Rightarrow> ((string \<times> int) list \<times> 's) option" where
  "run req prune lim s [] = Some ([], s)"
| "run req prune lim s (Prune t # es) = run req prune lim (prune t s) es"
| "run req prune lim s (Req k t # es) =
     (case req t k (fst (lim k)) (snd (lim k)) s of
        None \<Rightarrow> None
      | Some (b, s') \<Rightarrow>
          (case run req prune lim s' es of
             None \<Rightarrow> None
           | Some (gs, s'') \<Rightarrow> Some (if b then (k, t) # gs else gs, s'')))"

definition grants_of :: "string \<Rightarrow> (string \<times> int) list \<Rightarrow> int list" where
  "grants_of k gs = map snd (filter (\<lambda>g. fst g = k) gs)"

text \<open>
  \<open>q\<close> is what the limiter remembers of the history \<open>h\<close> of one key: the last grants, and
  everything forgotten is either older than a window or behind a full queue.
\<close>

definition tracks :: "int \<Rightarrow> int \<Rightarrow> int \<Rightarrow> int list \<Rightarrow> int list \<Rightarrow> bool" where
  "tracks m d now h q \<longleftrightarrow>
     (\<exists>old. h = old @ q \<and> (int (length q) = m \<or> (\<forall>x \<in> set old. x + d \<le> now))) \<and>
     sorted h \<and> (\<forall>x \<in> set h. x \<le> now) \<and> int (length q) \<le> m \<and> spaced (nat m) d h"

lemma tracks_init: "0 \<le> m \<Longrightarrow> tracks m d now [] []"
  by (simp add: tracks_def)

lemma tracks_later: "tracks m d now h q \<Longrightarrow> now \<le> t \<Longrightarrow> tracks m d t h q"
  unfolding tracks_def by fastforce

lemma tracks_forget:
  assumes "tracks m d now h q" and "now \<le> t" and "0 < m"
    and "\<And>x. x \<in> set q \<Longrightarrow> x + d \<le> t"
  shows "tracks m d t h []"
proof -
  from assms(1) obtain old where h: "h = old @ q"
    and c: "int (length q) = m \<or> (\<forall>x \<in> set old. x + d \<le> now)"
    and s: "sorted h" and r: "\<forall>x \<in> set h. x \<le> now" "spaced (nat m) d h"
    unfolding tracks_def by blast
  have "x + d \<le> t" if x: "x \<in> set old" for x
  proof (cases "int (length q) = m")
    case True
    with assms(3) obtain y where y: "y \<in> set q" by (cases q) auto
    with s h x have "x \<le> y" by (simp add: sorted_append)
    with assms(4) [OF y] show ?thesis by simp
  next
    case False
    with c x assms(2) show ?thesis by force
  qed
  with h assms s r show ?thesis
    unfolding tracks_def by fastforce
qed

lemma tracks_grant:
  assumes t: "tracks m d now h q" and le: "now \<le> t" and m: "0 < m" and a: "admits m d t q"
  shows "tracks m d t (h @ [t]) (slide m t q)"
proof -
  from t obtain old where h: "h = old @ q"
    and c: "int (length q) = m \<or> (\<forall>x \<in> set old. x + d \<le> now)"
    and s: "sorted h" and r: "\<forall>x \<in> set h. x \<le> now" and l: "int (length q) \<le> m"
    and sp: "spaced (nat m) d h"
    unfolding tracks_def by blast
  have so: "sorted (h @ [t])" using s r le by (intro sorted_snoc) auto
  have rt: "\<forall>x \<in> set (h @ [t]). x \<le> t" using r le by auto
  show ?thesis
  proof (cases "int (length q) < m")
    case True
    have "spaced (nat m) d (h @ [t])"
    proof (rule spaced_snoc [OF sp])
      assume b: "nat m \<le> length h"
      have lt: "length h - nat m < length old" using True h m b by auto
      then have "h ! (length h - nat m) \<in> set old" by (simp add: h nth_append)
      moreover from c True have "\<forall>x \<in> set old. x + d \<le> now" by simp
      ultimately show "h ! (length h - nat m) + d \<le> t" using le by fastforce
    qed (use m in simp)
    moreover have "\<exists>o'. h @ [t] = o' @ slide m t q \<and>
        (int (length (slide m t q)) = m \<or> (\<forall>x \<in> set o'. x + d \<le> t))"
      using h c True le by (intro exI [of _ old]) (fastforce simp: slide_def)
    ultimately show ?thesis
      using so rt True by (simp add: tracks_def slide_def)
  next
    case False
    with l m obtain x xs where q: "q = x # xs" by (cases q) auto
    from False l have full: "int (length q) = m" by simp
    have "spaced (nat m) d (h @ [t])"
    proof (rule spaced_snoc [OF sp])
      have "length h - nat m = length old" using h full m by auto
      then have "h ! (length h - nat m) = x" by (simp add: h q)
      then show "h ! (length h - nat m) + d \<le> t"
        using a False q by (simp add: admits_def)
    qed (use m in simp)
    moreover have "\<exists>o'. h @ [t] = o' @ slide m t q \<and>
        (int (length (slide m t q)) = m \<or> (\<forall>x \<in> set o'. x + d \<le> t))"
      using h q full by (intro exI [of _ "old @ [x]"]) (simp add: slide_def)
    moreover have "int (length (slide m t q)) \<le> m" using q full by (simp add: slide_def)
    ultimately show ?thesis
      using so rt by (simp add: tracks_def)
  qed
qed

locale window_limiter =
  fixes queue :: "'s \<Rightarrow> string \<Rightarrow> int list"
    and inv :: "'s \<Rightarrow> bool"
    and req :: "int \<Rightarrow> string \<Rightarrow> int \<Rightarrow> int \<Rightarrow> 's \<Rightarrow> (bool \<times> 's) option"
    and prune :: "int \<Rightarrow> 's \<Rightarrow> 's"
    and expiry :: "'s \<Rightarrow> int"
  assumes req_decides: "inv s \<Longrightarrow> 0 < m \<Longrightarrow> \<exists>s'. req t k m d s = Some (admits m d t (queue s k), s')"
    and req_granted: "inv s \<Longrightarrow> 0 < m \<Longrightarrow> req t k m d s = Some (True, s') \<Longrightarrow>
      queue s' = (queue s)(k := slide m t (queue s k))"
    and req_denied: "inv s \<Longrightarrow> 0 < m \<Longrightarrow> req t k m d s = Some (False, s') \<Longrightarrow> s' = s"
    and req_keeps: "inv s \<Longrightarrow> 0 < m \<Longrightarrow> req t k m d s = Some (b, s') \<Longrightarrow>
      inv s' \<and> expiry s' = expiry s"
    and prune_queue: "inv s \<Longrightarrow>
      queue (prune t s) k = (if stale t (expiry s) (queue s k) then [] else queue s k)"
    and prune_keeps: "inv s \<Longrightarrow> inv (prune t s) \<and> expiry (prune t s) = expiry s"
begin

lemma run_total:
  "inv s \<Longrightarrow> (\<And>k. 0 < fst (lim k)) \<Longrightarrow> \<exists>gs s'. run req prune lim s es = Some (gs, s')"
proof (induction es arbitrary: s)
  case Nil
  then show ?case by simp
next
  case (Cons e es)
  show ?case
  proof (cases e)
    case (Prune t)
    with Cons show ?thesis using prune_keeps by simp
  next
    case (Req k t)
    obtain b s' where r: "req t k (fst (lim k)) (snd (lim k)) s = Some (b, s')"
      using req_decides [OF Cons.prems(1,2)] by blast
    then have "inv s'" using req_keeps Cons.prems by blast
    then obtain gs s'' where "run req prune lim s' es = Some (gs, s'')"
      using Cons by blast
    with r Req show ?thesis by simp
  qed
qed

lemma req_tracks:
  assumes "inv s" and "0 < m" and "req t k' m' d' s = Some (b, s')" and "0 < m'"
    and "k' = k \<Longrightarrow> m' = m \<and> d' = d" and "tracks m d now h (queue s k)" and "now \<le> t"
  shows "tracks m d t (h @ (if b \<and> k' = k then [t] else [])) (queue s' k)"
proof (cases b)
  case False
  with assms(1,3,4) have "s' = s" using req_denied [of s m' t k' d' s'] by simp
  with False assms(6,7) show ?thesis by (simp add: tracks_later)
next
  case True
  with assms(1,3,4) have q: "queue s' = (queue s)(k' := slide m' t (queue s k'))"
    using req_granted [of s m' t k' d' s'] by simp
  show ?thesis
  proof (cases "k' = k")
    case k: True
    from req_decides [OF assms(1,4), of t k' d'] assms(3) True
    have "admits m' d' t (queue s k')" by auto
    with k assms True q show ?thesis by (simp add: tracks_grant)
  next
    case False
    with assms(6,7) q True show ?thesis by (simp add: tracks_later)
  qed
qed

lemma prune_tracks:
  assumes i: "inv s" and m: "0 < m" and e: "d \<le> expiry s + 1"
    and tr: "tracks m d now h (queue s k)" and le: "now \<le> t"
  shows "tracks m d t h (queue (prune t s) k)"
proof (cases "stale t (expiry s) (queue s k)")
  case True
  have "x + d \<le> t" if x: "x \<in> set (queue s k)" for x
  proof -
    have "sorted (queue s k)" using tr by (auto simp: tracks_def sorted_append)
    then have "x \<le> last (queue s k)" using x by (rule sorted_le_last)
    with True e x show ?thesis by (auto simp: stale_def)
  qed
  with True tr le m i show ?thesis
    by (simp add: prune_queue tracks_forget)
next
  case False
  with tr le i show ?thesis by (simp add: prune_queue tracks_later)
qed

lemma run_tracks:
  assumes "inv s" and "\<And>k. 0 < fst (lim k)" and "snd (lim k) \<le> expiry s + 1"
    and "tracks (fst (lim k)) (snd (lim k)) now h (queue s k)"
    and "sorted (now # map event_time es)" and "run req prune lim s es = Some (gs, s')"
  shows "\<exists>now'. tracks (fst (lim k)) (snd (lim k)) now' (h @ grants_of k gs) (queue s' k)"
  using assms
proof (induction es arbitrary: s h now gs)
  case Nil
  then show ?case by (auto simp: grants_of_def)
next
  case (Cons e es)
  show ?case
  proof (cases e)
    case (Prune t)
    with Cons.prems have "tracks (fst (lim k)) (snd (lim k)) t h (queue (prune t s) k)"
      by (intro prune_tracks) auto
    with Prune Cons.prems show ?thesis
      by (intro Cons.IH [of "prune t s" t]) (auto simp: prune_keeps)
  next
    case (Req k' t)
    with Cons.prems(6) obtain b s1 gs1
      where r: "req t k' (fst (lim k')) (snd (lim k')) s = Some (b, s1)"
        and rest: "run req prune lim s1 es = Some (gs1, s')"
        and gs: "gs = (if b then (k', t) # gs1 else gs1)"
      by (auto split: option.splits)
    have "tracks (fst (lim k)) (snd (lim k)) t
        (h @ (if b \<and> k' = k then [t] else [])) (queue s1 k)"
      using Cons.prems Req by (intro req_tracks [OF _ _ r]) auto
    moreover have "inv s1 \<and> expiry s1 = expiry s"
      using req_keeps r Cons.prems by blast
    ultimately have "\<exists>now'. tracks (fst (lim k)) (snd (lim k)) now'
        ((h @ (if b \<and> k' = k then [t] else [])) @ grants_of k gs1) (queue s' k)"
      using Cons.prems Req rest by (intro Cons.IH [of s1 t]) auto
    moreover have "(h @ (if b \<and> k' = k then [t] else [])) @ grants_of k gs1 = h @ grants_of k gs"
      using gs by (simp add: grants_of_def)
    ultimately show ?thesis by simp
  qed
qed

lemma window:
  assumes "inv s" and "\<And>k. queue s k = []" and "\<And>k. 0 < fst (lim k)"
    and "snd (lim k) \<le> expiry s + 1" and "sorted (map event_time es)"
    and "run req prune lim s es = Some (gs, s')"
  shows "int (length (filter (\<lambda>t. a \<le> t \<and> t < a + snd (lim k)) (grants_of k gs))) \<le> fst (lim k)"
proof -
  obtain now where n: "sorted (now # map event_time es)"
  proof (cases es)
    case Nil
    then show ?thesis using that [of 0] by simp
  next
    case (Cons e es')
    then show ?thesis using that [of "event_time e"] assms(5) by simp
  qed
  have "0 \<le> fst (lim k)" using assms(3) [of k] by simp
  then have "tracks (fst (lim k)) (snd (lim k)) now [] (queue s k)"
    using assms(2) by (simp add: tracks_init)
  from run_tracks [OF assms(1,3,4) this n assms(6)] obtain now'
    where "tracks (fst (lim k)) (snd (lim k)) now' (grants_of k gs) (queue s' k)" by auto
  then have "sorted (grants_of k gs)" "spaced (nat (fst (lim k))) (snd (lim k)) (grants_of k gs)"
    by (auto simp: tracks_def)
  from spaced_window [OF this, of a] \<open>0 \<le> fst (lim k)\<close> show ?thesis by simp
qed

end

subsection \<open>The in-memory limiter provides the interface\<close>

lemma limiter_ok_init: "limiter_ok (init_limiter d new_limiter)"
  by (simp add: limiter_ok_def init_limiter_def new_limiter_def)

lemma init_limiter_ok [simp]: "limiter_ok l \<Longrightarrow> init_limiter d l = l"
  by (auto simp: limiter_ok_def init_limiter_def split: option.splits)

lemma queue_of_init: "queue_of (init_limiter d new_limiter) k = []"
  by (simp add: queue_of_def init_limiter_def new_limiter_def)

lemma limiter_okE:
  assumes "limiter_ok l"
  obtains m where "store l = Some m" and "[] \<notin> ran m"
  using assms by (auto simp: limiter_ok_def split: option.splits)

lemma request_present:
  assumes "limiter_ok l" and "store l = Some m" and "m k = Some q"
  shows "request t k n d l =
    (if admits n d t q then Some (True, l\<lparr>store := Some (m(k \<mapsto> slide n t q))\<rparr>) else Some (False, l))"
proof -
  have "q \<noteq> []" using assms by (auto simp: limiter_ok_def ran_def)
  then show ?thesis
    using assms by (cases q) (auto simp: request_def admits_def slide_def)
qed

lemma request_absent:
  "store l = Some m \<Longrightarrow> m k = None \<Longrightarrow> 0 \<le> n \<Longrightarrow>
   request t k n d l = Some (True, l\<lparr>store := Some (m(k \<mapsto> [t]))\<rparr>)"
  by (simp add: request_def)

lemma request_queue:
  assumes "limiter_ok l" and "0 \<le> n"
  shows "\<exists>l'. request t k n d l = Some (admits n d t (queue_of l k), l') \<and> limiter_ok l' \<and>
    expirationDuration l' = expirationDuration l \<and>
    queue_of l' = (if admits n d t (queue_of l k)
                   then (queue_of l)(k := slide n t (queue_of l k)) else queue_of l) \<and>
    (\<not> admits n d t (queue_of l k) \<longrightarrow> l' = l)"
proof -
  from assms(1) obtain m where m: "store l = Some m" "[] \<notin> ran m" by (rule limiter_okE)
  show ?thesis
  proof (cases "m k")
    case None
    with m assms show ?thesis
      by (auto simp: request_absent queue_of_def admits_def slide_def limiter_ok_def ran_def)
  next
    case (Some q)
    with m have "q \<noteq> []" by (auto simp: ran_def)
    with Some m assms show ?thesis
      by (auto simp: request_present queue_of_def limiter_ok_def ran_def slide_def)
  qed
qed

lemma queue_of_prune:
  assumes "limiter_ok l"
  shows "queue_of (clear_expired_items t l) k =
    (if stale t (expiration_seconds l) (queue_of l k) then [] else queue_of l k)"
  using assms
  by (auto simp: limiter_ok_def queue_of_def clear_expired_items_def stale_def ran_def
      split: option.splits)

lemma prune_ok: "limiter_ok l \<Longrightarrow> limiter_ok (clear_expired_items t l)"
  by (auto simp: limiter_ok_def clear_expired_items_def ran_def split: option.splits if_splits)

lemma prune_expiration [simp]: "expiration_seconds (clear_expired_items t l) = expiration_seconds l"
  by (simp add: expiration_seconds_def clear_expired_items_def)

interpretation mem: window_limiter queue_of limiter_ok request clear_expired_items expiration_seconds
proof (unfold_locales, goal_cases)
  case (1 l n t k d)
  then show ?case using request_queue [of l n t k d] by auto
next
  case (2 l n t k d l')
  then show ?case using request_queue [of l n t k d] by (auto split: if_splits)
next
  case (3 l n t k d l')
  then show ?case using request_queue [of l n t k d] by (auto split: if_splits)
next
  case (4 l n t k d b l')
  then show ?case using request_queue [of l n t k d] by (auto simp: expiration_seconds_def)
next
  case (5 l t k)
  then show ?case by (rule queue_of_prune)
next
  case (6 l t)
  then show ?case by (simp add: prune_ok)
qed

lemma can_request_queue:
  assumes "limiter_ok l" and "0 \<le> n"
  shows "can_request t k n d l = Some (admits n d t (queue_of l k))"
proof -
  from assms(1) obtain m where m: "store l = Some m" "[] \<notin> ran m" by (rule limiter_okE)
  show ?thesis
  proof (cases "m k")
    case (Some q)
    with m have "q \<noteq> []" by (auto simp: ran_def)
    with Some m show ?thesis
      by (cases q) (auto simp: can_request_def admits_def queue_of_def)
  qed (use m in \<open>simp add: can_request_def admits_def queue_of_def\<close>)
qed

subsection \<open>The middleware over the in-memory limiter\<close>

text \<open>
  What the handlers read of the request: the client address, the headers that may carry the
  key, and the two values the distributor left in the gin context. \<open>hash\<close> is the hex form of
  the first 8 bytes of SHA-256.
\<close>

record rl_request =
  client_ip :: string
  h_authorization :: string
  h_x_api_key :: string
  h_ws_protocol :: string
  ctx_rate_limit :: int
  ctx_channel_id :: int

text \<open>What they read of the configuration (\<open>common/config\<close>); \<open>expire\<close> is in nanoseconds.\<close>

record rl_config =
  hash :: "string \<Rightarrow> string"
  token_key_prefix :: string
  debug_enabled :: bool
  key_expiration :: int
  channel_limit_enabled :: bool
  channel_limit_duration :: int

datatype verdict = Next | Abort int

definition trim_prefix :: "string \<Rightarrow> string \<Rightarrow> string" where
  "trim_prefix p s = (if has_prefix s p then drop (length p) s else s)"

definition ws_key_prefix :: string where
  "ws_key_prefix = ''openai-insecure-api-key.''"

fun first_protocol_key :: "string list \<Rightarrow> string" where
  "first_protocol_key [] = []"
| "first_protocol_key (p # ps) =
     (if has_prefix (trim_space p) ws_key_prefix
      then trim_prefix ws_key_prefix (trim_space p) else first_protocol_key ps)"

definition get_token_key_parts :: "rl_config \<Rightarrow> rl_request \<Rightarrow> string list" where
  "get_token_key_parts cfg c =
     (let key = (if h_authorization c = [] then h_x_api_key c else h_authorization c);
          key = (if key = [] \<and> h_ws_protocol c \<noteq> []
                 then first_protocol_key (split_on (CHR '','') (h_ws_protocol c)) else key);
          key = trim_prefix ''Bearer '' key;
          key = (if token_key_prefix cfg \<noteq> [] then trim_prefix (token_key_prefix cfg) key else key);
          key = trim_prefix ''laisky-'' (trim_prefix ''sk-'' key)
      in split_on (CHR ''-'') key)"

definition rate_key :: "rl_config \<Rightarrow> string \<Rightarrow> rl_request \<Rightarrow> string" where
  "rate_key cfg mark c =
     (let hashed = hash cfg (hd (get_token_key_parts cfg c)) in
      if mark = ''GR'' then ''rateLimit:'' @ mark @ '':'' @ hashed
      else if mark = ''CR''
      then ''rateLimit:'' @ mark @ '':'' @ hashed @ '':'' @ itoa (ctx_channel_id c)
      else ''rateLimit:'' @ mark @ '':'' @ client_ip c)"

definition memory_rate_limiter ::
  "rl_config \<Rightarrow> int \<Rightarrow> rl_request \<Rightarrow> int \<Rightarrow> int \<Rightarrow> string \<Rightarrow> limiter \<Rightarrow> (verdict \<times> limiter) option" where
  "memory_rate_limiter cfg now c maxRequestNum duration mark l =
     (let n = (if mark = ''CR'' then ctx_rate_limit c else maxRequestNum) in
      if mark = ''CR'' \<and> n \<le> 0 then Some (Next, l)
      else (case request now (rate_key cfg mark c) n duration l of
              None \<Rightarrow> None
            | Some (ok, l') \<Rightarrow> Some (if ok then Next else Abort 429, l')))"

text \<open>The factory: the limiter it may initialise, and the handler it returns.\<close>

definition rate_limit_factory ::
  "rl_config \<Rightarrow> int \<Rightarrow> int \<Rightarrow> string \<Rightarrow> limiter \<Rightarrow>
   limiter \<times> (int \<Rightarrow> rl_request \<Rightarrow> limiter \<Rightarrow> (verdict \<times> limiter) option)" where
  "rate_limit_factory cfg maxRequestNum duration mark l =
     (if maxRequestNum \<le> 0 \<or> debug_enabled cfg then (l, \<lambda>now c l. Some (Next, l))
      else (init_limiter (key_expiration cfg) l,
            \<lambda>now c l. memory_rate_limiter cfg now c maxRequestNum duration mark l))"

definition channel_rate_limit ::
  "rl_config \<Rightarrow> limiter \<Rightarrow>
   limiter \<times> (int \<Rightarrow> rl_request \<Rightarrow> limiter \<Rightarrow> (verdict \<times> limiter) option)" where
  "channel_rate_limit cfg l =
     rate_limit_factory cfg (if channel_limit_enabled cfg then 1 else 0)
       (channel_limit_duration cfg) ''CR'' l"

definition would_channel_rate_limit_block ::
  "rl_config \<Rightarrow> int \<Rightarrow> rl_request \<Rightarrow> int \<Rightarrow> int \<Rightarrow> limiter \<Rightarrow> (bool \<times> limiter) option" where
  "would_channel_rate_limit_block cfg now c channelID limit l =
     (if channelID \<le> 0 \<or> \<not> channel_limit_enabled cfg \<or> limit \<le> 0 then Some (False, l)
      else (let token = hd (get_token_key_parts cfg c) in
            if token = [] then Some (False, l)
            else (let key = ''rateLimit:'' @ ''CR'' @ '':'' @ hash cfg token @ '':'' @ itoa channelID;
                      l' = init_limiter (key_expiration cfg) l
                  in map_option (\<lambda>allowed. (\<not> allowed, l'))
                       (can_request now key limit (channel_limit_duration cfg) l'))))"

definition check_totp_rate_limit :: "rl_config \<Rightarrow> int \<Rightarrow> int \<Rightarrow> limiter \<Rightarrow> (bool \<times> limiter) option" where
  "check_totp_rate_limit cfg now userId l =
     (if debug_enabled cfg then Some (True, l)
      else request now (''rateLimit:TOTP:'' @ itoa userId) 1 1 (init_limiter (key_expiration cfg) l))"

text \<open>The distributor's look-ahead and the limiter that follows agree.\<close>

lemma look_ahead_agrees:
  assumes ok: "limiter_ok l" and "0 < ctx_rate_limit c" and "0 < ctx_channel_id c"
    and "hd (get_token_key_parts cfg c) \<noteq> []" and "channel_limit_enabled cfg"
  shows "\<exists>b l'. would_channel_rate_limit_block cfg now c (ctx_channel_id c) (ctx_rate_limit c) l =
             Some (b, l) \<and>
           memory_rate_limiter cfg now c 1 (channel_limit_duration cfg) ''CR'' l =
             Some (if b then Abort 429 else Next, l')"
proof -
  let ?k = "rate_key cfg ''CR'' c" and ?d = "channel_limit_duration cfg"
  have n: "0 \<le> ctx_rate_limit c" using assms(2) by simp
  from request_queue [OF ok n, of now ?k ?d] obtain l' where
    r: "request now ?k (ctx_rate_limit c) ?d l =
        Some (admits (ctx_rate_limit c) ?d now (queue_of l ?k), l')" by blast
  have "can_request now ?k (ctx_rate_limit c) ?d l =
      Some (admits (ctx_rate_limit c) ?d now (queue_of l ?k))"
    using ok n by (rule can_request_queue)
  then show ?thesis
    using assms r
    by (auto simp: would_channel_rate_limit_block_def memory_rate_limiter_def rate_key_def Let_def)
qed

text \<open>A configuration and a request for the examples below.\<close>

definition example_config :: rl_config where
  "example_config =
     \<lparr>hash = (\<lambda>s. s), token_key_prefix = ''sk-'', debug_enabled = False,
      key_expiration = 1200000000000, channel_limit_enabled = True, channel_limit_duration = 180\<rparr>"

definition example_request :: rl_request where
  "example_request =
     \<lparr>client_ip = ''::1'', h_authorization = ''Bearer sk-abc'', h_x_api_key = [],
      h_ws_protocol = [], ctx_rate_limit = 1, ctx_channel_id = 7\<rparr>"

subsection \<open>Properties\<close>

text \<open>
  C5. Sliding window: over any sequence of requests and pruning turns with a clock that does
  not go back, whatever the other keys do, no half-open window of the configured length sees
  more grants for a key than its limit, as long as idle keys are kept at least as long as a
  window lasts. The run never panics.
\<close>

theorem limiter_window:
  assumes "\<And>k. 0 < fst (lim k)" and "snd (lim k) \<le> expire div 10 ^ 9 + 1"
    and "sorted (map event_time es)"
  shows "\<exists>gs l'. run request clear_expired_items lim (init_limiter expire new_limiter) es =
      Some (gs, l') \<and>
    int (length (filter (\<lambda>t. a \<le> t \<and> t < a + snd (lim k)) (grants_of k gs))) \<le> fst (lim k)"
proof -
  let ?l = "init_limiter expire new_limiter"
  have e: "expiration_seconds ?l = expire div 10 ^ 9"
    by (simp add: expiration_seconds_def init_limiter_def new_limiter_def)
  have "\<exists>gs l'. run request clear_expired_items lim ?l es = Some (gs, l')"
    by (rule mem.run_total) (simp_all add: limiter_ok_init assms(1))
  then obtain gs l' where r: "run request clear_expired_items lim ?l es = Some (gs, l')" by blast
  with mem.window [OF limiter_ok_init queue_of_init assms(1) _ assms(3) r] assms(2) e
  show ?thesis by auto
qed

theorem limiter_window_witness:
  "\<exists>gs l'. run request clear_expired_items (\<lambda>k. (2, 60)) (init_limiter 1200000000000 new_limiter)
      [Req ''a'' 0, Req ''a'' 5, Prune 6, Req ''a'' 7, Req ''b'' 8, Req ''a'' 60] = Some (gs, l') \<and>
    int (length (filter (\<lambda>t. 1 \<le> t \<and> t < 1 + 60) (grants_of ''a'' gs))) \<le> 2"
  using limiter_window [of "\<lambda>k. (2, 60)" "''a''" 1200000000000
    "[Req ''a'' 0, Req ''a'' 5, Prune 6, Req ''a'' 7, Req ''b'' 8, Req ''a'' 60]" 1] by simp



end
