(* ===== verification/Auth.thy ===== *)
theory Auth
  imports Distributor Subnets RateLimit Store
begin

text \<open>
  Who may send a request (\<open>middleware/auth.go\<close>): \<open>TokenAuth\<close> with the validation of the token
  (\<open>model/token.go\<close>, \<open>model/cache.go\<close>) and the model of the request (\<open>getRequestModel\<close> in \<open>middleware/utils.go\<close>),
  and the session based \<open>authHelper\<close>. \<open>stmts\<close> says which statements and Redis calls succeed, by name. Times are
  nanoseconds. The text of the image validation message is shortened to its reason.
\<close>

subsection \<open>Tables and caches\<close>

record api_token = token_row +
  ak_id :: int
  ak_models :: "string option"
  ak_subnet :: "string option"

record auth_user =
  au_id :: int
  au_username :: string
  au_role :: int
  au_status :: int
  au_group :: string
  au_access_token :: string

record auth_store =
  as_tokens :: "api_token list"
  as_users :: "auth_user list"
  as_token_cache :: "string \<rightharpoonup> api_token \<times> int"
  as_user_cache :: "int \<rightharpoonup> auth_user \<times> int"
  as_banned :: "int list"                          \<comment> \<open>the blacklist, in memory only\<close>

record auth_config =
  an_redis :: bool
  an_token_ttl :: int
  an_user_ttl :: int
  an_rl :: rl_config
  an_route_mode :: string
  an_vision_fallback :: string

definition user_status_disabled :: int where "user_status_disabled = 2"
definition user_status_deleted :: int where "user_status_deleted = 3"
definition role_common_user :: int where "role_common_user = 1"
definition role_admin_user :: int where "role_admin_user = 10"
definition role_root_user :: int where "role_root_user = 100"

definition api_token_enabled :: int where "api_token_enabled = 1"
definition api_token_expired :: int where "api_token_expired = 3"
definition api_token_exhausted :: int where "api_token_exhausted = 4"

definition ban_user :: "int \<Rightarrow> auth_store \<Rightarrow> auth_store" where
  "ban_user uid st = st\<lparr>as_banned := List.insert uid (as_banned st)\<rparr>"

definition unban_user :: "int \<Rightarrow> auth_store \<Rightarrow> auth_store" where
  "unban_user uid st = st\<lparr>as_banned := removeAll uid (as_banned st)\<rparr>"

definition is_user_banned :: "int \<Rightarrow> auth_store \<Rightarrow> bool" where
  "is_user_banned uid st \<longleftrightarrow> uid \<in> set (as_banned st)"

text \<open>\<open>User.Delete\<close>; \<open>uuid\<close> is a new random id.\<close>

definition delete_user :: "outcomes \<Rightarrow> string \<Rightarrow> int \<Rightarrow> auth_store \<Rightarrow> bool \<times> auth_store" where
  "delete_user stmts uuid uid st =
     (if uid = 0 then (False, st)
      else
        let st = ban_user uid st in
        if stmts ''delete user''
        then (True, st\<lparr>as_users := map (\<lambda>u. if au_id u = uid
          then u\<lparr>au_username := ''deleted_'' @ uuid, au_status := user_status_deleted\<rparr> else u) (as_users st)\<rparr>)
        else (False, st))"

text \<open>A restart of the process, or another one, has an empty blacklist.\<close>

definition restart :: "auth_store \<Rightarrow> auth_store" where
  "restart st = st\<lparr>as_banned := []\<rparr>"

definition live_entry :: "int \<Rightarrow> ('a \<times> int) option \<Rightarrow> 'a option" where
  "live_entry now entry = (case entry of None \<Rightarrow> None | Some (v, e) \<Rightarrow> if now < e then Some v else None)"

definition token_from_database :: "outcomes \<Rightarrow> string \<Rightarrow> auth_store \<Rightarrow> string + api_token" where
  "token_from_database stmts key st =
     (if \<not> stmts ''token by key'' then Inl ''query failed''
      else (case find (\<lambda>t. t_key t = key) (as_tokens st) of None \<Rightarrow> Inl ''record not found'' | Some t \<Rightarrow> Inr t))"

definition cache_get_token_by_key ::
  "auth_config \<Rightarrow> outcomes \<Rightarrow> int \<Rightarrow> string \<Rightarrow> auth_store \<Rightarrow> (string + api_token) \<times> auth_store" where
  "cache_get_token_by_key cfg stmts now key st =
     (if \<not> an_redis cfg then (token_from_database stmts key st, st)
      else (case (if stmts ''redis get token'' then live_entry now (as_token_cache st key) else None) of
          Some t \<Rightarrow> (Inr t, st)
        | None \<Rightarrow>
            (case token_from_database stmts key st of
               Inl e \<Rightarrow> (Inl e, st)
             | Inr t \<Rightarrow>
                 (Inr t, if stmts ''redis set token''
                    then st\<lparr>as_token_cache := (as_token_cache st)(key \<mapsto> (t, now + an_token_ttl cfg))\<rparr> else st))))"

definition drop_token_cache :: "outcomes \<Rightarrow> string \<Rightarrow> auth_store \<Rightarrow> auth_store" where
  "drop_token_cache stmts key st =
     (if stmts ''redis del token'' then st\<lparr>as_token_cache := (as_token_cache st)(key := None)\<rparr> else st)"

text \<open>\<open>SelectUpdate\<close>, called with Redis switched off.\<close>

definition store_token_status :: "outcomes \<Rightarrow> int \<Rightarrow> int \<Rightarrow> auth_store \<Rightarrow> auth_store" where
  "store_token_status stmts tid status st =
     (if stmts ''update token''
      then st\<lparr>as_tokens := map (\<lambda>t. if ak_id t = tid then t\<lparr>t_status := status\<rparr> else t) (as_tokens st)\<rparr> else st)"

definition retire_token :: "auth_config \<Rightarrow> outcomes \<Rightarrow> api_token \<Rightarrow> int \<Rightarrow> auth_store \<Rightarrow> auth_store" where
  "retire_token cfg stmts t status st =
     (if an_redis cfg then drop_token_cache stmts (t_key t) st else store_token_status stmts (ak_id t) status st)"

definition validate_user_token ::
  "auth_config \<Rightarrow> outcomes \<Rightarrow> int \<Rightarrow> string \<Rightarrow> auth_store \<Rightarrow> (string + api_token) \<times> auth_store" where
  "validate_user_token cfg stmts now key st =
     (if key = [] then (Inl ''No token provided'', st)
      else (case cache_get_token_by_key cfg stmts now key st of
          (Inl e, st) \<Rightarrow>
            (Inl ((if e = ''record not found'' then ''token not found for key: '' else ''failed to get token by key: '') @ key), st)
        | (Inr t, st) \<Rightarrow>
            if t_status t = api_token_exhausted then (Inl ''quota has been exhausted'', st)
            else if t_status t = api_token_expired then (Inl ''has expired'', st)
            else if t_status t \<noteq> api_token_enabled then (Inl ''status is not available'', st)
            else if t_expired_time t \<noteq> -1 \<and> t_expired_time t < now div 10 ^ 9
            then (Inl ''has expired at timestamp'', retire_token cfg stmts t api_token_expired st)
            else if \<not> t_unlimited_quota t \<and> t_remain_quota t \<le> 0
            then (Inl ''quota has been used up'', retire_token cfg stmts t api_token_exhausted st)
            else (Inr t, st)))"

definition get_user_by_id :: "outcomes \<Rightarrow> int \<Rightarrow> auth_store \<Rightarrow> auth_user option" where
  "get_user_by_id stmts uid st =
     (if uid = 0 \<or> \<not> stmts ''user by id'' then None else find (\<lambda>u. au_id u = uid) (as_users st))"

definition cache_get_user_by_id ::
  "auth_config \<Rightarrow> outcomes \<Rightarrow> int \<Rightarrow> int \<Rightarrow> auth_store \<Rightarrow> auth_user option \<times> auth_store" where
  "cache_get_user_by_id cfg stmts now uid st =
     (if \<not> an_redis cfg then (get_user_by_id stmts uid st, st)
      else (case (if stmts ''redis get user'' then live_entry now (as_user_cache st uid) else None) of
          Some u \<Rightarrow> (Some u, st)
        | None \<Rightarrow>
            (case get_user_by_id stmts uid st of
               None \<Rightarrow> (None, st)
             | Some u \<Rightarrow>
                 (Some u, if stmts ''redis set user''
                    then st\<lparr>as_user_cache := (as_user_cache st)(uid \<mapsto> (u, now + an_user_ttl cfg))\<rparr> else st))))"

subsection \<open>Requests\<close>

text \<open>\<open>aq_body_model\<close> is the field \<open>model\<close> of the body, or the error of decoding it.\<close>

record auth_request =
  aq_path :: string
  aq_headers :: rl_request
  aq_query_model :: string
  aq_body_model :: "string + string"
  aq_json :: "json option"
  aq_param_model :: string
  aq_param_channel :: string

definition get_request_model :: "auth_request \<Rightarrow> string + string" where
  "get_request_model q =
     (if has_prefix (aq_path q) ''/v1/realtime'' then
        (if aq_query_model q = [] then Inl ''missing required query parameter: model'' else Inr (aq_query_model q))
      else (case aq_body_model q of
          Inl e \<Rightarrow> Inl e
        | Inr m \<Rightarrow>
            Inr (if m \<noteq> [] then m
              else if has_prefix (aq_path q) ''/v1/moderations'' then ''text-moderation-stable''
              else if has_suffix (aq_path q) ''embeddings'' then aq_param_model q
              else if has_prefix (aq_path q) ''/v1/images/generations'' \<or> has_prefix (aq_path q) ''/v1/images/edits''
              then ''dall-e-2''
              else if has_prefix (aq_path q) ''/v1/audio/transcriptions'' \<or> has_prefix (aq_path q) ''/v1/audio/translations''
              then ''whisper-1'' else [])))"

definition should_check_model :: "string \<Rightarrow> bool" where
  "should_check_model path \<longleftrightarrow>
     list_ex (has_prefix path) [''/v1/completions'', ''/v1/chat/completions'', ''/v1/realtime'', ''/v1/images'', ''/v1/audio'']"

subsection \<open>Tokens\<close>

record auth_context =
  ax_user :: auth_user
  ax_token :: api_token
  ax_request_model :: string
  ax_auto_routed :: string
  ax_available_models :: string
  ax_specific :: int

text \<open>The channel a request names: in its key, for administrators, or in its path.\<close>

definition specific_channel :: "auth_request \<Rightarrow> string list \<Rightarrow> auth_user \<Rightarrow> rejection + int" where
  "specific_channel q parts u =
     (case (if length parts > 1 then
          (if au_role u \<ge> role_admin_user
           then (case atoi (parts ! 1) of None \<Rightarrow> Inl (400, ''Invalid Channel Id: '' @ parts ! 1) | Some cid \<Rightarrow> Inr cid)
           else Inl (403, ''Ordinary users do not support specifying channels''))
          else Inr 0) of
        Inl e \<Rightarrow> Inl e
      | Inr cid \<Rightarrow>
          if aq_param_channel q \<noteq> [] then
            (case atoi (aq_param_channel q) of
               None \<Rightarrow> Inl (400, ''Invalid Channel Id: '' @ aq_param_channel q)
             | Some cid \<Rightarrow> Inr cid)
          else Inr cid)"

definition auto_routed_model :: "auth_config \<Rightarrow> auth_request \<Rightarrow> string \<Rightarrow> string" where
  "auto_routed_model cfg q request_model =
     (let fallback = trim_space (an_vision_fallback cfg) in
      if request_contains_image_input (aq_path q) (aq_json q) \<and> is_text_only_chat_model_name request_model \<and>
        an_route_mode cfg = ''fixed_fallback'' \<and> fallback \<noteq> [] \<and> \<not> equal_fold fallback request_model
      then fallback else [])"

text \<open>The restriction of a token to models, on the model of the request and the one it is routed to.\<close>

definition check_token_models :: "auth_config \<Rightarrow> auth_request \<Rightarrow> string \<Rightarrow> string \<Rightarrow> rejection option" where
  "check_token_models cfg q request_model models =
     (let routed = auto_routed_model cfg q request_model;
          effective = (if trim_space routed \<noteq> [] then trim_space routed else request_model) in
      if request_model \<noteq> [] \<and> \<not> is_model_in_list request_model models
      then Some (403, ''This API key does not have permission to use the model: '' @ request_model)
      else if effective \<noteq> [] \<and> \<not> is_model_in_list effective models then
        (if request_contains_image_input (aq_path q) (aq_json q) \<and> is_text_only_chat_model_name request_model \<and>
            trim_space routed \<noteq> []
         then Some (400, ''token model permission does not include auto-routed vision model: '' @ effective)
         else Some (403, ''This API key does not have permission to use the auto-routed model: '' @ effective))
      else None)"

text \<open>The token with its owner, then the request.\<close>

definition resolve_token ::
  "auth_config \<Rightarrow> outcomes \<Rightarrow> int \<Rightarrow> auth_request \<Rightarrow> auth_store \<Rightarrow> (rejection + api_token \<times> auth_user) \<times> auth_store" where
  "resolve_token cfg stmts now q st =
     (case validate_user_token cfg stmts now (hd (get_token_key_parts (an_rl cfg) (aq_headers q))) st of
        (Inl e, st) \<Rightarrow> (Inl (401, e), st)
      | (Inr t, st) \<Rightarrow>
          if ak_subnet t \<noteq> None \<and> the (ak_subnet t) \<noteq> [] \<and> \<not> is_ip_in_subnets (client_ip (aq_headers q)) (the (ak_subnet t))
          then (Inl (403, ''This API key can only be used in the specified subnet''), st)
          else (case cache_get_user_by_id cfg stmts now (t_user_id t) st of
              (None, st) \<Rightarrow> (Inl (500, ''failed to get user''), st)
            | (Some u, st) \<Rightarrow>
                if au_status u = user_status_disabled \<or> is_user_banned (au_id u) st
                then (Inl (403, ''User has been banned''), st)
                else (Inr (t, u), st)))"

definition admit_request :: "auth_config \<Rightarrow> auth_request \<Rightarrow> api_token \<Rightarrow> auth_user \<Rightarrow> rejection + auth_context" where
  "admit_request cfg q t u =
     (let parts = get_token_key_parts (an_rl cfg) (aq_headers q);
          model_or_error = get_request_model q;
          models = (case ak_models t of None \<Rightarrow> [] | Some ms \<Rightarrow> ms) in
      if isl model_or_error \<and> should_check_model (aq_path q) then Inl (400, projl model_or_error)
      else
        let m = (case model_or_error of Inl _ \<Rightarrow> [] | Inr m \<Rightarrow> m) in
        (case (if models = [] then None else check_token_models cfg q m models) of
           Some e \<Rightarrow> Inl e
         | None \<Rightarrow>
             (case specific_channel q parts u of
                Inl e \<Rightarrow> Inl e
              | Inr cid \<Rightarrow>
                  Inr \<lparr>ax_user = u, ax_token = t, ax_request_model = m, ax_auto_routed = auto_routed_model cfg q m,
                    ax_available_models = models, ax_specific = cid\<rparr>)))"

definition token_auth ::
  "auth_config \<Rightarrow> outcomes \<Rightarrow> int \<Rightarrow> auth_request \<Rightarrow> auth_store \<Rightarrow> (rejection + auth_context) \<times> auth_store" where
  "token_auth cfg stmts now q st =
     (case resolve_token cfg stmts now q st of
        (Inl e, st) \<Rightarrow> (Inl e, st)
      | (Inr (t, u), st) \<Rightarrow> (admit_request cfg q t u, st))"

subsection \<open>Sessions\<close>

text \<open>The identity of a session is the one stored at login, that of an access token is the current one.\<close>

record identity =
  idn_user :: "auth_user option"
  idn_username :: string
  idn_role :: int
  idn_id :: int
  idn_status :: int

definition validate_access_token :: "outcomes \<Rightarrow> string \<Rightarrow> auth_store \<Rightarrow> auth_user option" where
  "validate_access_token stmts header st =
     (let key = (case find (\<lambda>k. has_prefix (drop k header) ''Bearer '') [0..<length header] of
            None \<Rightarrow> header
          | Some k \<Rightarrow> take k header @ drop (k + 7) header) in
      if header = [] \<or> \<not> stmts ''user by access token'' then None
      else find (\<lambda>u. au_access_token u = key) (as_users st))"

definition resolve_identity :: "outcomes \<Rightarrow> identity option \<Rightarrow> string \<Rightarrow> auth_store \<Rightarrow> identity option" where
  "resolve_identity stmts session header st =
     (case session of
        Some i \<Rightarrow> Some i
      | None \<Rightarrow>
          if header = [] then None
          else (case validate_access_token stmts header st of
              None \<Rightarrow> None
            | Some u \<Rightarrow>
                if au_username u = [] then None
                else Some \<lparr>idn_user = Some u, idn_username = au_username u, idn_role = au_role u, idn_id = au_id u,
                  idn_status = au_status u\<rparr>))"

definition check_user_status :: "int \<Rightarrow> int \<Rightarrow> auth_store \<Rightarrow> string option" where
  "check_user_status uid status st =
     (if status = user_status_disabled \<or> is_user_banned uid st then Some ''User has been banned'' else None)"

definition auth_helper :: "outcomes \<Rightarrow> int \<Rightarrow> identity option \<Rightarrow> string \<Rightarrow> auth_store \<Rightarrow> rejection + identity" where
  "auth_helper stmts min_role session header st =
     (case resolve_identity stmts session header st of
        None \<Rightarrow> Inl (401, ''not logged in and no access token provided'')
      | Some i \<Rightarrow>
          (case check_user_status (idn_id i) (idn_status i) st of
             Some msg \<Rightarrow> Inl (403, msg)
           | None \<Rightarrow> if idn_role i < min_role then Inl (403, ''insufficient permissions'') else Inr i))"

definition optional_user_auth :: "outcomes \<Rightarrow> identity option \<Rightarrow> string \<Rightarrow> auth_store \<Rightarrow> identity option" where
  "optional_user_auth stmts session header st =
     (case resolve_identity stmts session header st of
        None \<Rightarrow> None
      | Some i \<Rightarrow> if check_user_status (idn_id i) (idn_status i) st = None then Some i else None)"

subsection \<open>What a token admits\<close>

lemma token_from_cache_or_table:
  assumes "cache_get_token_by_key cfg stmts now key st = (Inr t, st')"
  shows "t \<in> set (as_tokens st) \<and> t_key t = key \<or> (\<exists>e. as_token_cache st key = Some (t, e) \<and> now < e)"
  using assms by (auto simp: cache_get_token_by_key_def token_from_database_def live_entry_def find_Some_iff
    split: if_splits option.splits sum.splits prod.splits)

lemma validated_token:
  assumes "validate_user_token cfg stmts now key st = (Inr t, st')"
  shows "key \<noteq> [] \<and> t_status t = api_token_enabled \<and> (t_expired_time t = -1 \<or> now div 10 ^ 9 \<le> t_expired_time t) \<and>
    (t_unlimited_quota t \<or> t_remain_quota t > 0) \<and> cache_get_token_by_key cfg stmts now key st = (Inr t, st')"
  using assms by (auto simp: validate_user_token_def split: if_splits sum.splits prod.splits)

lemma resolved_token:
  assumes "resolve_token cfg stmts now q st = (Inr (t, u), st')"
  shows "\<exists>s1. validate_user_token cfg stmts now (hd (get_token_key_parts (an_rl cfg) (aq_headers q))) st = (Inr t, s1) \<and>
    cache_get_user_by_id cfg stmts now (t_user_id t) s1 = (Some u, st') \<and>
    au_status u \<noteq> user_status_disabled \<and> \<not> is_user_banned (au_id u) st' \<and>
    (ak_subnet t = None \<or> the (ak_subnet t) = [] \<or> is_ip_in_subnets (client_ip (aq_headers q)) (the (ak_subnet t)))"
  using assms by (auto simp: resolve_token_def split: sum.splits prod.splits if_splits option.splits)

lemma admitted_request:
  assumes "admit_request cfg q t u = Inr ax"
  shows "ax_token ax = t \<and> ax_user ax = u \<and>
    ax_available_models ax = (case ak_models t of None \<Rightarrow> [] | Some ms \<Rightarrow> ms) \<and>
    (ax_available_models ax \<noteq> [] \<longrightarrow> check_token_models cfg q (ax_request_model ax) (ax_available_models ax) = None) \<and>
    ax_auto_routed ax = auto_routed_model cfg q (ax_request_model ax) \<and>
    specific_channel q (get_token_key_parts (an_rl cfg) (aq_headers q)) u = Inr (ax_specific ax)"
proof -
  define models where "models = (case ak_models t of None \<Rightarrow> [] | Some ms \<Rightarrow> ms)"
  define m where "m = (case get_request_model q of Inl _ \<Rightarrow> [] | Inr m \<Rightarrow> m)"
  have "(if models = [] then None else check_token_models cfg q m models) = None"
    "\<exists>cid. specific_channel q (get_token_key_parts (an_rl cfg) (aq_headers q)) u = Inr cid \<and>
      ax = \<lparr>ax_user = u, ax_token = t, ax_request_model = m, ax_auto_routed = auto_routed_model cfg q m,
        ax_available_models = models, ax_specific = cid\<rparr>"
    using assms unfolding admit_request_def Let_def models_def [symmetric] m_def [symmetric]
    by (simp_all split: if_split_asm option.split_asm sum.split_asm)
  then show ?thesis by (auto simp: models_def [symmetric] split: if_splits)
qed

lemma admitted:
  assumes "token_auth cfg stmts now q st = (Inr ax, st')"
  shows "resolve_token cfg stmts now q st = (Inr (ax_token ax, ax_user ax), st')"
    and "admit_request cfg q (ax_token ax) (ax_user ax) = Inr ax"
  using assms admitted_request by (auto simp: token_auth_def split: sum.splits prod.splits)

subsection \<open>The models of a restricted token\<close>

text \<open>The request of an admitted token as the distributor sees it; \<open>cached_group\<close> is used where the user has no group.\<close>

definition to_dist_request :: "auth_request \<Rightarrow> auth_context \<Rightarrow> string \<Rightarrow> dist_request \<Rightarrow> dist_request" where
  "to_dist_request q ax cached_group r = r\<lparr>
     dr_user_id := au_id (ax_user ax),
     dr_group := (if au_group (ax_user ax) = [] then cached_group else au_group (ax_user ax)),
     dr_path := aq_path q, dr_request_model := ax_request_model ax, dr_auto_routed_model := ax_auto_routed ax,
     dr_specific_channel_id := ax_specific ax, dr_available_models := ax_available_models ax,
     dr_query_model := aq_query_model q, dr_body := aq_json q\<rparr>"

definition allowed_model :: "string \<Rightarrow> string \<Rightarrow> bool" where
  "allowed_model models m \<longleftrightarrow> m = [] \<or> is_model_in_list m models"

lemma checked_models:
  assumes "check_token_models cfg q m models = None"
  shows "allowed_model models m \<and> allowed_model models (trim_space (auto_routed_model cfg q m))"
  using assms by (auto simp: check_token_models_def allowed_model_def Let_def split: if_splits)

lemma blank_list: "trim_space models = [] \<Longrightarrow> is_model_in_list m models \<Longrightarrow> trim_space m = []"
proof -
  assume t: "trim_space models = []" and m: "is_model_in_list m models"
  have "\<forall>c \<in> set models. is_space c"
  proof (rule ccontr)
    assume "\<not> (\<forall>c \<in> set models. is_space c)"
    then have "dropWhile is_space models \<noteq> []" by (simp add: dropWhile_eq_Nil_conv)
    moreover from this have "\<exists>c \<in> set (dropWhile is_space models). \<not> is_space c"
      using hd_dropWhile [of is_space models] hd_in_set by blast
    ultimately show False using t by (auto simp: trim_space_def dropWhile_eq_Nil_conv)
  qed
  then have "CHR '','' \<notin> set models" using comma_no_space by blast
  then have "m = models" using m by (simp add: is_model_in_list_def split_comma_def split_on_notin)
  with t show "trim_space m = []" by simp
qed

lemma find_holds: "find P xs = Some x \<Longrightarrow> P x"
  by (induction xs) (auto split: if_splits)

lemma vision_model_allowed:
  assumes "first_vision_model_for_channel c models \<noteq> []" "trim_space models \<noteq> []"
  shows "is_model_in_list (first_vision_model_for_channel c models) models"
proof -
  obtain vs where f: "first_vision_model_for_channel c models =
      (case find (\<lambda>m. m \<noteq> [] \<and> supports_model c m \<and> (trim_space models = [] \<or> is_model_in_list m models)) (map trim_space vs) of
         None \<Rightarrow> [] | Some m \<Rightarrow> m)"
    by (simp add: first_vision_model_for_channel_def Let_def)
  then obtain m where m: "find (\<lambda>m. m \<noteq> [] \<and> supports_model c m \<and> (trim_space models = [] \<or> is_model_in_list m models))
      (map trim_space vs) = Some m" "first_vision_model_for_channel c models = m"
    using assms(1) by (auto split: option.splits)
  from find_holds [OF m(1)] m(2) assms(2) show ?thesis by simp
qed

lemma capability_model_allowed:
  assumes "select_capability_based_vision_model mo g mode models \<noteq> []" "trim_space models \<noteq> []"
  shows "is_model_in_list (select_capability_based_vision_model mo g mode models) models"
proof -
  obtain m cs where m: "select_capability_based_vision_model mo g mode models = m"
    "m \<in> set (map (\<lambda>c. first_vision_model_for_channel c models) cs)" "m \<noteq> []"
  proof -
    obtain cs where cs: "get_all_enabled_channels mo = Some cs"
      using assms(1) by (auto simp: select_capability_based_vision_model_def split: option.splits)
    let ?cs = "filter (\<lambda>c. channel_supports_group c g \<and> channel_supports_endpoint c mode) (by_priority cs)"
    obtain m where f: "find (\<lambda>m. m \<noteq> []) (map (\<lambda>c. first_vision_model_for_channel c models) ?cs) = Some m"
      using assms(1) cs by (auto simp: select_capability_based_vision_model_def split: option.splits)
    have "m \<in> set (map (\<lambda>c. first_vision_model_for_channel c models) ?cs)" using find_mem [OF f] .
    moreover have "select_capability_based_vision_model mo g mode models = m"
      using cs f by (simp add: select_capability_based_vision_model_def)
    ultimately show thesis using that assms(1) by blast
  qed
  then obtain c where "m = first_vision_model_for_channel c models" by auto
  with m vision_model_allowed assms(2) show ?thesis by auto
qed

text \<open>What the phases of the distributor keep: the routed model is allowed.\<close>

definition stays_allowed :: "string \<Rightarrow> route \<Rightarrow> bool" where
  "stays_allowed models rt \<longleftrightarrow> allowed_model models (rt_auto rt) \<and> allowed_model models (rt_model rt)"

lemma routing_model_allowed:
  assumes "routing_model cfg r vision sel rt = Some rt'" "stays_allowed models rt"
    and "allowed_model models (dr_request_model r)"
    and "vision \<noteq> [] \<Longrightarrow> trim_space models \<noteq> [] \<Longrightarrow> is_model_in_list vision models"
  shows "stays_allowed models rt'"
proof -
  have "trim_space models \<noteq> []" if "is_text_only_chat_model_name (dr_request_model r)"
  proof
    assume "trim_space models = []"
    with blank_list assms(3) have "trim_space (dr_request_model r) = []" by (auto simp: allowed_model_def)
    with that show False by (simp add: is_text_only_chat_model_name_def Let_def to_lower_def)
  qed
  with assms show ?thesis
    by (auto simp: routing_model_def stays_allowed_def allowed_model_def split: if_splits)
qed

lemma route_specific_allowed:
  assumes "route_specific cfg r mode mo cid bound rt = Inr rt'" "stays_allowed (dr_available_models r) rt"
    and "allowed_model (dr_available_models r) (dr_request_model r)"
  shows "stays_allowed (dr_available_models r) rt'"
proof -
  from assms(1) obtain c rt1 where
    m: "routing_model cfg r (first_vision_model_for_channel c (dr_available_models r))
        ''specific_channel_capability_vision_autoroute''
        (rt\<lparr>rt_selected_by := (if bound then ''response_binding'' else ''specific_channel'')\<rparr>) = Some rt1"
    and e: "rt' = rt1\<lparr>rt_channel := None, rt_specific := 0\<rparr> \<or> rt' = rt1\<lparr>rt_channel := Some c\<rparr>"
    by (auto simp: route_specific_def Let_def split: option.splits if_splits)
  have "stays_allowed (dr_available_models r) rt1"
    by (rule routing_model_allowed [OF m]) (use assms(2,3) vision_model_allowed in \<open>auto simp: stays_allowed_def\<close>)
  with e show ?thesis by (auto simp: stays_allowed_def)
qed

lemma route_automatic_allowed:
  assumes "route_automatic cfg r mode mos fuel rt sk = Some (Inr rt', i, sk')" "stays_allowed (dr_available_models r) rt"
    and "allowed_model (dr_available_models r) (dr_request_model r)"
  shows "allowed_model (dr_available_models r) (rt_model rt') \<or>
    is_response_api_web_socket_handshake r mode \<and> dr_request_model r = [] \<and> rt_model rt' = trim_space (dr_query_model r)"
proof -
  from assms(1) obtain rt1 where m: "routing_model cfg r (select_capability_based_vision_model (mos 1) (dr_group r) mode (dr_available_models r))
      ''capability_vision_autoroute'' rt = Some rt1"
    by (auto simp: route_automatic_def split: option.splits)
  have a: "stays_allowed (dr_available_models r) rt1"
    by (rule routing_model_allowed [OF m assms(2,3)]) (rule capability_model_allowed)
  have empty: "rt_model rt1 = [] \<Longrightarrow> dr_request_model r = []"
    using m by (auto simp: routing_model_def split: if_splits)
  obtain rt2 sk2 where s: "sticky_channel cfg r (mos 2) rt1 sk = (rt2, sk2)" by (cases "sticky_channel cfg r (mos 2) rt1 sk")
  from sticky_channel_route [OF s] have m2: "rt_model rt2 = rt_model rt1" by auto
  have "rt_model rt' = rt_model (hint_model r mode rt2)"
    using assms(1) m s by (auto simp: route_automatic_def Let_def split: option.splits prod.splits if_splits)
  then show ?thesis using a empty m2 by (auto simp: hint_model_def Let_def stays_allowed_def split: if_splits)
qed

text \<open>
  C38. C. A request with a restricted token is only routed by a model of the token's list: by the one it asks for, by the
  fallback for images, or by the vision model chosen for it. The exception is a request without a model: a websocket
  handshake is routed by the model of its query, which is not checked.
\<close>

theorem restricted_token_keeps_its_models:
  assumes "token_auth cfg stmts now q st = (Inr ax, st')" and "ax_available_models ax \<noteq> []"
    and "distribute dcfg group_ratio (to_dist_request q ax g r) mos fuel cx sk = Some (Inr (rt, cx'), sk')"
  shows "is_model_in_list (rt_model rt) (ax_available_models ax) \<or> rt_model rt = [] \<or>
    ax_request_model ax = [] \<and> rt_model rt = trim_space (aq_query_model q) \<and>
    is_response_api_web_socket_handshake (to_dist_request q ax g r) (get_by_path (aq_path q))"
proof -
  let ?r = "to_dist_request q ax g r" and ?mode = "get_by_path (aq_path q)" and ?models = "ax_available_models ax"
  have r: "dr_available_models ?r = ?models" "dr_request_model ?r = ax_request_model ax" "dr_path ?r = aq_path q"
    "dr_auto_routed_model ?r = ax_auto_routed ax" "dr_query_model ?r = aq_query_model q"
    by (simp_all add: to_dist_request_def)
  have c: "check_token_models cfg q (ax_request_model ax) ?models = None" "ax_auto_routed ax = auto_routed_model cfg q (ax_request_model ax)"
    using admitted_request [OF admitted(2) [OF assms(1)]] assms(2) by blast+
  then have m: "allowed_model ?models (ax_request_model ax)" "allowed_model ?models (trim_space (ax_auto_routed ax))"
    using checked_models by auto
  then have init: "stays_allowed ?models (initial_route ?r cid)" for cid
    by (simp add: stays_allowed_def initial_route_def allowed_model_def r)
  obtain cid bound sk1 where res: "resolve_channel dcfg ?r (mo_now (mos 0)) sk = ((cid, bound), sk1)"
    by (metis prod.exhaust)
  define first where "first = (if cid \<noteq> 0 then route_specific dcfg ?r ?mode (mos 0) cid bound (initial_route ?r cid) else Inr (initial_route ?r cid))"
  from assms(3) res obtain rt1 where f: "first = Inr rt1"
    by (cases first) (auto simp: distribute_def Let_def r first_def [symmetric])
  have f1: "stays_allowed ?models rt1"
    using f init route_specific_allowed [of dcfg ?r ?mode "mos 0" cid bound "initial_route ?r cid" rt1] m(1)
    by (auto simp: first_def r split: if_splits)
  obtain rt2 i sk2 c where n: "(if rt_channel rt1 = None then route_automatic dcfg ?r ?mode mos fuel rt1 sk1 else Some (Inr rt1, 1, sk1)) =
      Some (Inr rt2, i, sk2)" and fin: "finish_routing dcfg group_ratio ?r (mos i) c rt2 cx sk2 = (Inr (rt, cx'), sk')"
    using assms(3) res f by (auto simp: distribute_def Let_def r first_def [symmetric] split: option.splits sum.splits prod.splits)
  have "rt = rt2" using fin by (auto simp: finish_routing_def Let_def split: if_splits)
  moreover have "allowed_model ?models (rt_model rt2) \<or>
      is_response_api_web_socket_handshake ?r ?mode \<and> ax_request_model ax = [] \<and> rt_model rt2 = trim_space (aq_query_model q)"
    using n f1 m(1) route_automatic_allowed [of dcfg ?r ?mode mos fuel rt1 sk1 rt2 i sk2]
    by (auto simp: r stays_allowed_def split: if_splits)
  ultimately show ?thesis by (auto simp: allowed_model_def)
qed

subsection \<open>Examples\<close>

definition restricted_token :: api_token where
  "restricted_token = \<lparr>t_user_id = 7, t_key = ''k1'', t_name = ''t'', t_status = 1, t_expired_time = -1, t_remain_quota = 5,
     t_unlimited_quota = False, t_used_quota = 0, t_accessed_time = 0, ak_id = 3, ak_models = Some ''m'',
     ak_subnet = Some ''10.0.0.0/8''\<rparr>"

definition example_owner :: auth_user where
  "example_owner = \<lparr>au_id = 7, au_username = ''u'', au_role = role_common_user, au_status = 1, au_group = ''vip'',
     au_access_token = ''at''\<rparr>"

definition example_auth_store :: auth_store where
  "example_auth_store = \<lparr>as_tokens = [restricted_token], as_users = [example_owner], as_token_cache = Map.empty,
     as_user_cache = Map.empty, as_banned = []\<rparr>"

definition example_auth_config :: auth_config where
  "example_auth_config = \<lparr>an_redis = False, an_token_ttl = 0, an_user_ttl = 0,
     an_rl = example_config\<lparr>token_key_prefix := ''sk-''\<rparr>, an_route_mode = ''fixed_fallback'', an_vision_fallback = ''gpt-4o''\<rparr>"

definition example_auth_request :: auth_request where
  "example_auth_request = \<lparr>aq_path = ''/v1/chat/completions'',
     aq_headers = \<lparr>client_ip = ''10.1.2.3'', h_authorization = ''Bearer sk-k1'', h_x_api_key = [], h_ws_protocol = [],
       ctx_rate_limit = 0, ctx_channel_id = 0\<rparr>,
     aq_query_model = [], aq_body_model = Inr ''m'', aq_json = None, aq_param_model = [], aq_param_channel = []\<rparr>"

text \<open>The admission in short: the user, the model and the channel, or the status of the rejection.\<close>

definition admission :: "auth_request \<Rightarrow> auth_store \<Rightarrow> int + int \<times> string \<times> int" where
  "admission q st = (case fst (token_auth example_auth_config all_succeed 0 q st) of
     Inl e \<Rightarrow> Inl (fst e)
   | Inr ax \<Rightarrow> Inr (au_id (ax_user ax), ax_request_model ax, ax_specific ax))"

lemma admission_examples:
  "admission example_auth_request example_auth_store = Inr (7, ''m'', 0)"
  "admission (example_auth_request\<lparr>aq_body_model := Inr ''n''\<rparr>) example_auth_store = Inl 403"
  "admission (example_auth_request\<lparr>aq_headers := (aq_headers example_auth_request)\<lparr>client_ip := ''11.1.2.3''\<rparr>\<rparr>) example_auth_store = Inl 403"
  "admission (example_auth_request\<lparr>aq_headers := (aq_headers example_auth_request)\<lparr>h_authorization := ''Bearer sk-k1-2''\<rparr>\<rparr>)
     example_auth_store = Inl 403"
  by code_simp+

text \<open>The same request through the distributor.\<close>

definition admitted_context :: auth_context where
  "admitted_context = projr (fst (token_auth example_auth_config all_succeed 0 example_auth_request example_auth_store))"

lemma admitted_example:
  "\<exists>st'. token_auth example_auth_config all_succeed 0 example_auth_request example_auth_store = (Inr admitted_context, st')"
proof -
  have "\<not> isl (fst (token_auth example_auth_config all_succeed 0 example_auth_request example_auth_store))"
    using admission_examples(1) by (auto simp: admission_def split: sum.splits)
  then show ?thesis by (metis admitted_context_def prod.collapse sum.collapse(2))
qed

definition routed_model :: "((rejection + route \<times> relay_context) \<times> sticky_store) option \<Rightarrow> string option" where
  "routed_model d = Option.bind d (\<lambda>(res, sk). case res of Inl e \<Rightarrow> None | Inr (rt, cx) \<Rightarrow> Some (rt_model rt))"

definition run_admitted :: "auth_request \<Rightarrow> auth_context \<Rightarrow> ((rejection + route \<times> relay_context) \<times> sticky_store) option" where
  "run_admitted q ax = run_example (to_dist_request q ax [] example_dist_request) empty_sticky"

lemma routed_model_Some: "routed_model d = Some m \<Longrightarrow> \<exists>rt cx sk. d = Some (Inr (rt, cx), sk) \<and> rt_model rt = m"
  by (cases d) (auto simp: routed_model_def split: sum.splits)

theorem restricted_token_keeps_its_models_witness:
  "\<exists>rt cx' sk'. run_admitted example_auth_request admitted_context = Some (Inr (rt, cx'), sk') \<and>
     (is_model_in_list (rt_model rt) ''m'' \<or> rt_model rt = [])"
proof -
  obtain st' where a: "token_auth example_auth_config all_succeed 0 example_auth_request example_auth_store = (Inr admitted_context, st')"
    using admitted_example by blast
  have "routed_model (run_admitted example_auth_request admitted_context) = Some ''m''" by code_simp
  from routed_model_Some [OF this] obtain rt cx' sk' where
    r: "run_admitted example_auth_request admitted_context = Some (Inr (rt, cx'), sk')" by blast
  have m: "ax_available_models admitted_context = ''m''" by code_simp
  then have "ax_available_models admitted_context \<noteq> []" by simp
  moreover have "ax_request_model admitted_context \<noteq> []" by code_simp
  ultimately show ?thesis
    using restricted_token_keeps_its_models [OF a _ r [unfolded run_admitted_def run_example_def]] r m by auto
qed

text \<open>The exception: with a token for the model "x" a handshake is routed by the model "m" of its query.\<close>

lemma handshake_leaves_model_list:
  "let st = example_auth_store\<lparr>as_tokens := [restricted_token\<lparr>ak_models := Some ''x''\<rparr>]\<rparr>;
       q = example_auth_request\<lparr>aq_path := ''/v1/responses'', aq_body_model := Inl ''EOF'', aq_query_model := ''m''\<rparr>;
       ax = projr (fst (token_auth example_auth_config all_succeed 0 q st)) in
   admission q st = Inr (7, [], 0) \<and> ax_available_models ax = ''x'' \<and>
   routed_model (run_example (to_dist_request q ax [] (example_dist_request\<lparr>dr_method := ''GET'', dr_upgrade := True\<rparr>)) empty_sticky) =
     Some ''m'' \<and> admission (example_auth_request\<lparr>aq_body_model := Inr ''m''\<rparr>) st = Inl 403"
  by code_simp

text \<open>
  A deleted user is only kept out by the blacklist: after a restart the token of the user works again, for it is
  compared with the disabled status alone.
\<close>

lemma deleted_user_returns:
  "let st = snd (delete_user all_succeed ''x'' 7 example_auth_store) in
   admission example_auth_request st = Inl 403 \<and> admission example_auth_request (restart st) = Inr (7, ''m'', 0)"
  by code_simp

text \<open>A user who is no administrator may not name a channel in the key, but may in the path.\<close>

lemma path_names_channel:
  "admission (example_auth_request\<lparr>aq_param_channel := ''2''\<rparr>) example_auth_store = Inr (7, ''m'', 2)"
  by code_simp

text \<open>The role and the status of a session are those of the login.\<close>

lemma session_keeps_role:
  assumes "\<not> is_user_banned (idn_id i) st" "idn_status i = 1" "idn_role i = role_root_user"
  shows "auth_helper stmts role_root_user (Some i) header st = Inr i"
  using assms by (simp add: auth_helper_def resolve_identity_def check_user_status_def user_status_disabled_def)

text \<open>What holds of every admitted request.\<close>

lemma admitted_token_valid:
  assumes "token_auth cfg stmts now q st = (Inr ax, st')"
  shows "t_status (ax_token ax) = api_token_enabled \<and>
    (t_expired_time (ax_token ax) = -1 \<or> now div 10 ^ 9 \<le> t_expired_time (ax_token ax)) \<and>
    (t_unlimited_quota (ax_token ax) \<or> t_remain_quota (ax_token ax) > 0) \<and>
    au_status (ax_user ax) \<noteq> user_status_disabled \<and> \<not> is_user_banned (au_id (ax_user ax)) st' \<and>
    (\<forall>s. ak_subnet (ax_token ax) = Some s \<longrightarrow> s = [] \<or> is_ip_in_subnets (client_ip (aq_headers q)) s) \<and>
    (length (get_token_key_parts (an_rl cfg) (aq_headers q)) > 1 \<longrightarrow> au_role (ax_user ax) \<ge> role_admin_user)"
proof -
  from resolved_token [OF admitted(1) [OF assms]] obtain s1 where
    v: "validate_user_token cfg stmts now (hd (get_token_key_parts (an_rl cfg) (aq_headers q))) st = (Inr (ax_token ax), s1)"
    and u: "au_status (ax_user ax) \<noteq> user_status_disabled" "\<not> is_user_banned (au_id (ax_user ax)) st'"
    and n: "ak_subnet (ax_token ax) = None \<or> the (ak_subnet (ax_token ax)) = [] \<or>
      is_ip_in_subnets (client_ip (aq_headers q)) (the (ak_subnet (ax_token ax)))" by blast
  have "specific_channel q (get_token_key_parts (an_rl cfg) (aq_headers q)) (ax_user ax) = Inr (ax_specific ax)"
    using admitted_request [OF admitted(2) [OF assms]] by simp
  then have "length (get_token_key_parts (an_rl cfg) (aq_headers q)) > 1 \<longrightarrow> au_role (ax_user ax) \<ge> role_admin_user"
    by (auto simp: specific_channel_def split: if_splits)
  with validated_token [OF v] u n show ?thesis by auto
qed

end
