(* ===== verification/RedisLimit.thy ===== *)
theory RedisLimit
  imports RateLimit
begin

text \<open>
  The Redis branch of \<open>middleware/rate-limit.go\<close>: \<open>redisRateLimiter\<close>,
  \<open>WouldChannelRateLimitBlock\<close> and \<open>checkRedisRateLimit\<close>.

  A Redis list holds the time stamps of a key's grants, newest first. A stamp is what
  \<open>time.Now().Format(timeFormat)\<close> writes: the wall-clock time of the server's zone in
  milliseconds with a literal \<open>Z\<close>, so that \<open>time.Parse\<close> reads the same digits back as a UTC
  time. \<open>tz\<close> is the zone's offset and \<open>now\<close> the instant, both in nanoseconds. A key whose
  time to live is over is gone. \<open>fails\<close> says which of the next Redis calls report an error;
  the code checks the reads and ignores the result of the writes.
\<close>

record redis =
  lists :: "string \<rightharpoonup> int list \<times> int option"   \<comment> \<open>stamps and the instant the key expires\<close>
  fails :: "bool list"

definition rcall :: "redis \<Rightarrow> bool \<times> redis" where
  "rcall r = (case fails r of [] \<Rightarrow> (True, r) | f # fs \<Rightarrow> (\<not> f, r\<lparr>fails := fs\<rparr>))"

definition live :: "int \<Rightarrow> redis \<Rightarrow> string \<Rightarrow> (int list \<times> int option) option" where
  "live now r k =
     (case lists r k of
        None \<Rightarrow> None
      | Some (xs, None) \<Rightarrow> Some (xs, None)
      | Some (xs, Some e) \<Rightarrow> if now < e then Some (xs, Some e) else None)"

definition stamps :: "int \<Rightarrow> redis \<Rightarrow> string \<Rightarrow> int list" where
  "stamps now r k = (case live now r k of None \<Rightarrow> [] | Some (xs, _) \<Rightarrow> xs)"

definition llen :: "int \<Rightarrow> string \<Rightarrow> redis \<Rightarrow> int option \<times> redis" where
  "llen now k r = (case rcall r of
     (ok, r') \<Rightarrow> (if ok then Some (int (length (stamps now r k))) else None, r'))"

definition lindex_last :: "int \<Rightarrow> string \<Rightarrow> redis \<Rightarrow> int option \<times> redis" where
  "lindex_last now k r = (case rcall r of
     (ok, r') \<Rightarrow> (if ok \<and> stamps now r k \<noteq> [] then Some (last (stamps now r k)) else None, r'))"

definition rwrite :: "(redis \<Rightarrow> redis) \<Rightarrow> redis \<Rightarrow> redis" where
  "rwrite f r = (case rcall r of (ok, r') \<Rightarrow> if ok then f r' else r')"

definition lpush :: "int \<Rightarrow> string \<Rightarrow> int \<Rightarrow> redis \<Rightarrow> redis" where
  "lpush now k x = rwrite (\<lambda>r. r\<lparr>lists := (lists r)(k \<mapsto>
     (case live now r k of None \<Rightarrow> ([x], None) | Some (xs, e) \<Rightarrow> (x # xs, e)))\<rparr>)"

definition ltrim :: "int \<Rightarrow> string \<Rightarrow> int \<Rightarrow> redis \<Rightarrow> redis" where
  "ltrim now k stop = rwrite (\<lambda>r. case live now r k of
       None \<Rightarrow> r
     | Some (xs, e) \<Rightarrow>
         let ys = take (nat ((if stop < 0 then int (length xs) + stop else stop) + 1)) xs in
         r\<lparr>lists := (lists r)(k := if ys = [] then None else Some (ys, e))\<rparr>)"

definition expire_in :: "int \<Rightarrow> string \<Rightarrow> int \<Rightarrow> redis \<Rightarrow> redis" where
  "expire_in now k d = rwrite (\<lambda>r. case live now r k of
       None \<Rightarrow> r
     | Some (xs, _) \<Rightarrow> r\<lparr>lists := (lists r)(k \<mapsto> (xs, Some (now + d)))\<rparr>)"

text \<open>\<open>Format(timeFormat)\<close>, \<open>Parse\<close> back to nanoseconds, and \<open>int64(d.Seconds())\<close>.\<close>

definition wall_ms :: "int \<Rightarrow> int \<Rightarrow> int" where
  "wall_ms tz now = (now + tz) div 10 ^ 6"

definition parsed :: "int \<Rightarrow> int" where
  "parsed ms = ms * 10 ^ 6"

definition whole_seconds :: "int \<Rightarrow> int" where
  "whole_seconds d = (if d < 0 then - ((- d) div 10 ^ 9) else d div 10 ^ 9)"

definition redis_rate_limiter ::
  "rl_config \<Rightarrow> int \<Rightarrow> int \<Rightarrow> rl_request \<Rightarrow> int \<Rightarrow> int \<Rightarrow> string \<Rightarrow> redis \<Rightarrow> verdict \<times> redis" where
  "redis_rate_limiter cfg tz now c maxRequestNum duration mark r =
     (let n = (if mark = ''CR'' then ctx_rate_limit c else maxRequestNum);
          key = rate_key cfg mark c;
          touch = expire_in now key (key_expiration cfg);
          push = lpush now key (wall_ms tz now)
      in if mark = ''CR'' \<and> n \<le> 0 then (Next, r)
      else case llen now key r of
        (None, r) \<Rightarrow> (Abort 500, r)
      | (Some listLength, r) \<Rightarrow>
          if listLength < n then (Next, touch (push r))
          else (case lindex_last now key r of
              (None, r) \<Rightarrow> (Abort 500, r)
            | (Some oldTime, r) \<Rightarrow>
                if whole_seconds (parsed (wall_ms tz now) - parsed oldTime) < duration
                then (Abort 429, touch r)
                else (Next, touch (ltrim now key (n - 1) (push r)))))"

text \<open>\<open>Inr\<close> is whether the request counts as limited, \<open>Inl\<close> an error.\<close>

definition would_channel_block_redis ::
  "rl_config \<Rightarrow> int \<Rightarrow> rl_request \<Rightarrow> int \<Rightarrow> int \<Rightarrow> redis \<Rightarrow> (unit + bool) \<times> redis" where
  "would_channel_block_redis cfg now c channelID limit r =
     (if channelID \<le> 0 \<or> \<not> channel_limit_enabled cfg \<or> limit \<le> 0 then (Inr False, r)
      else if hd (get_token_key_parts cfg c) = [] then (Inr False, r)
      else let key = ''rateLimit:'' @ ''CR'' @ '':'' @ hash cfg (hd (get_token_key_parts cfg c)) @
                 '':'' @ itoa channelID
      in case llen now key r of
        (None, r) \<Rightarrow> (Inl (), r)
      | (Some listLength, r) \<Rightarrow>
          if listLength < limit then (Inr False, r)
          else (case lindex_last now key r of
              (None, r) \<Rightarrow> (Inl (), r)
            | (Some oldTime, r) \<Rightarrow>
                (Inr (whole_seconds (now - parsed oldTime) < channel_limit_duration cfg), r)))"

definition check_redis_rate_limit ::
  "rl_config \<Rightarrow> int \<Rightarrow> int \<Rightarrow> string \<Rightarrow> int \<Rightarrow> int \<Rightarrow> redis \<Rightarrow> bool \<times> redis" where
  "check_redis_rate_limit cfg tz now key maxRequestNum duration r =
     (let touch = expire_in now key (key_expiration cfg);
          push = lpush now key (wall_ms tz now)
      in case llen now key r of
        (None, r) \<Rightarrow> (True, r)
      | (Some listLength, r) \<Rightarrow>
          if listLength < maxRequestNum then (True, touch (push r))
          else (case lindex_last now key r of
              (None, r) \<Rightarrow> (True, r)
            | (Some oldTime, r) \<Rightarrow>
                if whole_seconds (now - parsed oldTime) < duration then (False, touch r)
                else (True, touch (ltrim now key (maxRequestNum - 1) (push r)))))"

definition totp_key :: "int \<Rightarrow> string" where
  "totp_key userId = ''rateLimit:TOTP:'' @ itoa userId"

definition check_totp_redis :: "rl_config \<Rightarrow> int \<Rightarrow> int \<Rightarrow> int \<Rightarrow> redis \<Rightarrow> bool \<times> redis" where
  "check_totp_redis cfg tz now userId r =
     (if debug_enabled cfg then (True, r)
      else check_redis_rate_limit cfg tz now (totp_key userId) 1 1 r)"

subsection \<open>With Redis answering\<close>

definition up :: "redis \<Rightarrow> bool" where
  "up r \<longleftrightarrow> fails r = []"

lemma up_reads:
  "up r \<Longrightarrow> llen now k r = (Some (int (length (stamps now r k))), r)"
  "up r \<Longrightarrow> stamps now r k \<noteq> [] \<Longrightarrow> lindex_last now k r = (Some (last (stamps now r k)), r)"
  by (simp_all add: up_def rcall_def llen_def lindex_last_def)

lemma up_writes:
  assumes "up r"
  shows "up (lpush now k x r)" and "up (ltrim now k n r)" and "up (expire_in now k d r)"
  using assms by (auto simp: up_def rcall_def lpush_def ltrim_def expire_in_def rwrite_def Let_def
      split: option.splits)

lemma stamps_lpush: "up r \<Longrightarrow> stamps now (lpush now k x r) j =
    (if j = k then x # stamps now r k else stamps now r j)"
  by (auto simp: up_def rcall_def lpush_def rwrite_def stamps_def live_def split: option.splits)

lemma stamps_expire:
  "up r \<Longrightarrow> 0 < d \<Longrightarrow> stamps now (expire_in now k d r) j = stamps now r j"
  by (auto simp: up_def rcall_def expire_in_def rwrite_def stamps_def live_def split: option.splits)

lemma stamps_ltrim:
  "up r \<Longrightarrow> 0 < n \<Longrightarrow> stamps now (ltrim now k (n - 1) r) j =
    (if j = k then take (nat n) (stamps now r k) else stamps now r j)"
  by (auto simp: up_def rcall_def ltrim_def rwrite_def stamps_def live_def Let_def split: option.splits)

lemma whole_seconds_floor: "a \<le> b \<Longrightarrow> whole_seconds (b - a) = (b - a) div 10 ^ 9"
  by (simp add: whole_seconds_def)

text \<open>Dropping the part of an instant below a millisecond does not change whole seconds.\<close>

lemma whole_seconds_ms:
  assumes "parsed old \<le> parsed (now div 10 ^ 6)"
  shows "whole_seconds (now - parsed old) = whole_seconds (parsed (now div 10 ^ 6) - parsed old)"
proof -
  have d: "(now - old * 1000000) div 1000000000 = (now div 1000000 * 1000000 - old * 1000000) div 1000000000"
  proof -
    have "(now - old * 1000000) div 1000000000 = (now - old * 1000000) div 1000000 div 1000"
      by (simp add: zdiv_zmult2_eq [symmetric])
    also have "(now - old * 1000000) div 1000000 = now div 1000000 - old"
      using div_mult_self1 [of "1000000 :: int" now "- old"] by simp
    also have "(now div 1000000 - old) div 1000 =
        ((now div 1000000 - old) * 1000000) div 1000000 div 1000"
      by simp
    also have "\<dots> = (now div 1000000 * 1000000 - old * 1000000) div 1000000000"
      by (simp only: zdiv_zmult2_eq [symmetric] left_diff_distrib) simp
    finally show ?thesis .
  qed
  have "parsed (now div 10 ^ 6) \<le> now" by (simp add: parsed_def)
  with assms have "parsed old \<le> now" by simp
  with assms d show ?thesis by (simp add: whole_seconds_def parsed_def)
qed

subsection \<open>Agreement with the in-memory limiter\<close>

text \<open>The list of a key holds the queue's grant times, latest first.\<close>

definition mirrors :: "int \<Rightarrow> int \<Rightarrow> redis \<Rightarrow> limiter \<Rightarrow> bool" where
  "mirrors tz now r l \<longleftrightarrow>
     (\<forall>k. stamps now r k = map (\<lambda>t. wall_ms tz (t * 10 ^ 9)) (rev (queue_of l k)))"

lemma wall_seconds:
  "a \<le> b \<Longrightarrow> whole_seconds (parsed (wall_ms tz (b * 10 ^ 9)) - parsed (wall_ms tz (a * 10 ^ 9))) = b - a"
proof -
  assume ab: "a \<le> b"
  have w: "wall_ms tz (x * 10 ^ 9) = x * 1000 + tz div 1000000" for x
    using div_mult_self1 [of "1000000 :: int" tz "x * 1000"] by (simp add: wall_ms_def add.commute)
  have "(b * 1000 + tz div 1000000) * 10 ^ 6 - (a * 1000 + tz div 1000000) * 10 ^ 6 = (b - a) * 10 ^ 9"
    by (simp add: algebra_simps)
  with ab show ?thesis unfolding w parsed_def whole_seconds_def by simp
qed

lemma redis_mirrors_memory:
  fixes t tz :: int and cfg :: rl_config and c :: rl_request
  defines "now \<equiv> t * 10 ^ 9"
  assumes up: "up r" and ok: "limiter_ok l" and n: "0 < (if mark = ''CR'' then ctx_rate_limit c else m)"
    and ttl: "0 < key_expiration cfg" and mir: "mirrors tz now r l"
    and full: "int (length (queue_of l (rate_key cfg mark c))) \<le> (if mark = ''CR'' then ctx_rate_limit c else m)"
    and past: "\<And>x. x \<in> set (queue_of l (rate_key cfg mark c)) \<Longrightarrow> x \<le> t"
  shows "\<exists>v l' r'. memory_rate_limiter cfg t c m d mark l = Some (v, l') \<and>
    redis_rate_limiter cfg tz now c m d mark r = (v, r') \<and> limiter_ok l' \<and> up r' \<and> mirrors tz now r' l'"
proof -
  let ?k = "rate_key cfg mark c" and ?n = "if mark = ''CR'' then ctx_rate_limit c else m"
  let ?q = "queue_of l ?k"
  let ?w = "\<lambda>t. wall_ms tz (t * 10 ^ 9)"
  from request_queue [OF ok less_imp_le [OF n], of t ?k d] obtain l' where
    r: "request t ?k ?n d l = Some (admits ?n d t ?q, l')" and ok': "limiter_ok l'"
    and q': "queue_of l' = (if admits ?n d t ?q then (queue_of l)(?k := slide ?n t ?q) else queue_of l)"
    by blast
  from n r have mem: "memory_rate_limiter cfg t c m d mark l =
      Some (if admits ?n d t ?q then Next else Abort 429, l')"
    by (auto simp: memory_rate_limiter_def Let_def)
  from mir have st: "stamps now r j = map ?w (rev (queue_of l j))" for j by (simp add: mirrors_def)
  have len: "llen now ?k r = (Some (int (length ?q)), r)"
    using up by (simp add: up_reads st)
  show ?thesis
  proof (cases "int (length ?q) < ?n")
    case True
    define r' where "r' = expire_in now ?k (key_expiration cfg) (lpush now ?k (?w t) r)"
    have "redis_rate_limiter cfg tz now c m d mark r = (Next, r')"
      using len True n by (auto simp: redis_rate_limiter_def Let_def r'_def now_def)
    moreover have "up r'" using up by (simp add: r'_def up_writes)
    moreover have "mirrors tz now r' l'"
      using up True q' ttl st
      by (auto simp: mirrors_def r'_def stamps_expire up_writes stamps_lpush admits_def slide_def)
    ultimately show ?thesis using mem True ok' by (auto simp: admits_def)
  next
    case False
    with n obtain x xs where q: "?q = x # xs" by (cases ?q) auto
    with up have li: "lindex_last now ?k r = (Some (?w x), r)"
      by (simp add: up_reads st)
    have "x \<le> t" using past q by simp
    then have ws: "whole_seconds (parsed (?w t) - parsed (?w x)) = t - x" by (rule wall_seconds)
    show ?thesis
    proof (cases "t - x < d")
      case low: True
      define r' where "r' = expire_in now ?k (key_expiration cfg) r"
      have "redis_rate_limiter cfg tz now c m d mark r = (Abort 429, r')"
        using len False n li ws low by (auto simp: redis_rate_limiter_def Let_def r'_def now_def)
      moreover have "up r'" using up by (simp add: r'_def up_writes)
      moreover have na: "\<not> admits ?n d t ?q" using low False q by (auto simp: admits_def)
      moreover have "mirrors tz now r' l'"
        using up na q' ttl st by (simp add: mirrors_def r'_def stamps_expire)
      ultimately show ?thesis using mem ok' by auto
    next
      case high: False
      define r' where "r' = expire_in now ?k (key_expiration cfg) (ltrim now ?k (?n - 1) (lpush now ?k (?w t) r))"
      have "redis_rate_limiter cfg tz now c m d mark r = (Next, r')"
        using len False n li ws high by (auto simp: redis_rate_limiter_def Let_def r'_def now_def)
      moreover have "up r'" using up by (simp add: r'_def up_writes)
      moreover have a: "admits ?n d t ?q" using high q by (auto simp: admits_def)
      moreover have "mirrors tz now r' l'"
      proof -
        have "length (map ?w (rev xs)) + 1 = nat ?n" using q False full by auto
        then have "take (nat ?n) (?w t # map ?w (rev xs) @ [?w x]) = ?w t # map ?w (rev xs)"
          by (cases "nat ?n") simp_all
        then have "stamps now r' j = (if j = ?k then ?w t # map ?w (rev xs) else stamps now r j)" for j
          using up ttl n st [of ?k] q
          by (simp add: r'_def stamps_expire up_writes stamps_ltrim stamps_lpush)
        with a q' q st False show ?thesis by (simp add: mirrors_def slide_def)
      qed
      ultimately show ?thesis using mem ok' by auto
    qed
  qed
qed

subsection \<open>Properties\<close>


definition empty_redis :: redis where
  "empty_redis = \<lparr>lists = Map.empty, fails = []\<rparr>"


text \<open>
  On a server running in UTC the distributor's look-ahead on Redis changes nothing and
  says what \<open>redisRateLimiter\<close> will decide for the channel.
\<close>

theorem redis_look_ahead_utc:
  assumes "up r" and "0 < ctx_rate_limit c" and "0 < ctx_channel_id c"
    and "hd (get_token_key_parts cfg c) \<noteq> []" and "channel_limit_enabled cfg"
    and "\<And>x. x \<in> set (stamps now r (rate_key cfg ''CR'' c)) \<Longrightarrow> x \<le> wall_ms 0 now"
  shows "\<exists>b r'. would_channel_block_redis cfg now c (ctx_channel_id c) (ctx_rate_limit c) r = (Inr b, r) \<and>
    redis_rate_limiter cfg 0 now c 1 (channel_limit_duration cfg) ''CR'' r =
      (if b then Abort 429 else Next, r')"
proof -
  let ?k = "rate_key cfg ''CR'' c"
  have k: "''rateLimit:'' @ ''CR'' @ '':'' @ hash cfg (hd (get_token_key_parts cfg c)) @
      '':'' @ itoa (ctx_channel_id c) = ?k"
    by (simp add: rate_key_def Let_def)
  show ?thesis
  proof (cases "int (length (stamps now r ?k)) < ctx_rate_limit c")
    case True
    with assms k show ?thesis
      by (intro exI [of _ False])
         (simp add: would_channel_block_redis_def redis_rate_limiter_def Let_def up_reads)
  next
    case False
    with assms(2) have ne: "stamps now r ?k \<noteq> []" by auto
    with assms(6) have "parsed (last (stamps now r ?k)) \<le> parsed (now div 10 ^ 6)"
      by (simp add: parsed_def wall_ms_def)
    from whole_seconds_ms [OF this] False ne assms(1-5) k show ?thesis
      by (simp add: would_channel_block_redis_def redis_rate_limiter_def Let_def up_reads wall_ms_def)
  qed
qed

theorem redis_look_ahead_utc_witness:
  "\<exists>b r'. would_channel_block_redis example_config 5000 example_request 7 1 empty_redis = (Inr b, empty_redis) \<and>
     redis_rate_limiter example_config 0 5000 example_request 1 180 ''CR'' empty_redis =
       (if b then Abort 429 else Next, r')"
  using redis_look_ahead_utc [where r = empty_redis and c = example_request and cfg = example_config
      and now = 5000]
  by (simp add: up_def empty_redis_def example_config_def example_request_def stamps_def live_def
      get_token_key_parts_def trim_prefix_def)

text \<open>
  Outside UTC the Redis check of TOTP attempts, meant as one per second, is broken because
  it compares a stamp written in local time with the instant itself: east of UTC a second
  attempt is refused for as long as the zone's offset, west of UTC it is always let through.
\<close>

theorem totp_redis_time_zone:
  assumes "\<not> debug_enabled cfg" and "up r" and "stamps t0 r (totp_key uid) = []"
    and "t0 \<le> t1" and "t1 < t0 + key_expiration cfg"
  shows "let (first, r') = check_totp_redis cfg tz t0 uid r in
    first \<and> (t1 - t0 < tz \<longrightarrow> \<not> fst (check_totp_redis cfg tz t1 uid r')) \<and>
    (tz \<le> - (10 ^ 9) \<longrightarrow> fst (check_totp_redis cfg tz t1 uid r'))"
proof -
  let ?k = "totp_key uid"
  define r' where "r' = expire_in t0 ?k (key_expiration cfg) (lpush t0 ?k (wall_ms tz t0) r)"
  have c: "check_totp_redis cfg tz t0 uid r = (True, r')"
    using assms by (simp add: check_totp_redis_def check_redis_rate_limit_def Let_def up_reads r'_def)
  have up': "up r'" using assms(2) by (simp add: r'_def up_writes)
  have "lists r' ?k = Some ([wall_ms tz t0], Some (t0 + key_expiration cfg))"
    using assms(2,3)
    by (auto simp: r'_def up_def rcall_def expire_in_def lpush_def rwrite_def stamps_def live_def
        split: option.splits if_splits)
  then have st: "stamps t1 r' ?k = [wall_ms tz t0]" using assms(5) by (simp add: stamps_def live_def)
  have p: "parsed (wall_ms tz t0) \<le> t0 + tz" "t0 + tz < parsed (wall_ms tz t0) + 10 ^ 6"
    by (simp_all add: parsed_def wall_ms_def)
  have east: "whole_seconds (t1 - parsed (wall_ms tz t0)) < 1" if "t1 - t0 < tz"
    using p(2) that by (simp add: whole_seconds_def) linarith?
  have west: "1 \<le> whole_seconds (t1 - parsed (wall_ms tz t0))" if "tz \<le> - (10 ^ 9)"
    using p(1) that assms(4) by (simp add: whole_seconds_def) linarith?
  have "fst (check_totp_redis cfg tz t1 uid r') \<longleftrightarrow> 1 \<le> whole_seconds (t1 - parsed (wall_ms tz t0))"
    using st up' assms(1)
    by (simp add: check_totp_redis_def check_redis_rate_limit_def Let_def up_reads)
  with c east west show ?thesis by auto
qed

theorem totp_redis_time_zone_witness:
  "let (first, r') = check_totp_redis example_config 28800000000000 0 1 empty_redis in
    first \<and> \<not> fst (check_totp_redis example_config 28800000000000 600000000000 1 r')"
  using totp_redis_time_zone [where cfg = example_config and r = empty_redis and ?t0.0 = 0 and uid = 1
      and ?t1.0 = 600000000000 and tz = 28800000000000]
  by (simp add: up_def empty_redis_def example_config_def stamps_def live_def case_prod_beta Let_def)

end
