(* ===== verification/Pools.thy ===== *)
theory Pools
  imports Accounts
begin

text \<open>
  Budget pools: \<open>model/pool.go\<close>. A pool holds a total and what of it is handed out
  (\<open>used_quota\<close>); an allocation row records what a user got from a pool and what was taken
  back. Each operation runs in a transaction with the pool row locked, so it is one atomic
  step here; closing, rolling over and the bulk recall are sequences of such steps. A \<open>bigint\<close>
  column that would leave 64 bits is a database error.
\<close>

record pool_row =
  p_name :: string
  p_total_quota :: int
  p_used_quota :: int
  p_period_type :: string
  p_period_key :: string
  p_status :: string
  p_created_at :: int
  p_closed_at :: int

record alloc_row =
  a_id :: int
  a_pool_id :: int
  a_user_id :: int
  a_allocated_quota :: int
  a_recalled_quota :: int
  a_created_at :: int
  a_updated_at :: int

record pool_txn =
  x_pool_id :: int
  x_user_id :: int
  x_type :: string
  x_amount :: int
  x_direction :: string
  x_balance_after :: int
  x_remark :: string
  x_created_at :: int

record pool_world = world +
  pools :: "int \<rightharpoonup> pool_row"
  next_pool_id :: int
  allocations :: "alloc_row list"   \<comment> \<open>by primary key\<close>
  next_alloc_id :: int
  pool_txns :: "pool_txn list"
  topup_logs :: "(int \<times> int) list"

datatype pool_error = PoolDbError | PoolNotFound | PoolNotActive | InsufficientPool
  | NoAllocation | OverRecall | UserNotFound | UserShort

definition pool_active :: string where "pool_active = ''active''"
definition pool_closed :: string where "pool_closed = ''closed''"

definition available_quota :: "pool_row \<Rightarrow> int" where
  "available_quota p = i64 (p_total_quota p - p_used_quota p)"

definition net_allocated :: "alloc_row \<Rightarrow> int" where
  "net_allocated a = i64 (a_allocated_quota a - a_recalled_quota a)"

subsection \<open>Statements\<close>

definition get_pool :: "int \<Rightarrow> 'a pool_world_scheme \<Rightarrow> (pool_error + pool_row) \<times> 'a pool_world_scheme" where
  "get_pool pid s =
     bindE (stmt PoolDbError (\<lambda>s. (pools s pid, s)) s)
       (\<lambda>r s. case r of None \<Rightarrow> (Inl PoolNotFound, s) | Some p \<Rightarrow> (Inr p, s))"

definition update_pool_row ::
  "int \<Rightarrow> (pool_row \<Rightarrow> pool_row) \<Rightarrow> 'a pool_world_scheme \<Rightarrow> (pool_error + unit) \<times> 'a pool_world_scheme" where
  "update_pool_row pid f s =
     (case pools s pid of
        Some p \<Rightarrow>
          if in_i64 (p_total_quota (f p)) \<and> in_i64 (p_used_quota (f p))
          then stmt PoolDbError (\<lambda>s. ((), s\<lparr>pools := (pools s)(pid \<mapsto> f p)\<rparr>)) s
          else (Inl PoolDbError, s)
      | None \<Rightarrow> stmt PoolDbError (\<lambda>s. ((), s)) s)"

definition update_user_quota ::
  "int \<Rightarrow> int \<Rightarrow> 'a pool_world_scheme \<Rightarrow> (pool_error + unit) \<times> 'a pool_world_scheme" where
  "update_user_quota uid q s = stmt PoolDbError (\<lambda>s. ((), snd (user_credit uid q s))) s"

definition create_txn ::
  "pool_txn \<Rightarrow> 'a pool_world_scheme \<Rightarrow> (pool_error + unit) \<times> 'a pool_world_scheme" where
  "create_txn x s = stmt PoolDbError (\<lambda>s. ((), s\<lparr>pool_txns := pool_txns s @ [x]\<rparr>)) s"

definition create_allocation ::
  "int \<Rightarrow> int \<Rightarrow> int \<Rightarrow> 'a pool_world_scheme \<Rightarrow> (pool_error + unit) \<times> 'a pool_world_scheme" where
  "create_allocation pid uid amount s = stmt PoolDbError (\<lambda>s. ((), s\<lparr>allocations := allocations s @
      [\<lparr>a_id = next_alloc_id s, a_pool_id = pid, a_user_id = uid, a_allocated_quota = amount,
        a_recalled_quota = 0, a_created_at = clock s, a_updated_at = clock s\<rparr>],
      next_alloc_id := next_alloc_id s + 1\<rparr>)) s"

definition first_allocation :: "int \<Rightarrow> int \<Rightarrow> 'a pool_world_scheme \<Rightarrow> alloc_row option" where
  "first_allocation pid uid s = find (\<lambda>a. a_pool_id a = pid \<and> a_user_id a = uid) (allocations s)"

definition take_back :: "int \<Rightarrow> int \<Rightarrow> int \<Rightarrow> alloc_row \<Rightarrow> alloc_row" where
  "take_back aid q now a = (if a_id a = aid
     then a\<lparr>a_recalled_quota := a_recalled_quota a + q, a_updated_at := now\<rparr> else a)"

definition recall_allocation ::
  "int \<Rightarrow> int \<Rightarrow> 'a pool_world_scheme \<Rightarrow> (pool_error + unit) \<times> 'a pool_world_scheme" where
  "recall_allocation aid amount s = stmt PoolDbError (\<lambda>s. ((),
      s\<lparr>allocations := map (take_back aid amount (clock s)) (allocations s)\<rparr>)) s"

definition record_topup_log :: "int \<Rightarrow> int \<Rightarrow> 'a pool_world_scheme \<Rightarrow> 'a pool_world_scheme" where
  "record_topup_log uid q s = snd (stmt PoolDbError (\<lambda>s. ((), s\<lparr>topup_logs := topup_logs s @ [(uid, q)]\<rparr>)) s)"

subsection \<open>Operations\<close>

definition create_pool ::
  "pool_row \<Rightarrow> 'a pool_world_scheme \<Rightarrow> (pool_error + int) \<times> 'a pool_world_scheme" where
  "create_pool p s = stmt PoolDbError (\<lambda>s. (next_pool_id s,
      s\<lparr>pools := (pools s)(next_pool_id s \<mapsto> p\<lparr>p_created_at := clock s\<rparr>),
        next_pool_id := next_pool_id s + 1\<rparr>)) s"

definition close_pool :: "int \<Rightarrow> 'a pool_world_scheme \<Rightarrow> (pool_error + unit) \<times> 'a pool_world_scheme" where
  "close_pool pid s = stmt PoolDbError (\<lambda>s. ((), case pools s pid of
        None \<Rightarrow> s
      | Some p \<Rightarrow> s\<lparr>pools := (pools s)(pid \<mapsto> p\<lparr>p_status := pool_closed, p_closed_at := clock s\<rparr>)\<rparr>)) s"

definition purchase_to_pool ::
  "int \<Rightarrow> int \<Rightarrow> string \<Rightarrow> 'a pool_world_scheme \<Rightarrow> (pool_error + unit) \<times> 'a pool_world_scheme" where
  "purchase_to_pool pid amount remark s =
     in_tx PoolDbError (\<lambda>s.
       bindE (get_pool pid s) (\<lambda>pool s.
       if p_status pool \<noteq> pool_active then (Inl PoolNotActive, s)
       else bindE (update_pool_row pid (\<lambda>p. p\<lparr>p_total_quota := p_total_quota p + amount\<rparr>) s) (\<lambda>_ s.
            create_txn \<lparr>x_pool_id = pid, x_user_id = 0, x_type = ''purchase'', x_amount = amount,
              x_direction = ''in'',
              x_balance_after = i64 (i64 (p_total_quota pool + amount) - p_used_quota pool),
              x_remark = remark, x_created_at = clock s\<rparr> s))) s"

definition allocate_from_pool ::
  "int \<Rightarrow> int \<Rightarrow> int \<Rightarrow> string \<Rightarrow> 'a pool_world_scheme \<Rightarrow> (pool_error + unit) \<times> 'a pool_world_scheme" where
  "allocate_from_pool pid uid amount remark s =
     bindE (in_tx PoolDbError (\<lambda>s.
       bindE (get_pool pid s) (\<lambda>pool s.
       if p_status pool \<noteq> pool_active then (Inl PoolNotActive, s)
       else if available_quota pool < amount then (Inl InsufficientPool, s)
       else bindE (update_pool_row pid (\<lambda>p. p\<lparr>p_used_quota := i64 (p_used_quota pool + amount)\<rparr>) s) (\<lambda>_ s.
            bindE (update_user_quota uid amount s) (\<lambda>_ s.
            bindE (create_allocation pid uid amount s) (\<lambda>_ s.
            create_txn \<lparr>x_pool_id = pid, x_user_id = uid, x_type = ''allocate'', x_amount = amount,
              x_direction = ''out'',
              x_balance_after = i64 (p_total_quota pool - i64 (p_used_quota pool + amount)),
              x_remark = remark, x_created_at = clock s\<rparr> s))))) s)
       (\<lambda>_ s. (Inr (), record_topup_log uid amount s))"

definition recall_from_pool ::
  "int \<Rightarrow> int \<Rightarrow> int \<Rightarrow> string \<Rightarrow> 'a pool_world_scheme \<Rightarrow> (pool_error + unit) \<times> 'a pool_world_scheme" where
  "recall_from_pool pid uid amount remark s =
     in_tx PoolDbError (\<lambda>s.
       bindE (get_pool pid s) (\<lambda>pool s.
       if p_status pool \<noteq> pool_active then (Inl PoolNotActive, s)
       else bindE (stmt PoolDbError (\<lambda>s. (first_allocation pid uid s, s)) s) (\<lambda>r s.
         case r of
           None \<Rightarrow> (Inl NoAllocation, s)
         | Some allocation \<Rightarrow>
           if net_allocated allocation < amount then (Inl OverRecall, s)
           else bindE (stmt PoolDbError (\<lambda>s. (users s uid, s)) s) (\<lambda>r s.
             case r of
               None \<Rightarrow> (Inl UserNotFound, s)
             | Some user \<Rightarrow>
               if u_quota user < amount then (Inl UserShort, s)
               else bindE (update_user_quota uid (- amount) s) (\<lambda>_ s.
                    bindE (recall_allocation (a_id allocation) amount s) (\<lambda>_ s.
                    bindE (update_pool_row pid (\<lambda>p. p\<lparr>p_used_quota := p_used_quota p - amount\<rparr>) s) (\<lambda>_ s.
                    create_txn \<lparr>x_pool_id = pid, x_user_id = uid, x_type = ''recall'',
                      x_amount = amount, x_direction = ''in'',
                      x_balance_after = i64 (p_total_quota pool - i64 (p_used_quota pool - amount)),
                      x_remark = remark, x_created_at = clock s\<rparr> s))))))) s"

definition get_pool_allocations ::
  "int \<Rightarrow> 'a pool_world_scheme \<Rightarrow> (pool_error + alloc_row list) \<times> 'a pool_world_scheme" where
  "get_pool_allocations pid s =
     stmt PoolDbError (\<lambda>s. (filter (\<lambda>a. a_pool_id a = pid) (allocations s), s)) s"

fun recall_each ::
  "int \<Rightarrow> alloc_row list \<Rightarrow> int \<Rightarrow> 'a pool_world_scheme \<Rightarrow> int \<times> 'a pool_world_scheme" where
  "recall_each pid [] acc s = (acc, s)"
| "recall_each pid (a # as) acc s =
     (if net_allocated a > 0
      then (case recall_from_pool pid (a_user_id a) (net_allocated a) ''bulk recall'' s of
              (Inl _, s') \<Rightarrow> recall_each pid as acc s'
            | (Inr _, s') \<Rightarrow> recall_each pid as (i64 (acc + net_allocated a)) s')
      else recall_each pid as acc s)"

definition recall_all_from_pool ::
  "int \<Rightarrow> 'a pool_world_scheme \<Rightarrow> (pool_error + int) \<times> 'a pool_world_scheme" where
  "recall_all_from_pool pid s =
     bindE (get_pool_allocations pid s) (\<lambda>as s.
       case recall_each pid as 0 s of (n, s') \<Rightarrow> (Inr n, s'))"

definition roll_over_pool ::
  "int \<Rightarrow> string \<Rightarrow> string \<Rightarrow> 'a pool_world_scheme \<Rightarrow> (pool_error + int) \<times> 'a pool_world_scheme" where
  "roll_over_pool pid newPeriodKey newName s =
     bindE (get_pool pid s) (\<lambda>pool s.
       let remaining = available_quota pool in
       bindE (close_pool pid s) (\<lambda>_ s.
       bindE (create_pool \<lparr>p_name = newName, p_total_quota = remaining, p_used_quota = 0,
           p_period_type = p_period_type pool, p_period_key = newPeriodKey, p_status = pool_active,
           p_created_at = clock s, p_closed_at = 0\<rparr> s) (\<lambda>newId s.
       if remaining > 0
       then (Inr newId, snd (create_txn \<lparr>x_pool_id = newId, x_user_id = 0, x_type = ''purchase'',
               x_amount = remaining, x_direction = ''in'', x_balance_after = remaining,
               x_remark = ''carried over'', x_created_at = clock s\<rparr> s))
       else (Inr newId, s))))"

subsection \<open>Handlers\<close>

text \<open>
  \<open>controller/pool.go\<close>: the status code of the reply and the new state. The path
  parameter is \<open>None\<close> where \<open>strconv.Atoi\<close> fails; the conditions are the \<open>binding\<close>
  tags of the request structs, and decoding into \<open>int64\<close>.
\<close>

definition create_pool_handler ::
  "string \<Rightarrow> int \<Rightarrow> string \<Rightarrow> string \<Rightarrow> 'a pool_world_scheme \<Rightarrow> nat \<times> 'a pool_world_scheme" where
  "create_pool_handler name totalQuota periodType periodKey s =
     (if name = [] \<or> totalQuota < 1 \<or> \<not> in_i64 totalQuota \<or>
         periodType \<notin> {''monthly'', ''quarterly'', ''yearly'', ''oneoff''} \<or> periodKey = []
      then (400, s)
      else case create_pool \<lparr>p_name = name, p_total_quota = totalQuota, p_used_quota = 0,
          p_period_type = periodType, p_period_key = periodKey, p_status = pool_active,
          p_created_at = 0, p_closed_at = 0\<rparr> s of
        (Inl _, s') \<Rightarrow> (500, s') | (Inr _, s') \<Rightarrow> (200, s'))"

definition with_pool_id ::
  "int option \<Rightarrow> bool \<Rightarrow> (int \<Rightarrow> 'a pool_world_scheme \<Rightarrow> (pool_error + 'r) \<times> 'a pool_world_scheme) \<Rightarrow>
   'a pool_world_scheme \<Rightarrow> nat \<times> 'a pool_world_scheme" where
  "with_pool_id pid valid f s =
     (case pid of None \<Rightarrow> (400, s)
      | Some i \<Rightarrow> if \<not> valid then (400, s)
          else (case f i s of (Inl _, s') \<Rightarrow> (500, s') | (Inr _, s') \<Rightarrow> (200, s')))"

definition purchase_to_pool_handler where
  "purchase_to_pool_handler pid amount remark =
     with_pool_id pid (amount > 0 \<and> in_i64 amount) (\<lambda>i. purchase_to_pool i amount remark)"

definition allocate_from_pool_handler where
  "allocate_from_pool_handler pid userId amount remark =
     with_pool_id pid (userId \<noteq> 0 \<and> amount > 0 \<and> in_i64 amount) (\<lambda>i. allocate_from_pool i userId amount remark)"

definition recall_from_pool_handler where
  "recall_from_pool_handler pid userId amount remark =
     with_pool_id pid (userId \<noteq> 0 \<and> amount > 0 \<and> in_i64 amount) (\<lambda>i. recall_from_pool i userId amount remark)"

definition close_pool_handler where
  "close_pool_handler pid = with_pool_id pid True close_pool"

definition roll_over_pool_handler where
  "roll_over_pool_handler pid newPeriodKey newName =
     with_pool_id pid (newPeriodKey \<noteq> [] \<and> newName \<noteq> []) (\<lambda>i. roll_over_pool i newPeriodKey newName)"

text \<open>\<open>AdminTopUp\<close> (\<open>controller/user.go\<close>): the reply's \<open>success\<close> field.\<close>

definition admin_top_up ::
  "int \<Rightarrow> int \<Rightarrow> string \<Rightarrow> int \<Rightarrow> 'a pool_world_scheme \<Rightarrow> bool \<times> 'a pool_world_scheme" where
  "admin_top_up userId q remark poolId s =
     (if poolId > 0
      then (case allocate_from_pool poolId userId q
                (if remark = [] then ''allocated from pool '' @ itoa q else remark) s of
              (Inl _, s') \<Rightarrow> (False, s') | (Inr _, s') \<Rightarrow> (True, s'))
      else (case increase_user_quota userId q s of
              (Inl _, s') \<Rightarrow> (False, s') | (Inr _, s') \<Rightarrow> (True, record_topup_log userId q s')))"

subsection \<open>What a successful or failed operation leaves\<close>

text \<open>The state up to outcomes, transaction records and logs, which no check ever reads back.\<close>

definition books :: "'a pool_world_scheme \<Rightarrow>
    (int \<rightharpoonup> pool_row) \<times> int \<times> alloc_row list \<times> int \<times> (int \<rightharpoonup> user_row)" where
  "books s = (pools s, next_pool_id s, allocations s, next_alloc_id s, users s)"

lemma books_outcomes [simp]: "books (s\<lparr>outcomes := rs\<rparr>) = books s"
  by (simp add: books_def)

lemma same_data_books: "same_data s t \<Longrightarrow> books t = books s"
  by (auto simp: same_data_def)

lemma record_topup_log_books [simp]: "books (record_topup_log uid q s) = books s"
proof -
  obtain r s' where e: "stmt PoolDbError (\<lambda>s. ((), s\<lparr>topup_logs := topup_logs s @ [(uid, q)]\<rparr>)) s = (r, s')"
    by fastforce
  then show ?thesis by (elim stmt_result) (auto simp: record_topup_log_def e books_def)
qed

lemma get_pool_result:
  assumes "get_pool pid s = (r, s')"
  obtains (failed) e where "r = Inl e" and "books s' = books s" and "clock s' = clock s"
  | (found) p where "r = Inr p" and "pools s pid = Some p" and "books s' = books s" and "clock s' = clock s"
  using assms
  by (auto simp: get_pool_def books_def split: option.splits elim!: bindE_result stmt_result)

lemma update_pool_row_result:
  assumes "update_pool_row pid f s = (r, s')" and "pools s pid = Some p"
  obtains (failed) e where "r = Inl e" and "books s' = books s"
  | (done_) "r = Inr ()" and "in_i64 (p_total_quota (f p))" and "in_i64 (p_used_quota (f p))"
      and "books s' = books (s\<lparr>pools := (pools s)(pid \<mapsto> f p)\<rparr>)" and "clock s' = clock s"
  using assms by (auto simp: update_pool_row_def books_def split: if_splits elim!: stmt_result)

definition credited :: "int \<Rightarrow> int \<Rightarrow> (int \<rightharpoonup> user_row) \<Rightarrow> int \<rightharpoonup> user_row" where
  "credited uid q us = (case us uid of None \<Rightarrow> us
     | Some u \<Rightarrow> us(uid \<mapsto> u\<lparr>u_quota := u_quota u + q\<rparr>))"

lemma update_user_quota_result:
  assumes "update_user_quota uid q s = (r, s')"
  obtains (failed) e where "r = Inl e" and "books s' = books s"
  | (done_) "r = Inr ()" and "clock s' = clock s"
      and "books s' = (pools s, next_pool_id s, allocations s, next_alloc_id s, credited uid q (users s))"
  using assms
  by (auto simp: update_user_quota_def books_def user_credit_def credited_def split: option.splits
      elim!: stmt_result)

lemma create_txn_result:
  assumes "create_txn x s = (r, s')"
  obtains (failed) e where "r = Inl e" and "books s' = books s"
  | (done_) "r = Inr ()" and "books s' = books s" and "clock s' = clock s"
  using assms by (auto simp: create_txn_def books_def elim!: stmt_result)


lemma create_allocation_result:
  assumes "create_allocation pid uid q s = (r, s')"
  obtains (failed) e where "r = Inl e" and "books s' = books s"
  | (done_) "r = Inr ()" and "clock s' = clock s"
      and "books s' = (pools s, next_pool_id s, allocations s @
        [\<lparr>a_id = next_alloc_id s, a_pool_id = pid, a_user_id = uid, a_allocated_quota = q,
          a_recalled_quota = 0, a_created_at = clock s, a_updated_at = clock s\<rparr>],
        next_alloc_id s + 1, users s)"
  using assms by (auto simp: create_allocation_def books_def elim!: stmt_result)

lemma recall_allocation_result:
  assumes "recall_allocation aid q s = (r, s')"
  obtains (failed) e where "r = Inl e" and "books s' = books s"
  | (done_) "r = Inr ()" and "clock s' = clock s"
      and "books s' = (pools s, next_pool_id s, map (take_back aid q (clock s)) (allocations s),
        next_alloc_id s, users s)"
  using assms by (auto simp: recall_allocation_def books_def elim!: stmt_result)

text \<open>The whole operations: nothing, or all of their parts.\<close>

lemma in_tx_books:
  assumes "in_tx e body s = (r, s')"
  obtains (failed) e' where "r = Inl e'" and "books s' = books s"
  | (done_) a t where "r = Inr a" and "body s = (Inr a, t)" and "books s' = books t"
  using assms by (elim in_tx_result) (auto dest: same_data_books)

lemma purchase_result:
  assumes "purchase_to_pool pid q remark s = (r, s')"
  obtains (failed) e where "r = Inl e" and "books s' = books s"
  | (done_) p where "r = Inr ()" and "pools s pid = Some p" and "p_status p = pool_active"
      and "in_i64 (p_total_quota p + q)"
      and "books s' = books (s\<lparr>pools := (pools s)(pid \<mapsto> p\<lparr>p_total_quota := p_total_quota p + q\<rparr>)\<rparr>)"
  using assms unfolding purchase_to_pool_def
proof (cases rule: in_tx_books)
  case 2: (done_ a t)
  then obtain p u where u: "get_pool pid s = (Inr p, u)" and p: "p_status p = pool_active"
    and rest: "bindE (update_pool_row pid (\<lambda>p. p\<lparr>p_total_quota := p_total_quota p + q\<rparr>) u) (\<lambda>_ s.
            create_txn \<lparr>x_pool_id = pid, x_user_id = 0, x_type = ''purchase'', x_amount = q,
              x_direction = ''in'', x_balance_after = i64 (i64 (p_total_quota p + q) - p_used_quota p),
              x_remark = remark, x_created_at = clock s\<rparr> s) = (Inr a, t)"
    by (auto elim!: bindE_result split: if_splits)
  from u have pu: "pools s pid = Some p" "books u = books s" by (auto elim: get_pool_result)
  then have pu': "pools u pid = Some p" by (simp add: books_def)
  from rest obtain v where v: "update_pool_row pid (\<lambda>p. p\<lparr>p_total_quota := p_total_quota p + q\<rparr>) u
      = (Inr (), v)" and t: "books t = books v"
    by (auto elim!: bindE_result elim: create_txn_result)
  from v pu' have "in_i64 (p_total_quota p + q)"
    and bv: "books v = books (u\<lparr>pools := (pools u)(pid \<mapsto> p\<lparr>p_total_quota := p_total_quota p + q\<rparr>)\<rparr>)"
    by (auto elim: update_pool_row_result)
  with 2 t pu p show thesis
    by (intro done_ [of p]) (auto simp: books_def)
qed (rule failed)

lemma allocate_result:
  assumes "allocate_from_pool pid uid q remark s = (r, s')"
  obtains (failed) e where "r = Inl e" and "books s' = books s"
  | (done_) p now where "r = Inr ()" and "pools s pid = Some p" and "p_status p = pool_active"
      and "q \<le> available_quota p"
      and "books s' = ((pools s)(pid \<mapsto> p\<lparr>p_used_quota := i64 (p_used_quota p + q)\<rparr>), next_pool_id s,
        allocations s @ [\<lparr>a_id = next_alloc_id s, a_pool_id = pid, a_user_id = uid,
          a_allocated_quota = q, a_recalled_quota = 0, a_created_at = now, a_updated_at = now\<rparr>],
        next_alloc_id s + 1, credited uid q (users s))"
proof -
  define body where "body = (\<lambda>s :: 'a pool_world_scheme.
       bindE (get_pool pid s) (\<lambda>pool s.
       if p_status pool \<noteq> pool_active then (Inl PoolNotActive, s)
       else if available_quota pool < q then (Inl InsufficientPool, s)
       else bindE (update_pool_row pid (\<lambda>p. p\<lparr>p_used_quota := i64 (p_used_quota pool + q)\<rparr>) s) (\<lambda>_ s.
            bindE (update_user_quota uid q s) (\<lambda>_ s.
            bindE (create_allocation pid uid q s) (\<lambda>_ s.
            create_txn \<lparr>x_pool_id = pid, x_user_id = uid, x_type = ''allocate'', x_amount = q,
              x_direction = ''out'',
              x_balance_after = i64 (p_total_quota pool - i64 (p_used_quota pool + q)),
              x_remark = remark, x_created_at = clock s\<rparr> s)))))"
  have "bindE (in_tx PoolDbError body s) (\<lambda>_ s. (Inr (), record_topup_log uid q s)) = (r, s')"
    using assms by (simp add: allocate_from_pool_def body_def)
  then show thesis
  proof (cases rule: bindE_result)
    case (left e)
    then show ?thesis by (auto elim!: in_tx_books intro: failed)
  next
    case (right a w)
    then have r: "r = Inr ()" and s': "books s' = books w" by auto
    from right obtain t where "body s = (Inr a, t)" and w: "books w = books t"
      by (auto elim: in_tx_books)
    then obtain p u v x y where u: "get_pool pid s = (Inr p, u)"
      and p: "p_status p = pool_active" "q \<le> available_quota p"
      and v: "update_pool_row pid (\<lambda>p'. p'\<lparr>p_used_quota := i64 (p_used_quota p + q)\<rparr>) u = (Inr (), v)"
      and x: "update_user_quota uid q v = (Inr (), x)"
      and y: "create_allocation pid uid q x = (Inr (), y)" and t: "books t = books y"
      unfolding body_def
      by (fastforce elim!: bindE_InrE elim: create_txn_result split: if_splits)
    from u have pu: "pools s pid = Some p" "books u = books s" by (auto elim: get_pool_result)
    then have "pools u pid = Some p" by (simp add: books_def)
    with v have bv: "books v = books (u\<lparr>pools := (pools u)(pid \<mapsto> p\<lparr>p_used_quota := i64 (p_used_quota p + q)\<rparr>)\<rparr>)"
      by (auto elim: update_pool_row_result)
    from x have bx: "books x = (pools v, next_pool_id v, allocations v, next_alloc_id v, credited uid q (users v))"
      by (auto elim: update_user_quota_result)
    from y have "books y = (pools x, next_pool_id x, allocations x @
        [\<lparr>a_id = next_alloc_id x, a_pool_id = pid, a_user_id = uid, a_allocated_quota = q,
          a_recalled_quota = 0, a_created_at = clock x, a_updated_at = clock x\<rparr>],
        next_alloc_id x + 1, users x)"
      by (auto elim: create_allocation_result)
    with s' w t bx bv pu p r show ?thesis
      by (intro done_ [of p "clock x"]) (auto simp: books_def)
  qed
qed

lemma first_allocation_in:
  "first_allocation pid uid s = Some a \<Longrightarrow> a \<in> set (allocations s) \<and> a_pool_id a = pid \<and> a_user_id a = uid"
  by (auto simp: first_allocation_def find_Some_iff)

lemma recall_result:
  assumes "recall_from_pool pid uid q remark s = (r, s')"
  obtains (failed) e where "r = Inl e" and "books s' = books s"
  | (done_) p a user now where "r = Inr ()" and "pools s pid = Some p" and "p_status p = pool_active"
      and "first_allocation pid uid s = Some a" and "q \<le> net_allocated a"
      and "users s uid = Some user" and "q \<le> u_quota user"
      and "books s' = ((pools s)(pid \<mapsto> p\<lparr>p_used_quota := p_used_quota p - q\<rparr>), next_pool_id s,
        map (take_back (a_id a) q now) (allocations s), next_alloc_id s, credited uid (- q) (users s))"
  using assms unfolding recall_from_pool_def
proof (cases rule: in_tx_books)
  case d: (done_ b t)
  from d(2) obtain p u where u: "get_pool pid s = (Inr p, u)" and p: "p_status p = pool_active"
    and rest: "bindE (stmt PoolDbError (\<lambda>s. (first_allocation pid uid s, s)) u) (\<lambda>r s.
         case r of
           None \<Rightarrow> (Inl NoAllocation, s)
         | Some allocation \<Rightarrow>
           if net_allocated allocation < q then (Inl OverRecall, s)
           else bindE (stmt PoolDbError (\<lambda>s. (users s uid, s)) s) (\<lambda>r s.
             case r of
               None \<Rightarrow> (Inl UserNotFound, s)
             | Some user \<Rightarrow>
               if u_quota user < q then (Inl UserShort, s)
               else bindE (update_user_quota uid (- q) s) (\<lambda>_ s.
                    bindE (recall_allocation (a_id allocation) q s) (\<lambda>_ s.
                    bindE (update_pool_row pid (\<lambda>p. p\<lparr>p_used_quota := p_used_quota p - q\<rparr>) s) (\<lambda>_ s.
                    create_txn \<lparr>x_pool_id = pid, x_user_id = uid, x_type = ''recall'',
                      x_amount = q, x_direction = ''in'',
                      x_balance_after = i64 (p_total_quota p - i64 (p_used_quota p - q)),
                      x_remark = remark, x_created_at = clock s\<rparr> s))))) = (Inr b, t)"
    by (auto elim!: bindE_InrE split: if_splits)
  from rest obtain a v user w x y z where v: "stmt PoolDbError (\<lambda>s. (first_allocation pid uid s, s)) u = (Inr (Some a), v)"
    and a: "q \<le> net_allocated a"
    and w: "stmt PoolDbError (\<lambda>s. (users s uid, s)) v = (Inr (Some user), w)"
    and user: "q \<le> u_quota user"
    and x: "update_user_quota uid (- q) w = (Inr (), x)"
    and y: "recall_allocation (a_id a) q x = (Inr (), y)"
    and z: "update_pool_row pid (\<lambda>p. p\<lparr>p_used_quota := p_used_quota p - q\<rparr>) y = (Inr (), z)"
    and t: "books t = books z"
    by (fastforce elim!: bindE_InrE elim: create_txn_result split: if_splits option.splits)
  from u have pu: "pools s pid = Some p" "books u = books s" by (auto elim: get_pool_result)
  from v have av: "first_allocation pid uid u = Some a" "books v = books u"
    by (auto elim!: stmt_result simp: first_allocation_def books_def)
  from w have uw: "users v uid = Some user" "books w = books v"
    by (auto elim!: stmt_result simp: books_def)
  from x have bx: "books x = (pools w, next_pool_id w, allocations w, next_alloc_id w, credited uid (- q) (users w))"
    by (auto elim: update_user_quota_result)
  from y have byy: "books y = (pools x, next_pool_id x, map (take_back (a_id a) q (clock x)) (allocations x),
        next_alloc_id x, users x)"
    by (auto elim: recall_allocation_result)
  have "pools y pid = Some p" using pu av(2) uw(2) bx byy by (simp add: books_def)
  with z have bz: "books z = books (y\<lparr>pools := (pools y)(pid \<mapsto> p\<lparr>p_used_quota := p_used_quota p - q\<rparr>)\<rparr>)"
    by (auto elim: update_pool_row_result)
  show thesis
    using d t bz byy bx uw av pu p a user
    by (intro done_ [of p a user "clock x"]) (auto simp: books_def first_allocation_def)
qed (rule failed)

subsection \<open>The books balance\<close>

text \<open>
  What reconciliation checks: a pool's \<open>used_quota\<close> is the sum of what its allocation rows
  still hold out, and never more than its total.
\<close>

definition alloc_ok :: "alloc_row \<Rightarrow> bool" where
  "alloc_ok a \<longleftrightarrow> 0 \<le> a_recalled_quota a \<and> a_recalled_quota a \<le> a_allocated_quota a \<and>
     in_i64 (a_allocated_quota a)"

definition handed_out :: "int \<Rightarrow> alloc_row list \<Rightarrow> int" where
  "handed_out pid as = (\<Sum>a\<leftarrow>filter (\<lambda>a. a_pool_id a = pid) as. net_allocated a)"

definition pool_ok :: "alloc_row list \<Rightarrow> int \<Rightarrow> int \<Rightarrow> pool_row \<Rightarrow> bool" where
  "pool_ok as nxt pid p \<longleftrightarrow> pid < nxt \<and> 0 \<le> p_used_quota p \<and> p_used_quota p \<le> p_total_quota p \<and>
     in_i64 (p_total_quota p) \<and> p_used_quota p = handed_out pid as"

definition pool_books_ok :: "(int \<rightharpoonup> pool_row) \<Rightarrow> int \<Rightarrow> alloc_row list \<Rightarrow> int \<Rightarrow> bool" where
  "pool_books_ok ps nxt as anxt \<longleftrightarrow>
     (\<forall>pid p. ps pid = Some p \<longrightarrow> pool_ok as nxt pid p) \<and>
     (\<forall>a \<in> set as. alloc_ok a \<and> a_pool_id a < nxt \<and> a_id a < anxt) \<and> distinct (map a_id as)"

definition books_ok :: "'a pool_world_scheme \<Rightarrow> bool" where
  "books_ok s \<longleftrightarrow> pool_books_ok (pools s) (next_pool_id s) (allocations s) (next_alloc_id s)"

lemma books_ok_cong: "books t = books s \<Longrightarrow> books_ok t \<longleftrightarrow> books_ok s"
  by (simp add: books_ok_def books_def)

lemma books_ok_outcomes [simp]: "books_ok (s\<lparr>outcomes := rs\<rparr>) = books_ok s"
  by (rule books_ok_cong) simp

lemma net_allocated_ok: "alloc_ok a \<Longrightarrow> net_allocated a = a_allocated_quota a - a_recalled_quota a"
  by (simp add: net_allocated_def alloc_ok_def in_i64_def)

lemma net_allocated_nonneg: "alloc_ok a \<Longrightarrow> 0 \<le> net_allocated a"
  by (simp add: net_allocated_ok) (simp add: alloc_ok_def)

lemma handed_out_snoc [simp]:
  "handed_out pid (as @ [a]) = handed_out pid as + (if a_pool_id a = pid then net_allocated a else 0)"
  by (simp add: handed_out_def)

lemma take_back_ids [simp]: "a_id (take_back i q now a) = a_id a" "a_pool_id (take_back i q now a) = a_pool_id a"
  "a_user_id (take_back i q now a) = a_user_id a"
  by (simp_all add: take_back_def)

lemma alloc_ok_take_back: "alloc_ok a \<Longrightarrow> 0 \<le> q \<Longrightarrow> q \<le> net_allocated a \<Longrightarrow> alloc_ok (take_back i q now a)"
  by (simp add: net_allocated_ok) (simp add: alloc_ok_def take_back_def)

lemma alloc_ok_take_back_other: "alloc_ok a \<Longrightarrow> a_id a \<noteq> i \<Longrightarrow> take_back i q now a = a"
  by (simp add: take_back_def)

lemma handed_out_take_back:
  assumes "a \<in> set as" and "distinct (map a_id as)" and "alloc_ok a" and "0 \<le> q" and "q \<le> net_allocated a"
  shows "handed_out pid (map (take_back (a_id a) q now) as) =
    handed_out pid as - (if a_pool_id a = pid then q else 0)"
  using assms(1,2)
proof (induction as)
  case (Cons b as)
  show ?case
  proof (cases "b = a")
    case True
    with Cons.prems have "map (take_back (a_id a) q now) as = as"
      by (intro map_idI) (auto simp: take_back_def image_iff)
    moreover have "net_allocated (take_back (a_id a) q now a) = net_allocated a - q"
      using alloc_ok_take_back [OF assms(3-5)] assms(3)
      by (simp add: net_allocated_ok) (simp add: take_back_def)
    ultimately show ?thesis by (simp add: handed_out_def True)
  next
    case False
    with Cons.prems have "a_id b \<noteq> a_id a" by (auto simp: image_iff)
    with False Cons show ?thesis by (auto simp: handed_out_def take_back_def)
  qed
qed simp

lemma handed_out_fresh: "\<forall>a \<in> set as. a_pool_id a < nxt \<Longrightarrow> nxt \<le> pid \<Longrightarrow> handed_out pid as = 0"
  by (subst handed_out_def, subst filter_False) auto

lemma pool_ok_available:
  "pool_ok as nxt pid p \<Longrightarrow> available_quota p = p_total_quota p - p_used_quota p"
  by (simp add: available_quota_def pool_ok_def in_i64_def)

lemma pool_ok_used_i64: "pool_ok as nxt pid p \<Longrightarrow> in_i64 (p_used_quota p)"
  by (auto simp: pool_ok_def intro: in_i64_between [of 0 "p_total_quota p"])

lemma books_okD:
  assumes "books_ok s"
  shows "pools s pid = Some p \<Longrightarrow> pool_ok (allocations s) (next_pool_id s) pid p"
    and "a \<in> set (allocations s) \<Longrightarrow> alloc_ok a \<and> a_pool_id a < next_pool_id s \<and> a_id a < next_alloc_id s"
    and "distinct (map a_id (allocations s))"
  using assms by (simp_all add: books_ok_def pool_books_ok_def)

lemma books_okI:
  assumes "books t = (ps, nxt, as, anxt, us)"
    and "\<And>pid p. ps pid = Some p \<Longrightarrow> pool_ok as nxt pid p"
    and "\<And>a. a \<in> set as \<Longrightarrow> alloc_ok a \<and> a_pool_id a < nxt \<and> a_id a < anxt"
    and "distinct (map a_id as)"
  shows "books_ok t"
  using assms by (simp add: books_ok_def pool_books_ok_def books_def)

lemma pool_ok_nonneg: "pool_ok as nxt pid p \<Longrightarrow> 0 \<le> p_used_quota p \<and> p_used_quota p \<le> p_total_quota p"
  by (simp add: pool_ok_def)

subsection \<open>Every operation keeps the books\<close>

lemma purchase_keeps_books:
  assumes ok: "books_ok s" and q: "0 \<le> q"
  shows "books_ok (snd (purchase_to_pool pid q remark s))"
proof -
  obtain r s' where e: "purchase_to_pool pid q remark s = (r, s')" by fastforce
  from e have "books_ok s'"
  proof (cases rule: purchase_result)
    case (failed e)
    with ok show ?thesis using books_ok_cong [OF failed(2)] by blast
  next
    case (done_ p)
    from books_okD(1) [OF ok done_(2)] have p: "pool_ok (allocations s) (next_pool_id s) pid p" .
    from done_(5) [unfolded books_def] show ?thesis
    proof (intro books_okI [of s'], simp add: books_def, goal_cases)
      case (1 i p')
      with p q done_(4) show ?case
        by (cases "i = pid") (auto simp: pool_ok_def dest: books_okD(1) [OF ok])
    qed (use books_okD(2,3) [OF ok] in auto)
  qed
  with e show ?thesis by simp
qed

lemma allocate_keeps_books:
  assumes ok: "books_ok s" and q: "0 \<le> q"
  shows "books_ok (snd (allocate_from_pool pid uid q remark s))"
proof -
  obtain r s' where e: "allocate_from_pool pid uid q remark s = (r, s')" by fastforce
  from e have "books_ok s'"
  proof (cases rule: allocate_result)
    case (failed e)
    with ok show ?thesis using books_ok_cong [OF failed(2)] by blast
  next
    case (done_ p now)
    let ?a = "\<lparr>a_id = next_alloc_id s, a_pool_id = pid, a_user_id = uid,
          a_allocated_quota = q, a_recalled_quota = 0, a_created_at = now, a_updated_at = now\<rparr>"
    from books_okD(1) [OF ok done_(2)] have p: "pool_ok (allocations s) (next_pool_id s) pid p" .
    with done_(4) have le: "p_used_quota p + q \<le> p_total_quota p" by (simp add: pool_ok_available)
    have i: "in_i64 (p_used_quota p + q)" "in_i64 q" 
      using p le q by (auto simp: pool_ok_def intro: in_i64_between [of 0 "p_total_quota p"])
    then have a: "alloc_ok ?a" "net_allocated ?a = q"
      using q by (simp_all add: alloc_ok_def net_allocated_def)
    show ?thesis
    proof (rule books_okI [OF done_(5)], goal_cases)
      case (1 j p')
      show ?case
      proof (cases "j = pid")
        case True
        with 1 p le i a q show ?thesis by (auto simp: pool_ok_def)
      next
        case False
        with 1 a show ?thesis by (auto simp: pool_ok_def dest: books_okD(1) [OF ok])
      qed
    next
      case (2 b)
      with p a books_okD(2) [OF ok, of b] show ?case by (auto simp: pool_ok_def)
    next
      case 3
      with books_okD(2,3) [OF ok] show ?case by fastforce
    qed
  qed
  with e show ?thesis by simp
qed

lemma alloc_ok_take_back_all:
  assumes "distinct (map a_id as)" and "\<And>b. b \<in> set as \<Longrightarrow> alloc_ok b" and "a \<in> set as"
    and "0 \<le> q" and "q \<le> net_allocated a" and "b \<in> set (map (take_back (a_id a) q now) as)"
  shows "alloc_ok b"
proof -
  from assms(6) obtain c where c: "c \<in> set as" "b = take_back (a_id a) q now c" by auto
  show ?thesis
  proof (cases "a_id c = a_id a")
    case True
    with c assms(1,3) have "c = a" by (auto simp: distinct_map dest: inj_onD)
    with c assms show ?thesis by (simp add: alloc_ok_take_back)
  next
    case False
    with c assms show ?thesis by (simp add: alloc_ok_take_back_other)
  qed
qed

lemma handed_out_nonneg: "(\<And>b. b \<in> set as \<Longrightarrow> alloc_ok b) \<Longrightarrow> 0 \<le> handed_out pid as"
  unfolding handed_out_def by (rule sum_list_nonneg) (auto simp: net_allocated_nonneg)

lemma recall_keeps_books:
  assumes ok: "books_ok s" and q: "0 \<le> q"
  shows "books_ok (snd (recall_from_pool pid uid q remark s))"
proof -
  obtain r s' where e: "recall_from_pool pid uid q remark s = (r, s')" by fastforce
  from e have "books_ok s'"
  proof (cases rule: recall_result)
    case (failed e)
    with ok show ?thesis using books_ok_cong [OF failed(2)] by blast
  next
    case (done_ p a user now)
    let ?as = "map (take_back (a_id a) q now) (allocations s)"
    from first_allocation_in [OF done_(4)] have a: "a \<in> set (allocations s)" "a_pool_id a = pid" by auto
    have each: "alloc_ok b" if "b \<in> set ?as" for b
      using alloc_ok_take_back_all [OF books_okD(3) [OF ok] _ a(1) q done_(5) that]
        books_okD(2) [OF ok] by blast
    have nn: "0 \<le> handed_out i ?as" for i
      using each by (rule handed_out_nonneg)
    have ho: "handed_out i ?as = handed_out i (allocations s) - (if i = pid then q else 0)" for i
      using handed_out_take_back [OF a(1) books_okD(3) [OF ok] _ q done_(5), of i now]
        books_okD(2) [OF ok a(1)] a(2) by auto
    show ?thesis
    proof (rule books_okI [OF done_(8)], goal_cases)
      case (1 j p')
      show ?case
      proof (cases "j = pid")
        case True
        with 1 q books_okD(1) [OF ok done_(2)] ho [of j] nn [of j] show ?thesis
          by (auto simp: pool_ok_def)
      next
        case False
        with 1 ho [of j] show ?thesis by (auto simp: pool_ok_def dest: books_okD(1) [OF ok])
      qed
    next
      case (2 b)
      with each [of b] books_okD(2) [OF ok] show ?case by auto
    next
      case 3
      with books_okD(3) [OF ok] show ?case by (simp add: comp_def)
    qed
  qed
  with e show ?thesis by simp
qed

text \<open>Closing and creating are one statement each.\<close>

lemma create_pool_result:
  assumes "create_pool p s = (r, s')"
  obtains (failed) e where "r = Inl e" and "books s' = books s"
  | (done_) now where "r = Inr (next_pool_id s)" and
      "books s' = ((pools s)(next_pool_id s \<mapsto> p\<lparr>p_created_at := now\<rparr>), next_pool_id s + 1,
        allocations s, next_alloc_id s, users s)"
  using assms by (auto simp: create_pool_def books_def elim!: stmt_result)

lemma close_pool_result:
  assumes "close_pool pid s = (r, s')"
  obtains (failed) e where "r = Inl e" and "books s' = books s"
  | (done_) now where "r = Inr ()" and
      "books s' = ((pools s)(pid := map_option
          (\<lambda>p. p\<lparr>p_status := pool_closed, p_closed_at := now\<rparr>) (pools s pid)), next_pool_id s,
        allocations s, next_alloc_id s, users s)"
  using assms
  by (auto simp: close_pool_def books_def fun_upd_idem split: option.splits elim!: stmt_result)

lemma create_pool_keeps_books:
  assumes ok: "books_ok s" and "p_used_quota p = 0" and "0 \<le> p_total_quota p" and "in_i64 (p_total_quota p)"
  shows "books_ok (snd (create_pool p s))"
proof -
  obtain r s' where e: "create_pool p s = (r, s')" by fastforce
  from e have "books_ok s'"
  proof (cases rule: create_pool_result)
    case (failed e)
    with ok show ?thesis using books_ok_cong [OF failed(2)] by blast
  next
    case (done_ now)
    have fresh: "handed_out (next_pool_id s) (allocations s) = 0"
      using books_okD(2) [OF ok] by (intro handed_out_fresh) auto
    show ?thesis
    proof (rule books_okI [OF done_(2)], goal_cases)
      case (1 j p')
      then show ?case
        using assms(2-) fresh
        by (cases "j = next_pool_id s") (auto simp: pool_ok_def dest: books_okD(1) [OF ok])
    next
      case (2 a)
      with books_okD(2) [OF ok, of a] show ?case by auto
    next
      case 3
      show ?case by (rule books_okD(3) [OF ok])
    qed
  qed
  with e show ?thesis by simp
qed

lemma close_pool_keeps_books:
  assumes ok: "books_ok s"
  shows "books_ok (snd (close_pool pid s))"
proof -
  obtain r s' where e: "close_pool pid s = (r, s')" by fastforce
  from e have "books_ok s'"
  proof (cases rule: close_pool_result)
    case (failed e)
    with ok show ?thesis using books_ok_cong [OF failed(2)] by blast
  next
    case (done_ now)
    show ?thesis
    proof (rule books_okI [OF done_(2)], goal_cases)
      case (1 j p')
      then show ?case
        by (cases "j = pid") (auto simp: pool_ok_def dest: books_okD(1) [OF ok])
    qed (use books_okD(2,3) [OF ok] in auto)
  qed
  with e show ?thesis by simp
qed

lemma recall_each_keeps_books:
  "books_ok s \<Longrightarrow> books_ok (snd (recall_each pid as acc s))"
proof (induction as arbitrary: acc s)
  case (Cons a as)
  obtain r s' where e: "recall_from_pool pid (a_user_id a) (net_allocated a) ''bulk recall'' s = (r, s')"
    by fastforce
  show ?case
  proof (cases "net_allocated a > 0")
    case True
    then have "books_ok s'"
      using recall_keeps_books [OF Cons.prems, of "net_allocated a" pid "a_user_id a" "''bulk recall''"] e
      by simp
    with True e show ?thesis by (cases r) (auto intro: Cons.IH)
  qed (simp add: Cons)
qed simp

lemma recall_all_keeps_books: "books_ok s \<Longrightarrow> books_ok (snd (recall_all_from_pool pid s))"
proof -
  assume ok: "books_ok s"
  obtain r t where e: "get_pool_allocations pid s = (r, t)" by fastforce
  then have "books t = books s" by (auto simp: get_pool_allocations_def elim!: stmt_result)
  with ok have "books_ok t" using books_ok_cong by blast
  then have "books_ok (snd (recall_each pid as 0 t))" for as
    by (rule recall_each_keeps_books)
  with \<open>books_ok t\<close> e show ?thesis
    by (cases r) (auto simp: recall_all_from_pool_def case_prod_beta)
qed

lemma roll_over_keeps_books:
  assumes ok: "books_ok s"
  shows "books_ok (snd (roll_over_pool pid key name s))"
proof -
  obtain r u where g: "get_pool pid s = (r, u)" by fastforce
  then have bu: "books u = books s" by (auto elim: get_pool_result)
  with ok have oku: "books_ok u" using books_ok_cong by blast
  show ?thesis
  proof (cases r)
    case (Inl e)
    with g oku show ?thesis by (simp add: roll_over_pool_def)
  next
    case (Inr p)
    with g have "pools s pid = Some p" by (auto elim: get_pool_result)
    from books_okD(1) [OF ok this] have av: "0 \<le> available_quota p" "in_i64 (available_quota p)"
      by (auto simp: pool_ok_available pool_ok_nonneg dest: pool_ok_nonneg)
         (auto simp: pool_ok_def in_i64_def)
    obtain r' v where c: "close_pool pid u = (r', v)" by fastforce
    from close_pool_keeps_books [OF oku, of pid] c have okv: "books_ok v" by simp
    show ?thesis
    proof (cases r')
      case (Inl e)
      with g Inr c okv show ?thesis by (simp add: roll_over_pool_def Let_def)
    next
      case r': (Inr _)
      define np where "np = \<lparr>p_name = name, p_total_quota = available_quota p, p_used_quota = 0,
           p_period_type = p_period_type p, p_period_key = key, p_status = pool_active,
           p_created_at = clock v, p_closed_at = 0\<rparr>"
      obtain r'' w where n: "create_pool np v = (r'', w)" by fastforce
      from create_pool_keeps_books [OF okv, of np] n av have okw: "books_ok w" by (simp add: np_def)
      have ct: "books_ok (snd (create_txn x w))" for x
      proof -
        obtain q z where "create_txn x w = (q, z)" by fastforce
        moreover from this have "books z = books w" by (auto elim: create_txn_result)
        ultimately show ?thesis using okw books_ok_cong [of z w] by simp
      qed
      from g Inr c r' n okw ct show ?thesis
        by (cases r'') (auto simp: roll_over_pool_def Let_def np_def)
    qed
  qed
qed

subsection \<open>With nothing failing\<close>

lemma get_pool_ok: "outcomes s = [] \<Longrightarrow> pools s pid = Some p \<Longrightarrow> get_pool pid s = (Inr p, s)"
  by (simp add: get_pool_def stmt_ok)

lemma update_pool_row_ok:
  "outcomes s = [] \<Longrightarrow> pools s pid = Some p \<Longrightarrow> in_i64 (p_total_quota (f p)) \<Longrightarrow>
   in_i64 (p_used_quota (f p)) \<Longrightarrow>
   update_pool_row pid f s = (Inr (), s\<lparr>pools := (pools s)(pid \<mapsto> f p)\<rparr>)"
  by (simp add: update_pool_row_def stmt_ok)

lemma update_user_quota_ok:
  "outcomes s = [] \<Longrightarrow> update_user_quota uid q s = (Inr (), s\<lparr>users := credited uid q (users s)\<rparr>)"
  by (simp add: update_user_quota_def stmt_ok user_credit_def credited_def split: option.splits)

lemma recall_from_pool_ok:
  assumes "outcomes s = []" and "pools s pid = Some p" and "p_status p = pool_active"
    and "first_allocation pid uid s = Some a" and "q \<le> net_allocated a"
    and "users s uid = Some u" and "q \<le> u_quota u"
    and "in_i64 (p_total_quota p)" and "in_i64 (p_used_quota p - q)"
  obtains s' where "recall_from_pool pid uid q remark s = (Inr (), s')" and "outcomes s' = []"
    and "books s' = ((pools s)(pid \<mapsto> p\<lparr>p_used_quota := p_used_quota p - q\<rparr>), next_pool_id s,
      map (take_back (a_id a) q (clock s)) (allocations s), next_alloc_id s,
      (users s)(uid \<mapsto> u\<lparr>u_quota := u_quota u - q\<rparr>))"
  using assms
  by (simp add: recall_from_pool_def in_tx_def get_pool_ok stmt_ok update_user_quota_ok credited_def
      recall_allocation_def update_pool_row_ok create_txn_def not_less books_def)

lemma allocate_from_pool_ok:
  assumes "outcomes s = []" and "pools s pid = Some p" and "p_status p = pool_active"
    and "q \<le> available_quota p" and "in_i64 (p_total_quota p)"
  obtains s' where "allocate_from_pool pid uid q remark s = (Inr (), s')" and "outcomes s' = []"
    and "books s' = ((pools s)(pid \<mapsto> p\<lparr>p_used_quota := i64 (p_used_quota p + q)\<rparr>), next_pool_id s,
      allocations s @ [\<lparr>a_id = next_alloc_id s, a_pool_id = pid, a_user_id = uid,
        a_allocated_quota = q, a_recalled_quota = 0, a_created_at = clock s, a_updated_at = clock s\<rparr>],
      next_alloc_id s + 1, credited uid q (users s))"
  using assms
  by (simp add: allocate_from_pool_def in_tx_def get_pool_ok stmt_ok update_user_quota_ok
      create_allocation_def update_pool_row_ok create_txn_def not_less record_topup_log_def books_def)

lemma roll_over_pool_ok:
  assumes "outcomes s = []" and "pools s pid = Some p" and "pid \<noteq> next_pool_id s"
  obtains s' where "roll_over_pool pid key name s = (Inr (next_pool_id s), s')" and "outcomes s' = []"
    and "books s' = ((pools s)(pid \<mapsto> p\<lparr>p_status := pool_closed, p_closed_at := clock s\<rparr>,
        next_pool_id s \<mapsto> \<lparr>p_name = name, p_total_quota = available_quota p, p_used_quota = 0,
           p_period_type = p_period_type p, p_period_key = key, p_status = pool_active,
           p_created_at = clock s, p_closed_at = 0\<rparr>),
      next_pool_id s + 1, allocations s, next_alloc_id s, users s)"
  using assms
  by (cases "0 < available_quota p")
     (simp_all add: roll_over_pool_def get_pool_ok close_pool_def stmt_ok create_pool_def create_txn_def
      Let_def books_def)

subsection \<open>Requests in sequence\<close>

datatype pool_request =
    CreateReq string int string string
  | PurchaseReq "int option" int string
  | AllocateReq "int option" int int string
  | RecallReq "int option" int int string
  | CloseReq "int option"
  | RollOverReq "int option" string string
  | RecallAllCall int

primrec pool_step :: "pool_request \<Rightarrow> 'a pool_world_scheme \<Rightarrow> 'a pool_world_scheme" where
  "pool_step (CreateReq name q ty key) s = snd (create_pool_handler name q ty key s)"
| "pool_step (PurchaseReq pid q remark) s = snd (purchase_to_pool_handler pid q remark s)"
| "pool_step (AllocateReq pid uid q remark) s = snd (allocate_from_pool_handler pid uid q remark s)"
| "pool_step (RecallReq pid uid q remark) s = snd (recall_from_pool_handler pid uid q remark s)"
| "pool_step (CloseReq pid) s = snd (close_pool_handler pid s)"
| "pool_step (RollOverReq pid key name) s = snd (roll_over_pool_handler pid key name s)"
| "pool_step (RecallAllCall pid) s = snd (recall_all_from_pool pid s)"

lemma with_pool_id_keeps:
  assumes "books_ok s" and "\<And>i. valid \<Longrightarrow> books_ok (snd (f i s))"
  shows "books_ok (snd (with_pool_id pid valid f s))"
  using assms
  by (auto simp: with_pool_id_def split: option.splits prod.splits sum.splits) (metis snd_conv)+

lemma pool_step_keeps_books: "books_ok s \<Longrightarrow> books_ok (pool_step r s)"
proof (cases r)
  case (CreateReq name q ty key)
  assume ok: "books_ok s"
  define np where "np = \<lparr>p_name = name, p_total_quota = q, p_used_quota = 0,
          p_period_type = ty, p_period_key = key, p_status = pool_active,
          p_created_at = 0, p_closed_at = 0\<rparr>"
  from ok create_pool_keeps_books [OF ok, of np] show ?thesis
    by (auto simp: CreateReq create_pool_handler_def np_def [symmetric] case_prod_beta
        split: sum.splits) (auto simp: np_def)
qed (auto simp: purchase_to_pool_handler_def allocate_from_pool_handler_def
    recall_from_pool_handler_def close_pool_handler_def roll_over_pool_handler_def
    intro!: with_pool_id_keeps purchase_keeps_books allocate_keeps_books recall_keeps_books
      close_pool_keeps_books roll_over_keeps_books recall_all_keeps_books)

lemma pool_steps_keep_books: "books_ok s \<Longrightarrow> books_ok (fold pool_step rs s)"
  by (induction rs arbitrary: s) (simp_all add: pool_step_keeps_books)

subsection \<open>Recalling everything\<close>

lemma find_unique:
  "x \<in> set xs \<Longrightarrow> P x \<Longrightarrow> (\<And>y. y \<in> set xs \<Longrightarrow> P y \<Longrightarrow> y = x) \<Longrightarrow> find P xs = Some x"
proof (induction xs)
  case (Cons z zs)
  show ?case
  proof (cases "P z")
    case True
    moreover from True have "z = x" by (intro Cons.prems(3)) simp_all
    ultimately show ?thesis by simp
  next
    case False
    with Cons.prems(1,2) have "x \<in> set zs" by auto
    then have "find P zs = Some x"
      by (rule Cons.IH [OF _ Cons.prems(2)]) (rule Cons.prems(3), simp_all)
    with False show ?thesis by simp
  qed
qed simp

text \<open>
  The loop holds a snapshot of the allocations: those still ahead are as in the table, their
  users can pay, and what they hold is all the pool still has out.
\<close>

definition recallable :: "int \<Rightarrow> alloc_row list \<Rightarrow> 'a pool_world_scheme \<Rightarrow> bool" where
  "recallable pid as s \<longleftrightarrow> books_ok s \<and> outcomes s = [] \<and>
     (\<exists>p. pools s pid = Some p \<and> p_status p = pool_active \<and>
          p_used_quota p = (\<Sum>a\<leftarrow>as. net_allocated a)) \<and>
     distinct (map a_user_id (filter (\<lambda>a. a_pool_id a = pid) (allocations s))) \<and>
     distinct (map a_user_id as) \<and>
     (\<forall>a \<in> set as. a \<in> set (allocations s) \<and> a_pool_id a = pid \<and>
        (\<exists>u. users s (a_user_id a) = Some u \<and> net_allocated a \<le> u_quota u))"

lemma recallableD:
  assumes "recallable pid as s"
  shows "books_ok s" and "outcomes s = []"
    and "distinct (map a_user_id (filter (\<lambda>a. a_pool_id a = pid) (allocations s)))"
    and "a \<in> set as \<Longrightarrow> a \<in> set (allocations s)" and "a \<in> set as \<Longrightarrow> a_pool_id a = pid"
  using assms unfolding recallable_def by blast+

lemma recallable_first:
  assumes "recallable pid as s" and "a \<in> set as"
  shows "first_allocation pid (a_user_id a) s = Some a"
  unfolding first_allocation_def
proof (rule find_unique)
  have a: "a \<in> set (allocations s)" "a_pool_id a = pid"
    using recallableD(4,5) [OF assms(1,2)] by blast+
  then show "a \<in> set (allocations s)" "a_pool_id a = pid \<and> a_user_id a = a_user_id a" by auto
  fix b assume b: "b \<in> set (allocations s)" "a_pool_id b = pid \<and> a_user_id b = a_user_id a"
  from distinct_map_eqD [OF recallableD(3) [OF assms(1)], of b a] a b show "b = a" by simp
qed

lemma recallable_skip:
  "recallable pid (a # as) s \<Longrightarrow> net_allocated a = 0 \<Longrightarrow> recallable pid as s"
  by (auto simp: recallable_def)

lemma recallable_step:
  assumes rc: "recallable pid (a # as) s" and pos: "0 < net_allocated a"
  obtains s' where "recall_from_pool pid (a_user_id a) (net_allocated a) remark s = (Inr (), s')"
    and "recallable pid as s'"
proof -
  let ?q = "net_allocated a"
  from rc obtain p u where p: "pools s pid = Some p" "p_status p = pool_active"
      "p_used_quota p = ?q + (\<Sum>a\<leftarrow>as. net_allocated a)"
    and u: "users s (a_user_id a) = Some u" "?q \<le> u_quota u" and ok: "books_ok s"
    and o: "outcomes s = []" and a: "a \<in> set (allocations s)" "a_pool_id a = pid"
    by (auto simp: recallable_def)
  have as: "alloc_ok b" if "b \<in> set (a # as)" for b
    using that rc books_okD(2) [OF ok] by (auto simp: recallable_def)
  then have rest: "0 \<le> (\<Sum>a\<leftarrow>as. net_allocated a)"
    by (intro sum_list_nonneg) (auto simp: net_allocated_nonneg)
  from books_okD(1) [OF ok p(1)] have po: "in_i64 (p_total_quota p)" "p_used_quota p \<le> p_total_quota p"
    by (auto simp: pool_ok_def)
  have i: "in_i64 (p_used_quota p - ?q)"
    by (rule in_i64_between [of 0 "p_total_quota p"]) (use po p pos rest in auto)
  from recall_from_pool_ok [OF o p(1,2) recallable_first [OF rc, of a] order_refl u po(1) i,
      of remark] obtain s' where s': "recall_from_pool pid (a_user_id a) ?q remark s = (Inr (), s')"
    "outcomes s' = []"
    and b: "books s' = ((pools s)(pid \<mapsto> p\<lparr>p_used_quota := p_used_quota p - ?q\<rparr>), next_pool_id s,
      map (take_back (a_id a) ?q (clock s)) (allocations s), next_alloc_id s,
      (users s)(a_user_id a \<mapsto> u\<lparr>u_quota := u_quota u - ?q\<rparr>))" by auto
  from recall_keeps_books [OF ok, of ?q pid "a_user_id a" remark] pos s' have ok': "books_ok s'" by simp
  have keep: "b \<in> set (allocations s')" if "b \<in> set as" for b
  proof -
    from rc that have "b \<in> set (allocations s)" "a_user_id a \<notin> a_user_id ` set as"
      by (simp_all add: recallable_def)
    moreover from this that have "a_user_id b \<noteq> a_user_id a" by (metis imageI)
    moreover from this a(1) calculation(1) distinct_map_eqD [OF books_okD(3) [OF ok], of b a]
    have "a_id b \<noteq> a_id a" by auto
    ultimately show ?thesis
      using b alloc_ok_take_back_other [of b "a_id a"] as that
      by (auto simp: books_def image_iff intro!: bexI [of _ b])
  qed
  have users': "\<exists>v. users s' (a_user_id c) = Some v \<and> net_allocated c \<le> u_quota v" if "c \<in> set as" for c
  proof -
    from rc have "a_user_id a \<notin> a_user_id ` set as" by (simp add: recallable_def)
    with that have "a_user_id c \<noteq> a_user_id a" by (metis imageI)
    with rc that b show ?thesis by (auto simp: recallable_def books_def)
  qed
  have "pools s' pid = Some (p\<lparr>p_used_quota := p_used_quota p - ?q\<rparr>)"
    "map a_user_id (filter (\<lambda>a. a_pool_id a = pid) (allocations s')) =
      map a_user_id (filter (\<lambda>a. a_pool_id a = pid) (allocations s))"
    using b by (simp_all add: books_def filter_map comp_def)
  with rc keep users' ok' s' p have "recallable pid as s'"
    by (simp add: recallable_def)
  with s'(1) show thesis by (rule that)
qed

lemma recall_each_all:
  assumes "recallable pid as s" and "0 \<le> acc" and "in_i64 (acc + (\<Sum>a\<leftarrow>as. net_allocated a))"
  shows "\<exists>s'. recall_each pid as acc s = (acc + (\<Sum>a\<leftarrow>as. net_allocated a), s') \<and> recallable pid [] s'"
  using assms
proof (induction as arbitrary: acc s)
  case (Cons a as)
  have ok: "alloc_ok b" if "b \<in> set (a # as)" for b
    using that Cons.prems(1) books_okD(2) [of s] by (auto simp: recallable_def)
  then have nn: "0 \<le> net_allocated a" "0 \<le> (\<Sum>a\<leftarrow>as. net_allocated a)"
    by (auto simp: net_allocated_nonneg intro!: sum_list_nonneg)
  show ?case
  proof (cases "net_allocated a = 0")
    case True
    with Cons.IH [OF recallable_skip [OF Cons.prems(1) True]] Cons.prems show ?thesis by simp
  next
    case False
    with nn obtain s' where s': "recall_from_pool pid (a_user_id a) (net_allocated a) ''bulk recall'' s = (Inr (), s')"
      "recallable pid as s'"
      using recallable_step [OF Cons.prems(1)] by (metis less_le)
    have "in_i64 (acc + net_allocated a)"
      by (rule in_i64_between [OF in_i64_0 Cons.prems(3)]) (use nn Cons.prems in auto)
    with s' False nn Cons.IH [OF s'(2), of "acc + net_allocated a"] Cons.prems show ?thesis
      by (simp add: add.assoc)
  qed
qed auto

subsection \<open>Properties\<close>

definition example_pool :: pool_row where
  "example_pool = \<lparr>p_name = ''q1'', p_total_quota = 1000, p_used_quota = 0, p_period_type = ''monthly'',
     p_period_key = ''2025-01'', p_status = pool_active, p_created_at = 0, p_closed_at = 0\<rparr>"

definition example_pools :: pool_world where
  "example_pools = \<lparr>users = [1 \<mapsto> example_user], tokens = Map.empty,
     channel_used_quota = Map.empty, token_key_index = Map.empty, token_cache = Map.empty,
     batch_stores = (\<lambda>_. Map.empty), reminders = [], clock = 1000, using_sqlite = False,
     redis_enabled = False, batch_update_enabled = False, quota_remind_threshold = 10,
     outcomes = [], wait_cancelled = (\<lambda>_. False), pools = [7 \<mapsto> example_pool], next_pool_id = 8,
     allocations = [], next_alloc_id = 1, pool_txns = [], topup_logs = []\<rparr>"

lemma example_pools_ok: "books_ok example_pools"
  by (simp add: books_ok_def pool_books_ok_def pool_ok_def example_pools_def example_pool_def
      handed_out_def in_i64_def)



text \<open>
  Allocating moves quota and creates none: if the call succeeds for an existing user, the
  pool's available quota falls by exactly the amount, which it covered, and the user's rises
  by it; if it fails, no pool, allocation or account has changed.
\<close>

theorem allocate_moves_quota:
  assumes "books_ok s" and "0 \<le> q" and "users s uid = Some u"
    and "allocate_from_pool pid uid q remark s = (r, s')"
  shows "(\<exists>e. r = Inl e \<and> books s' = books s) \<or>
    (\<exists>p p'. pools s pid = Some p \<and> pools s' pid = Some p' \<and> q \<le> available_quota p \<and>
       available_quota p' = available_quota p - q \<and>
       users s' = (users s)(uid \<mapsto> u\<lparr>u_quota := u_quota u + q\<rparr>))"
  using assms(4)
proof (cases rule: allocate_result)
  case (failed e)
  then show ?thesis by blast
next
  case (done_ p now)
  from books_okD(1) [OF assms(1) done_(2)] have p: "pool_ok (allocations s) (next_pool_id s) pid p" .
  with done_(4) have le: "p_used_quota p + q \<le> p_total_quota p" by (simp add: pool_ok_available)
  have i: "in_i64 (p_used_quota p + q)" "in_i64 (p_total_quota p - (p_used_quota p + q))"
    using p le assms(2) by (auto simp: pool_ok_def intro: in_i64_between [of 0 "p_total_quota p"])
  let ?p' = "p\<lparr>p_used_quota := i64 (p_used_quota p + q)\<rparr>"
  from done_(5) assms(3) have "pools s' pid = Some ?p'"
    "users s' = (users s)(uid \<mapsto> u\<lparr>u_quota := u_quota u + q\<rparr>)"
    by (simp_all add: books_def credited_def)
  moreover have "available_quota ?p' = available_quota p - q"
    using i pool_ok_available [OF p] by (simp add: available_quota_def)
  ultimately show ?thesis using done_(2,4) by blast
qed

theorem allocate_moves_quota_witness:
  "fst (allocate_from_pool 7 1 300 ''a'' example_pools) = Inr () \<and>
   (\<exists>p'. pools (snd (allocate_from_pool 7 1 300 ''a'' example_pools)) 7 = Some p' \<and>
      available_quota p' = 700)"
proof -
  obtain s' where s': "allocate_from_pool 7 1 300 ''a'' example_pools = (Inr (), s')"
    by (rule allocate_from_pool_ok [of example_pools 7 example_pool 300 1 "''a''"])
       (auto simp: example_pools_def example_pool_def available_quota_def in_i64_def i64_def)
  with allocate_moves_quota [OF example_pools_ok _ _ s', of example_user] show ?thesis
    by (auto simp: example_pools_def example_pool_def available_quota_def i64_def)
qed

text \<open>
  The bulk recall empties a pool: in an active pool whose allocations belong to different
  users, each still holding at least what they were given, it takes back everything, returns
  the amount, and leaves the pool with nothing handed out.
\<close>

theorem recall_all_empties:
  assumes ok: "books_ok s" and o: "outcomes s = []"
    and p: "pools s pid = Some p" "p_status p = pool_active"
    and d: "distinct (map a_user_id (filter (\<lambda>a. a_pool_id a = pid) (allocations s)))"
    and u: "\<And>a. a \<in> set (allocations s) \<Longrightarrow> a_pool_id a = pid \<Longrightarrow>
      \<exists>u. users s (a_user_id a) = Some u \<and> net_allocated a \<le> u_quota u"
  shows "\<exists>s' p'. recall_all_from_pool pid s = (Inr (p_used_quota p), s') \<and>
    pools s' pid = Some p' \<and> p_used_quota p' = 0 \<and> handed_out pid (allocations s') = 0"
proof -
  let ?as = "filter (\<lambda>a. a_pool_id a = pid) (allocations s)"
  from books_okD(1) [OF ok p(1)] have po: "p_used_quota p = (\<Sum>a\<leftarrow>?as. net_allocated a)"
    "in_i64 (p_used_quota p)"
    by (auto simp: pool_ok_used_i64) (simp add: pool_ok_def handed_out_def)
  have "recallable pid ?as s"
    using ok o p d u po(1) by (simp add: recallable_def)
  from recall_each_all [OF this, of 0] po obtain s' where
    s': "recall_each pid ?as 0 s = (p_used_quota p, s')" "recallable pid [] s'" by auto
  then obtain p' where p': "pools s' pid = Some p'" "p_used_quota p' = 0" and ok': "books_ok s'"
    by (auto simp: recallable_def)
  from books_okD(1) [OF ok' p'(1)] p' have "handed_out pid (allocations s') = 0"
    by (simp add: pool_ok_def)
  with s' p' o show ?thesis
    by (simp add: recall_all_from_pool_def get_pool_allocations_def stmt_ok)
qed

definition example_alloc :: "int \<Rightarrow> int \<Rightarrow> int \<Rightarrow> alloc_row" where
  "example_alloc i uid q = \<lparr>a_id = i, a_pool_id = 7, a_user_id = uid, a_allocated_quota = q,
     a_recalled_quota = 0, a_created_at = 0, a_updated_at = 0\<rparr>"

definition example_lent :: pool_world where
  "example_lent = example_pools\<lparr>pools := [7 \<mapsto> example_pool\<lparr>p_used_quota := 60\<rparr>],
     allocations := [example_alloc 1 1 60], next_alloc_id := 2\<rparr>"

lemma example_lent_ok: "books_ok example_lent"
  by (simp add: books_ok_def pool_books_ok_def pool_ok_def example_lent_def example_pools_def
      example_pool_def handed_out_def in_i64_def example_alloc_def alloc_ok_def net_allocated_def i64_def)

theorem recall_all_empties_witness:
  "fst (recall_all_from_pool 7 example_lent) = Inr 60"
proof -
  have "\<exists>s' p'. recall_all_from_pool 7 example_lent =
      (Inr (p_used_quota (example_pool\<lparr>p_used_quota := 60\<rparr>)), s') \<and>
    pools s' 7 = Some p' \<and> p_used_quota p' = 0 \<and> handed_out 7 (allocations s') = 0"
    by (rule recall_all_empties [OF example_lent_ok])
       (simp_all add: example_lent_def example_pools_def example_alloc_def example_pool_def
        example_user_def net_allocated_def i64_def)
  then show ?thesis by auto
qed

text \<open>
  The bulk recall misses a user's second allocation: \<open>RecallFromPool\<close> always looks up the
  user's first row, so a second grant to the same user is counted against the first and stays
  out; here 60 and then 40 are granted and only 60 come back.
\<close>

theorem recall_all_misses_second:
  "let s = fold pool_step [AllocateReq (Some 7) 1 60 ''a'', AllocateReq (Some 7) 1 40 ''b''] example_pools;
       (r, s') = recall_all_from_pool 7 s
   in r = Inr 60 \<and> map_option p_used_quota (pools s' 7) = Some 40 \<and>
      map_option u_quota (users s' 1) = Some 140"
  by (simp add: allocate_from_pool_handler_def with_pool_id_def allocate_from_pool_def example_pools_def
      example_pool_def example_user_def get_pool_def stmt_ok in_tx_def available_quota_def i64_def in_i64_def
      update_pool_row_def update_user_quota_def user_credit_def create_allocation_def create_txn_def
      record_topup_log_def recall_all_from_pool_def get_pool_allocations_def recall_from_pool_def
      net_allocated_def first_allocation_def recall_allocation_def take_back_def Let_def)

text \<open>
  A roll-over carries an active pool's free balance over once; but nothing stops it being
  asked again for the pool it has closed, and then the same balance is carried over a second
  time: two active pools each start with all that was left.
\<close>

theorem roll_over_twice_doubles:
  assumes ok: "books_ok s" and "outcomes s = []" and p: "pools s pid = Some p"
  shows "\<exists>s1 s2 p1 p2. roll_over_pool pid key name s = (Inr (next_pool_id s), s1) \<and>
    roll_over_pool pid key' name' s1 = (Inr (next_pool_id s + 1), s2) \<and>
    pools s2 (next_pool_id s) = Some p1 \<and> pools s2 (next_pool_id s + 1) = Some p2 \<and>
    p_status p1 = pool_active \<and> p_status p2 = pool_active \<and>
    available_quota p1 = available_quota p \<and> available_quota p2 = available_quota p"
proof -
  from books_okD(1) [OF ok p] have ne: "pid < next_pool_id s" by (simp add: pool_ok_def)
  obtain s1 where s1: "roll_over_pool pid key name s = (Inr (next_pool_id s), s1)" "outcomes s1 = []"
    and b1: "books s1 = ((pools s)(pid \<mapsto> p\<lparr>p_status := pool_closed, p_closed_at := clock s\<rparr>,
        next_pool_id s \<mapsto> \<lparr>p_name = name, p_total_quota = available_quota p, p_used_quota = 0,
           p_period_type = p_period_type p, p_period_key = key, p_status = pool_active,
           p_created_at = clock s, p_closed_at = 0\<rparr>),
      next_pool_id s + 1, allocations s, next_alloc_id s, users s)"
    by (rule roll_over_pool_ok [OF assms(2) p, of key name]) (use ne in auto)
  from b1 ne have p1: "pools s1 pid = Some (p\<lparr>p_status := pool_closed, p_closed_at := clock s\<rparr>)"
    and n1: "next_pool_id s1 = next_pool_id s + 1" by (simp_all add: books_def)
  obtain s2 where s2: "roll_over_pool pid key' name' s1 = (Inr (next_pool_id s1), s2)"
    and b2: "books s2 = ((pools s1)(pid \<mapsto> p\<lparr>p_status := pool_closed, p_closed_at := clock s1\<rparr>,
        next_pool_id s1 \<mapsto> \<lparr>p_name = name', p_total_quota = available_quota p, p_used_quota = 0,
           p_period_type = p_period_type p, p_period_key = key', p_status = pool_active,
           p_created_at = clock s1, p_closed_at = 0\<rparr>),
      next_pool_id s1 + 1, allocations s1, next_alloc_id s1, users s1)"
    by (rule roll_over_pool_ok [OF s1(2) p1, of key' name']) (use ne n1 in \<open>auto simp: available_quota_def\<close>)
  have "in_i64 (available_quota p)" by (simp add: available_quota_def)
  with s1(1) s2 b1 b2 n1 ne show ?thesis
    by (simp add: books_def available_quota_def [of "_\<lparr>p_used_quota := _\<rparr>"]) (simp add: available_quota_def)
qed

theorem roll_over_twice_doubles_witness:
  "\<exists>s1 s2 p1 p2. roll_over_pool 7 ''k'' ''a'' example_pools = (Inr 8, s1) \<and>
     roll_over_pool 7 ''k'' ''b'' s1 = (Inr 9, s2) \<and>
     pools s2 8 = Some p1 \<and> pools s2 9 = Some p2 \<and> p_status p1 = pool_active \<and>
     p_status p2 = pool_active \<and> available_quota p1 = 1000 \<and> available_quota p2 = 1000"
  using roll_over_twice_doubles [OF example_pools_ok, of 7 example_pool "''k''" "''a''" "''k''" "''b''"]
  by (simp add: example_pools_def example_pool_def available_quota_def i64_def)

text \<open>
  \<open>AdminTopUp\<close> from a pool does not check the sign of the amount (the direct path does):
  a negative amount takes quota from a user who need not have it and leaves the pool with more
  to give than was ever bought.
\<close>

theorem admin_top_up_negative:
  "let (r, s') = admin_top_up 1 (- 150) [] 7 example_pools
   in r \<and> map_option u_quota (users s' 1) = Some (- 50) \<and>
      map_option available_quota (pools s' 7) = Some 1150 \<and>
      \<not> fst (admin_top_up 1 (- 150) [] 0 example_pools)"
  by (simp add: admin_top_up_def allocate_from_pool_def example_pools_def
      example_pool_def example_user_def get_pool_def stmt_ok in_tx_def available_quota_def i64_def in_i64_def
      update_pool_row_def update_user_quota_def user_credit_def create_allocation_def create_txn_def
      record_topup_log_def increase_user_quota_def)

end
