(* ===== verification/ExternalBilling.thy ===== *)
theory ExternalBilling
  imports Accounts
begin

text \<open>
  Billing of external jobs against a token: \<open>ConsumeToken\<close> and its phases in
  \<open>controller/token.go\<close>, over \<open>model/token_transaction.go\<close> and the consume logs of
  \<open>model/log.go\<close>.

  A transaction is pending after the \<open>pre\<close> phase and then confirmed, auto-confirmed or
  cancelled. Request and trace ids, the text of log entries and the JSON of the reply are left
  out; \<open>random.GetUUID\<close> is the sequence \<open>uuid_stream\<close>. The caller's user and token ids come
  from the authentication middleware.
\<close>

record txn_row =
  b_id :: int
  b_transaction_id :: string
  b_token_id :: int
  b_user_id :: int
  b_status :: int
  b_pre_quota :: int
  b_final_quota :: "int option"
  b_reason :: string
  b_expires_at :: int
  b_confirmed_at :: "int option"
  b_canceled_at :: "int option"
  b_auto_confirmed :: bool
  b_log_id :: "int option"
  b_elapsed_time_ms :: "int option"

record log_row =
  l_user_id :: int
  l_model_name :: string
  l_token_name :: string
  l_quota :: int
  l_elapsed_time :: int

record bill_world = world +
  txns :: "txn_row list"
  next_txn_id :: int
  logs :: "int \<rightharpoonup> log_row"
  next_log_id :: int
  uuid_stream :: "nat \<Rightarrow> string"
  next_uuid :: nat
  log_consume_enabled :: bool
  billing_default_timeout :: int
  billing_max_timeout :: int

datatype consume_error = ModelErr model_error | EmptyReason | BadPhase | NotEnabled | Expired | Exhausted
  | ZeroQuota | QuotaRange | NoTransactionId | NotPending int | NoUniqueId | BadField

definition pending_status :: int where "pending_status = 1"
definition confirmed_status :: int where "confirmed_status = 2"
definition auto_confirmed_status :: int where "auto_confirmed_status = 3"
definition canceled_status :: int where "canceled_status = 4"

lemmas status_defs = pending_status_def confirmed_status_def auto_confirmed_status_def canceled_status_def

definition token_transaction_status_string :: "int \<Rightarrow> string" where
  "token_transaction_status_string st =
     (if st = pending_status then ''pending''
      else if st = confirmed_status then ''confirmed''
      else if st = auto_confirmed_status then ''auto_confirmed''
      else if st = canceled_status then ''canceled''
      else ''unknown'')"

record consume_req =
  add_used_quota :: int      \<comment> \<open>\<open>uint64\<close>\<close>
  add_reason :: string
  elapsed_time_ms :: "int option"
  phase :: "string option"
  transaction_id :: "string option"
  final_used_quota :: "int option"
  timeout_seconds :: "int option"

definition lift_e :: "(model_error + 'a) \<times> 's \<Rightarrow> (consume_error + 'a) \<times> 's" where
  "lift_e m = (case m of (Inl e, s) \<Rightarrow> (Inl (ModelErr e), s) | (Inr a, s) \<Rightarrow> (Inr a, s))"

subsection \<open>The transaction table\<close>

definition get_token_transaction ::
  "int \<Rightarrow> string \<Rightarrow> 'a bill_world_scheme \<Rightarrow> (consume_error + txn_row) \<times> 'a bill_world_scheme" where
  "get_token_transaction tid x s =
     bindE (stmt (ModelErr DbError)
              (\<lambda>s. (find (\<lambda>b. b_token_id b = tid \<and> b_transaction_id b = x) (txns s), s)) s)
       (\<lambda>r s. case r of None \<Rightarrow> (Inl (ModelErr RecordNotFound), s) | Some b \<Rightarrow> (Inr b, s))"

text \<open>The insert assigns the primary key; the pair of token and transaction id is unique.\<close>

definition create_token_transaction ::
  "txn_row \<Rightarrow> 'a bill_world_scheme \<Rightarrow> (consume_error + txn_row) \<times> 'a bill_world_scheme" where
  "create_token_transaction b s =
     (if \<exists>c \<in> set (txns s). b_token_id c = b_token_id b \<and> b_transaction_id c = b_transaction_id b
      then (Inl (ModelErr DbError), s)
      else stmt (ModelErr DbError) (\<lambda>s. (b\<lparr>b_id := next_txn_id s\<rparr>,
             s\<lparr>txns := txns s @ [b\<lparr>b_id := next_txn_id s\<rparr>], next_txn_id := next_txn_id s + 1\<rparr>)) s)"

datatype col_value = IntV int | BoolV bool | StrV string

fun set_column :: "string \<times> col_value \<Rightarrow> txn_row \<Rightarrow> txn_row" where
  "set_column (c, IntV v) b =
     (if c = ''status'' then b\<lparr>b_status := v\<rparr>
      else if c = ''final_quota'' then b\<lparr>b_final_quota := Some v\<rparr>
      else if c = ''confirmed_at'' then b\<lparr>b_confirmed_at := Some v\<rparr>
      else if c = ''expires_at'' then b\<lparr>b_expires_at := v\<rparr>
      else if c = ''elapsed_time_ms'' then b\<lparr>b_elapsed_time_ms := Some v\<rparr>
      else if c = ''canceled_at'' then b\<lparr>b_canceled_at := Some v\<rparr>
      else b)"
| "set_column (c, BoolV v) b = (if c = ''auto_confirmed'' then b\<lparr>b_auto_confirmed := v\<rparr> else b)"
| "set_column (c, StrV v) b = (if c = ''reason'' then b\<lparr>b_reason := v\<rparr> else b)"

definition txn_update_fields :: "string list" where
  "txn_update_fields = [''status'', ''final_quota'', ''confirmed_at'', ''auto_confirmed'', ''expires_at'',
     ''reason'', ''elapsed_time_ms'', ''canceled_at'']"

definition update_token_transaction ::
  "int \<Rightarrow> (string \<times> col_value) list \<Rightarrow> 'a bill_world_scheme \<Rightarrow> (consume_error + unit) \<times> 'a bill_world_scheme" where
  "update_token_transaction i updates s =
     (if i = 0 then (Inl (ModelErr InvalidId), s)
      else if updates = [] then (Inr (), s)
      else if \<exists>u \<in> set updates. fst u \<notin> set txn_update_fields then (Inl BadField, s)
      else stmt (ModelErr DbError) (\<lambda>s. ((),
             s\<lparr>txns := map (\<lambda>b. if b_id b = i then fold set_column updates b else b) (txns s)\<rparr>)) s)"

definition auto_confirm_columns :: "int \<Rightarrow> int \<Rightarrow> (string \<times> col_value) list" where
  "auto_confirm_columns now q = [(''status'', IntV auto_confirmed_status), (''final_quota'', IntV q),
     (''confirmed_at'', IntV now), (''auto_confirmed'', BoolV True), (''expires_at'', IntV 0)]"

fun auto_confirm_each ::
  "int \<Rightarrow> txn_row list \<Rightarrow> 'a bill_world_scheme \<Rightarrow> (consume_error + unit) \<times> 'a bill_world_scheme" where
  "auto_confirm_each now [] s = (Inr (), s)"
| "auto_confirm_each now (b # bs) s =
     bindE (update_token_transaction (b_id b) (auto_confirm_columns now (b_pre_quota b)) s)
       (\<lambda>_ s. auto_confirm_each now bs s)"

definition overdue :: "int \<Rightarrow> int \<Rightarrow> txn_row \<Rightarrow> bool" where
  "overdue tid now b \<longleftrightarrow> b_token_id b = tid \<and> b_status b = pending_status \<and>
     b_expires_at b > 0 \<and> b_expires_at b \<le> now"

definition auto_confirm_expired ::
  "int \<Rightarrow> int \<Rightarrow> 'a bill_world_scheme \<Rightarrow> (consume_error + txn_row list) \<times> 'a bill_world_scheme" where
  "auto_confirm_expired tid now s =
     bindE (stmt (ModelErr DbError) (\<lambda>s. (filter (overdue tid now) (txns s), s)) s) (\<lambda>pending s.
     bindE (auto_confirm_each now pending s) (\<lambda>_ s.
       (Inr (map (\<lambda>b. b\<lparr>b_status := auto_confirmed_status, b_auto_confirmed := True,
          b_final_quota := Some (b_pre_quota b), b_confirmed_at := Some now\<rparr>) pending), s)))"

subsection \<open>Consume logs\<close>

definition clamp_quota_to_int :: "int \<Rightarrow> int" where
  "clamp_quota_to_int q = (if q > 2 ^ 31 - 1 then 2 ^ 31 - 1 else if q < - (2 ^ 31) then - (2 ^ 31) else q)"

text \<open>The id the new entry got; 0 when logging is off or the insert failed.\<close>

definition record_consume_log :: "log_row \<Rightarrow> 'a bill_world_scheme \<Rightarrow> int \<times> 'a bill_world_scheme" where
  "record_consume_log l s =
     (if \<not> log_consume_enabled s then (0, s)
      else case stmt () (\<lambda>s. (next_log_id s,
             s\<lparr>logs := (logs s)(next_log_id s \<mapsto> l), next_log_id := next_log_id s + 1\<rparr>))
             (snd (stmt () (\<lambda>s. ((), s)) s)) of
        (Inl _, s') \<Rightarrow> (0, s') | (Inr i, s') \<Rightarrow> (i, s'))"

definition update_consume_log ::
  "int \<Rightarrow> int \<Rightarrow> int option \<Rightarrow> 'a bill_world_scheme \<Rightarrow> 'a bill_world_scheme" where
  "update_consume_log i q elapsed s =
     (if i \<le> 0 then s
      else snd (stmt () (\<lambda>s. ((), s\<lparr>logs := (logs s)(i := map_option
             (\<lambda>l. l\<lparr>l_quota := q,
                l_elapsed_time := (case elapsed of None \<Rightarrow> l_elapsed_time l | Some e \<Rightarrow> e)\<rparr>)
             (logs s i))\<rparr>)) s))"

subsection \<open>Helpers of the handler\<close>

definition quota_to_int64 :: "int \<Rightarrow> consume_error + int" where
  "quota_to_int64 v = (if v > 2 ^ 63 - 1 then Inl QuotaRange else Inr v)"

definition normalize_timeout_seconds :: "int \<Rightarrow> int \<Rightarrow> int option \<Rightarrow> int" where
  "normalize_timeout_seconds defaultTimeout maxTimeout requested =
     (let d = (if defaultTimeout \<le> 0 then 600 else defaultTimeout);
          t = (case requested of None \<Rightarrow> d | Some r \<Rightarrow> if r > 0 then r else d)
      in if maxTimeout > 0 \<and> t > maxTimeout then maxTimeout else t)"

definition get_uuid :: "'a bill_world_scheme \<Rightarrow> string \<times> 'a bill_world_scheme" where
  "get_uuid s = (uuid_stream s (next_uuid s), s\<lparr>next_uuid := next_uuid s + 1\<rparr>)"

fun try_transaction_ids ::
  "nat \<Rightarrow> int \<Rightarrow> 'a bill_world_scheme \<Rightarrow> (consume_error + string) \<times> 'a bill_world_scheme" where
  "try_transaction_ids 0 tid s = (Inl NoUniqueId, s)"
| "try_transaction_ids (Suc n) tid s =
     (let (candidate, s) = get_uuid s in
      case get_token_transaction tid candidate s of
        (Inr _, s) \<Rightarrow> try_transaction_ids n tid s
      | (Inl e, s) \<Rightarrow> if e = ModelErr RecordNotFound then (Inr candidate, s) else (Inl e, s))"

definition generate_transaction_id ::
  "int \<Rightarrow> 'a bill_world_scheme \<Rightarrow> (consume_error + string) \<times> 'a bill_world_scheme" where
  "generate_transaction_id tid s = try_transaction_ids 5 tid s"

definition get_token_by_ids ::
  "int \<Rightarrow> int \<Rightarrow> 'a bill_world_scheme \<Rightarrow> (consume_error + token_row) \<times> 'a bill_world_scheme" where
  "get_token_by_ids tid uid s =
     (if tid = 0 \<or> uid = 0 then (Inl (ModelErr InvalidId), s)
      else bindE (stmt (ModelErr DbError) (\<lambda>s. (tokens s tid, s)) s) (\<lambda>r s.
        case r of None \<Rightarrow> (Inl (ModelErr RecordNotFound), s)
        | Some t \<Rightarrow> if t_user_id t = uid then (Inr t, s) else (Inl (ModelErr RecordNotFound), s)))"

definition token_status_enabled :: int where "token_status_enabled = 1"

definition validate_token_for_consumption :: "int \<Rightarrow> token_row \<Rightarrow> consume_error + unit" where
  "validate_token_for_consumption now t =
     (if t_status t \<noteq> token_status_enabled then Inl NotEnabled
      else if t_expired_time t \<noteq> -1 \<and> t_expired_time t \<le> now then Inl Expired
      else if \<not> t_unlimited_quota t \<and> t_remain_quota t \<le> 0 then Inl Exhausted
      else Inr ())"

definition positive_elapsed :: "consume_req \<Rightarrow> int option" where
  "positive_elapsed req = (case elapsed_time_ms req of
     Some e \<Rightarrow> if e > 0 then Some e else None | None \<Rightarrow> None)"

subsection \<open>The phases\<close>

definition process_pre_consume ::
  "int \<Rightarrow> token_row \<Rightarrow> int \<Rightarrow> consume_req \<Rightarrow> 'a bill_world_scheme \<Rightarrow>
   (consume_error + txn_row \<times> token_row) \<times> 'a bill_world_scheme" where
  "process_pre_consume tid tok uid req s =
     (if add_used_quota req = 0 then (Inl ZeroQuota, s)
      else case quota_to_int64 (add_used_quota req) of
        Inl e \<Rightarrow> (Inl e, s)
      | Inr preQuota \<Rightarrow>
        bindE (generate_transaction_id tid s) (\<lambda>transactionID s.
        let expiresAt = i64 (clock s + normalize_timeout_seconds (billing_default_timeout s)
              (billing_max_timeout s) (timeout_seconds req)) in
        bindE (lift_e (pre_consume_token_quota tid preQuota s)) (\<lambda>_ s.
        let (logId, s) = record_consume_log \<lparr>l_user_id = uid, l_model_name = add_reason req,
              l_token_name = t_name tok, l_quota = clamp_quota_to_int preQuota, l_elapsed_time = 0\<rparr> s in
        case create_token_transaction \<lparr>b_id = 0, b_transaction_id = transactionID, b_token_id = tid,
              b_user_id = uid, b_status = pending_status, b_pre_quota = preQuota, b_final_quota = None,
              b_reason = add_reason req, b_expires_at = expiresAt, b_confirmed_at = None,
              b_canceled_at = None, b_auto_confirmed = False, b_log_id = Some logId,
              b_elapsed_time_ms = positive_elapsed req\<rparr> s of
          (Inl e, s) \<Rightarrow>
            (let s = snd (post_consume_token_quota tid (- preQuota) s)
             in (Inl e, if logId > 0 then update_consume_log logId 0 None s else s))
        | (Inr b, s) \<Rightarrow> bindE (get_token_by_ids tid uid s) (\<lambda>tok s. (Inr (b, tok), s)))))"

definition find_transaction ::
  "int \<Rightarrow> consume_req \<Rightarrow> txn_row option \<Rightarrow> 'a bill_world_scheme \<Rightarrow>
   (consume_error + txn_row) \<times> 'a bill_world_scheme" where
  "find_transaction tid req existing s =
     (let x = (case transaction_id req of None \<Rightarrow> [] | Some i \<Rightarrow> trim_space i) in
      if x = [] then (Inl NoTransactionId, s)
      else bindE (case existing of Some b \<Rightarrow> (Inr b, s) | None \<Rightarrow> get_token_transaction tid x s) (\<lambda>b s.
        if b_status b \<noteq> pending_status then (Inl (NotPending (b_status b)), s) else (Inr b, s)))"

definition post_final_quota :: "consume_req \<Rightarrow> consume_error + int" where
  "post_final_quota req =
     (case final_used_quota req of
        Some v \<Rightarrow> quota_to_int64 v
      | None \<Rightarrow> if add_used_quota req = 0 then Inl ZeroQuota else quota_to_int64 (add_used_quota req))"

definition confirm_columns :: "int \<Rightarrow> int \<Rightarrow> consume_req \<Rightarrow> (string \<times> col_value) list" where
  "confirm_columns now q req =
     [(''status'', IntV confirmed_status), (''final_quota'', IntV q), (''confirmed_at'', IntV now),
      (''auto_confirmed'', BoolV False), (''expires_at'', IntV 0), (''reason'', StrV (add_reason req))] @
     (case positive_elapsed req of None \<Rightarrow> [] | Some e \<Rightarrow> [(''elapsed_time_ms'', IntV e)])"

text \<open>The part after the checks, on the row read before.\<close>

definition settle_transaction ::
  "int \<Rightarrow> int \<Rightarrow> consume_req \<Rightarrow> txn_row \<Rightarrow> int \<Rightarrow> 'a bill_world_scheme \<Rightarrow>
   (consume_error + txn_row \<times> token_row) \<times> 'a bill_world_scheme" where
  "settle_transaction tid uid req b finalQuota s =
     (let delta = i64 (finalQuota - b_pre_quota b); now = clock s in
      bindE (if delta \<noteq> 0 then lift_e (post_consume_token_quota tid delta s) else (Inr (), s)) (\<lambda>_ s.
      case update_token_transaction (b_id b) (confirm_columns now finalQuota req) s of
        (Inl e, s) \<Rightarrow> (Inl e, if delta \<noteq> 0 then snd (post_consume_token_quota tid (i64 (- delta)) s) else s)
      | (Inr _, s) \<Rightarrow>
        (let b' = b\<lparr>b_status := confirmed_status, b_auto_confirmed := False, b_final_quota := Some finalQuota,
               b_reason := add_reason req, b_confirmed_at := Some now,
               b_elapsed_time_ms := (case positive_elapsed req of None \<Rightarrow> b_elapsed_time_ms b | e \<Rightarrow> e)\<rparr>;
             s = (case b_log_id b of None \<Rightarrow> s
                  | Some i \<Rightarrow> update_consume_log i (clamp_quota_to_int finalQuota) (positive_elapsed req) s)
         in bindE (get_token_by_ids tid uid s) (\<lambda>tok s. (Inr (b', tok), s)))))"

definition process_post_consume ::
  "int \<Rightarrow> int \<Rightarrow> consume_req \<Rightarrow> txn_row option \<Rightarrow> 'a bill_world_scheme \<Rightarrow>
   (consume_error + txn_row \<times> token_row) \<times> 'a bill_world_scheme" where
  "process_post_consume tid uid req existing s =
     bindE (find_transaction tid req existing s) (\<lambda>b s.
       case post_final_quota req of
         Inl e \<Rightarrow> (Inl e, s)
       | Inr finalQuota \<Rightarrow> settle_transaction tid uid req b finalQuota s)"

definition cancel_columns :: "int \<Rightarrow> (string \<times> col_value) list" where
  "cancel_columns now = [(''status'', IntV canceled_status), (''canceled_at'', IntV now),
     (''final_quota'', IntV 0), (''expires_at'', IntV 0)]"

definition refund_transaction ::
  "int \<Rightarrow> int \<Rightarrow> txn_row \<Rightarrow> 'a bill_world_scheme \<Rightarrow>
   (consume_error + txn_row \<times> token_row) \<times> 'a bill_world_scheme" where
  "refund_transaction tid uid b s =
     bindE (lift_e (post_consume_token_quota tid (i64 (- b_pre_quota b)) s)) (\<lambda>_ s.
     let now = clock s in
     case update_token_transaction (b_id b) (cancel_columns now) s of
       (Inl e, s) \<Rightarrow> (Inl e, snd (post_consume_token_quota tid (b_pre_quota b) s))
     | (Inr _, s) \<Rightarrow>
       (let b' = b\<lparr>b_status := canceled_status, b_canceled_at := Some now, b_final_quota := Some 0,
              b_auto_confirmed := False\<rparr>;
            s = (case b_log_id b of None \<Rightarrow> s | Some i \<Rightarrow> update_consume_log i 0 (b_elapsed_time_ms b) s)
        in bindE (get_token_by_ids tid uid s) (\<lambda>tok s. (Inr (b', tok), s))))"

definition process_cancel_consume ::
  "int \<Rightarrow> int \<Rightarrow> consume_req \<Rightarrow> 'a bill_world_scheme \<Rightarrow>
   (consume_error + txn_row \<times> token_row) \<times> 'a bill_world_scheme" where
  "process_cancel_consume tid uid req s =
     bindE (find_transaction tid req None s) (\<lambda>b s. refund_transaction tid uid b s)"

definition process_immediate_consume ::
  "int \<Rightarrow> token_row \<Rightarrow> int \<Rightarrow> consume_req \<Rightarrow> 'a bill_world_scheme \<Rightarrow>
   (consume_error + txn_row \<times> token_row) \<times> 'a bill_world_scheme" where
  "process_immediate_consume tid tok uid req s =
     (if add_used_quota req = 0 then (Inl ZeroQuota, s)
      else let x = (case transaction_id req of None \<Rightarrow> [] | Some i \<Rightarrow> trim_space i);
               s = (if x = [] then snd (get_uuid s) else s) in
      bindE (process_pre_consume tid tok uid req s) (\<lambda>(b, tok) s.
        process_post_consume tid uid (req\<lparr>transaction_id := Some (b_transaction_id b),
          phase := Some ''post'', final_used_quota := Some (add_used_quota req)\<rparr>) (Some b) s))"

definition auto_confirm_handler ::
  "int \<Rightarrow> 'a bill_world_scheme \<Rightarrow> (consume_error + unit) \<times> 'a bill_world_scheme" where
  "auto_confirm_handler tid s =
     bindE (auto_confirm_expired tid (clock s) s) (\<lambda>bs s.
       (Inr (), fold (\<lambda>b s. case b_log_id b of None \<Rightarrow> s
          | Some i \<Rightarrow> update_consume_log i (clamp_quota_to_int (b_pre_quota b)) (b_elapsed_time_ms b) s) bs s))"

text \<open>The handler after the overdue holds are confirmed; \<open>None\<close> is a body that does not parse.\<close>

definition consume_body ::
  "int \<Rightarrow> int \<Rightarrow> consume_req option \<Rightarrow> 'a bill_world_scheme \<Rightarrow>
   (consume_error + txn_row \<times> token_row) \<times> 'a bill_world_scheme" where
  "consume_body uid tid body s =
     (case body of
       None \<Rightarrow> (Inl BadField, s)
     | Some req0 \<Rightarrow>
       (let req = req0\<lparr>add_reason := trim_space (add_reason req0)\<rparr> in
        if add_reason req = [] then (Inl EmptyReason, s)
        else let ph = (case phase req of None \<Rightarrow> [] | Some p \<Rightarrow> to_lower (trim_space p));
                 ph = (if ph = [] then ''single'' else ph) in
        bindE (get_token_by_ids tid uid s) (\<lambda>tok s.
        case validate_token_for_consumption (clock s) tok of
          Inl e \<Rightarrow> (Inl e, s)
        | Inr _ \<Rightarrow>
            if ph = ''pre'' then process_pre_consume tid tok uid req s
            else if ph = ''post'' then process_post_consume tid uid req None s
            else if ph = ''cancel'' then process_cancel_consume tid uid req s
            else if ph = ''single'' then process_immediate_consume tid tok uid req s
            else (Inl BadPhase, s))))"

definition consume_token ::
  "int \<Rightarrow> int \<Rightarrow> consume_req option \<Rightarrow> 'a bill_world_scheme \<Rightarrow>
   (consume_error + txn_row \<times> token_row) \<times> 'a bill_world_scheme" where
  "consume_token uid tid body s =
     bindE (auto_confirm_handler tid s) (\<lambda>_ s. consume_body uid tid body s)"

subsection \<open>What each part leaves of the transaction table\<close>

definition same_txns :: "'a bill_world_scheme \<Rightarrow> 'a bill_world_scheme \<Rightarrow> bool" where
  "same_txns s t \<longleftrightarrow> txns t = txns s \<and> next_txn_id t = next_txn_id s"

lemma same_txns_refl [simp]: "same_txns s s"
  by (simp add: same_txns_def)

lemma same_txns_trans: "same_txns s t \<Longrightarrow> same_txns t u \<Longrightarrow> same_txns s u"
  by (simp add: same_txns_def)

lemma same_txns_outcomes [simp]: "same_txns s (s\<lparr>outcomes := rs\<rparr>)"
  by (simp add: same_txns_def)

lemma aside_txns: "aside s t \<Longrightarrow> same_txns s t"
  for s t :: "'a bill_world_scheme"
  by (cases s, cases t) (simp add: aside_def same_txns_def)

lemma quota_same_txns:
  "same_txns s (snd (pre_consume_token_quota tid q s))"
  "same_txns s (snd (post_consume_token_quota tid q s))"
  "pre_consume_token_quota tid q s = (r, s') \<Longrightarrow> same_txns s s'"
  "post_consume_token_quota tid q s = (r', s') \<Longrightarrow> same_txns s s'"
  using aside_txns [OF pre_consume_aside [of s tid q]] aside_txns [OF post_consume_aside [of s tid q]]
  by auto

lemma stmt_same_txns:
  assumes "stmt e f s = (r, s')" and "\<And>u. same_txns u (snd (f u))"
  shows "same_txns s s'"
  using assms(1)
proof (cases rule: stmt_result)
  case (failed rs)
  then show ?thesis by simp
next
  case (done_ rs a)
  with assms(2) [of "s\<lparr>outcomes := rs\<rparr>"] show ?thesis by (simp add: same_txns_def)
qed

lemma record_consume_log_same: "record_consume_log l s = (i, s') \<Longrightarrow> same_txns s s'"
proof (cases "log_consume_enabled s")
  case True
  assume e: "record_consume_log l s = (i, s')"
  obtain r u where u: "stmt () (\<lambda>s. ((), s)) s = (r, u)" by fastforce
  obtain r' v where v: "stmt () (\<lambda>s. (next_log_id s,
      s\<lparr>logs := (logs s)(next_log_id s \<mapsto> l), next_log_id := next_log_id s + 1\<rparr>)) u = (r', v)"
    by fastforce
  have "same_txns s u" by (rule stmt_same_txns [OF u]) simp
  moreover have "same_txns u v" by (rule stmt_same_txns [OF v]) (simp add: same_txns_def)
  ultimately have "same_txns s v" "same_txns s u" by (auto intro: same_txns_trans)
  with e u v True show ?thesis
    by (auto simp: record_consume_log_def split: sum.splits intro: same_txns_trans)
qed (simp add: record_consume_log_def)

lemma update_consume_log_same: "same_txns s (update_consume_log i q e s)"
proof -
  obtain r v where v: "stmt () (\<lambda>s. ((), s\<lparr>logs := (logs s)(i := map_option
             (\<lambda>l. l\<lparr>l_quota := q,
                l_elapsed_time := (case e of None \<Rightarrow> l_elapsed_time l | Some e \<Rightarrow> e)\<rparr>)
             (logs s i))\<rparr>)) s = (r, v)"
    by fastforce
  then have "same_txns s v" by (rule stmt_same_txns) (simp add: same_txns_def)
  with v show ?thesis by (simp add: update_consume_log_def)
qed

lemma get_token_transaction_same:
  assumes "get_token_transaction tid x s = (r, s')"
  shows "same_txns s s'" and "r = Inr b \<Longrightarrow> b \<in> set (txns s)"
proof -
  from assms show "same_txns s s'"
    by (auto simp: get_token_transaction_def elim!: bindE_result split: option.splits
        intro: stmt_same_txns)
  assume "r = Inr b"
  with assms show "b \<in> set (txns s)"
    by (auto simp: get_token_transaction_def find_Some_iff elim!: bindE_result stmt_result
        split: option.splits)
qed

lemma get_token_by_ids_same: "get_token_by_ids tid uid s = (r, s') \<Longrightarrow> same_txns s s'"
  by (auto simp: get_token_by_ids_def elim!: bindE_result split: option.splits if_splits
      intro: stmt_same_txns)

lemma try_transaction_ids_same: "try_transaction_ids n tid s = (r, s') \<Longrightarrow> same_txns s s'"
proof (induction n arbitrary: s)
  case (Suc n)
  define u where "u = s\<lparr>next_uuid := Suc (next_uuid s)\<rparr>"
  have su: "same_txns s u" by (simp add: u_def same_txns_def)
  obtain q v where v: "get_token_transaction tid (uuid_stream s (next_uuid s)) u = (q, v)" by fastforce
  from same_txns_trans [OF su get_token_transaction_same(1) [OF v]] have sv: "same_txns s v" .
  show ?case
  proof (cases q)
    case (Inl e)
    with Suc.prems v sv show ?thesis
      by (auto simp: get_uuid_def u_def [symmetric] split: if_splits)
  next
    case (Inr b)
    with Suc.prems v have "try_transaction_ids n tid v = (r, s')"
      by (simp add: get_uuid_def u_def [symmetric])
    from same_txns_trans [OF sv Suc.IH [OF this]] show ?thesis .
  qed
qed simp

subsection \<open>Settled transactions stay as they are\<close>

definition txns_ok :: "'a bill_world_scheme \<Rightarrow> bool" where
  "txns_ok s \<longleftrightarrow> distinct (map b_id (txns s)) \<and> 0 < next_txn_id s \<and>
     (\<forall>b \<in> set (txns s). 0 < b_id b \<and> b_id b < next_txn_id s)"

text \<open>Rows no longer pending are kept as they are, and the table stays sound.\<close>

definition settles :: "'a bill_world_scheme \<Rightarrow> 'a bill_world_scheme \<Rightarrow> bool" where
  "settles s t \<longleftrightarrow> (txns_ok s \<longrightarrow> txns_ok t \<and>
     (\<forall>b \<in> set (txns s). b_status b \<noteq> pending_status \<longrightarrow> b \<in> set (txns t)))"

lemma settles_trans: "settles s t \<Longrightarrow> settles t u \<Longrightarrow> settles s u"
  by (auto simp: settles_def)

lemma same_txns_settles: "same_txns s t \<Longrightarrow> settles s t"
  by (auto simp: settles_def same_txns_def txns_ok_def)

lemma settles_refl [simp]: "settles s s"
  by (simp add: same_txns_settles)

lemma set_columns_id [simp]: "b_id (fold set_column us b) = b_id b"
proof (induction us arbitrary: b)
  case (Cons u us)
  have "b_id (set_column u b) = b_id b" by (cases "(u, b)" rule: set_column.cases) auto
  with Cons show ?case by simp
qed simp

lemma update_txn_map_ok:
  assumes "txns_ok s"
    and "txns t = map (\<lambda>b. if b_id b = i then fold set_column us b else b) (txns s)"
    and "next_txn_id t = next_txn_id s"
  shows "txns_ok t"
proof -
  have "map b_id (txns t) = map b_id (txns s)" by (simp add: assms(2))
  moreover have "\<forall>b \<in> set (txns t). \<exists>c \<in> set (txns s). b_id b = b_id c" by (auto simp: assms(2))
  ultimately show ?thesis using assms(1,3) by (auto simp: txns_ok_def)
qed

lemma update_txn_result:
  assumes "update_token_transaction i us s = (r, s')"
  obtains (failed) e where "r = Inl e" and "same_txns s s'"
  | (done_) "r = Inr ()" and "next_txn_id s' = next_txn_id s"
      and "txns s' = map (\<lambda>b. if b_id b = i then fold set_column us b else b) (txns s)"
  using assms
  by (auto simp: update_token_transaction_def same_txns_def map_idI split: if_splits elim!: stmt_result)

lemma update_pending_settles:
  assumes "update_token_transaction i us s = (r, s')"
    and "\<And>b. b \<in> set (txns s) \<Longrightarrow> b_id b = i \<Longrightarrow> b_status b = pending_status"
  shows "settles s s'"
  using assms(1)
proof (cases rule: update_txn_result)
  case (failed e)
  then show ?thesis by (simp add: same_txns_settles)
next
  case done_
  then have "b \<in> set (txns s')" if "b \<in> set (txns s)" "b_status b \<noteq> pending_status" for b
    using that assms(2) [of b] by (auto simp: image_iff intro!: bexI [of _ b])
  with done_ show ?thesis by (auto simp: settles_def intro: update_txn_map_ok)
qed

lemma txns_ok_id:
  "txns_ok s \<Longrightarrow> b \<in> set (txns s) \<Longrightarrow> c \<in> set (txns s) \<Longrightarrow> b_id b = b_id c \<Longrightarrow> b = c"
  using distinct_map_eqD [of b_id "txns s" b c] by (simp add: txns_ok_def)

lemma same_txns_ok: "same_txns s t \<Longrightarrow> txns_ok t = txns_ok s"
  by (simp add: same_txns_def txns_ok_def)

text \<open>An update through a row that is in the table and pending.\<close>

lemma update_row_settles:
  assumes "update_token_transaction (b_id b) us s = (r, s')"
    and "txns_ok s \<Longrightarrow> b \<in> set (txns s)" and "b_status b = pending_status"
  shows "settles s s'"
proof (cases "txns_ok s")
  case True
  show ?thesis
  proof (rule update_pending_settles [OF assms(1)])
    fix c assume "c \<in> set (txns s)" "b_id c = b_id b"
    with txns_ok_id [OF True this(1) assms(2) [OF True]] assms(3) show "b_status c = pending_status" by simp
  qed
qed (simp add: settles_def)

lemma auto_confirm_each_settles:
  assumes "auto_confirm_each now bs s = (r, s')" and "distinct (map b_id bs)"
    and "\<And>b. b \<in> set bs \<Longrightarrow> b \<in> set (txns s) \<and> b_status b = pending_status"
  shows "settles s s'"
  using assms
proof (induction bs arbitrary: s)
  case (Cons b bs)
  obtain q u where u: "update_token_transaction (b_id b) (auto_confirm_columns now (b_pre_quota b)) s = (q, u)"
    by fastforce
  then have su: "settles s u"
    by (rule update_row_settles) (use Cons.prems(3) in auto)
  show ?case
  proof (cases q)
    case (Inl e)
    with Cons.prems(1) u su show ?thesis by simp
  next
    case (Inr x)
    with Cons.prems(1) u have rest: "auto_confirm_each now bs u = (r, s')" by simp
    have "c \<in> set (txns u) \<and> b_status c = pending_status" if c: "c \<in> set bs" for c
    proof -
      have "b_id c \<noteq> b_id b" using c Cons.prems(2) by (auto simp: image_iff)
      moreover from c Cons.prems(3) have "c \<in> set (txns s)" "b_status c = pending_status" by auto
      ultimately show ?thesis
        using u by (auto elim!: update_txn_result simp: same_txns_def image_iff intro!: bexI [of _ c])
    qed
    from Cons.IH [OF rest _ this] Cons.prems(2) have "settles u s'" by simp
    with su show ?thesis by (rule settles_trans)
  qed
qed simp

lemma distinct_map_filter_id: "distinct (map f xs) \<Longrightarrow> distinct (map f (filter P xs))"
  by (rule distinct_map_filter)

lemma auto_confirm_expired_settles:
  assumes "auto_confirm_expired tid now s = (r, s')"
  shows "settles s s'"
proof (cases "txns_ok s")
  case ok: True
  from assms show ?thesis
    unfolding auto_confirm_expired_def
  proof (cases rule: bindE_result)
    case (left e)
    then have "same_txns s s'" by (auto elim: stmt_same_txns)
    then show ?thesis by (rule same_txns_settles)
  next
    case (right bs u)
    then have su: "same_txns s u" and bs: "bs = filter (overdue tid now) (txns s)"
      by (auto elim: stmt_same_txns elim!: stmt_result)
    from right(2) obtain q where "auto_confirm_each now bs u = (q, s')"
      by (auto elim!: bindE_result)
    then have "settles u s'"
      by (rule auto_confirm_each_settles)
         (use ok su in \<open>auto simp: bs overdue_def same_txns_def txns_ok_def distinct_map_filter_id\<close>)
    with same_txns_settles [OF su] show ?thesis by (rule settles_trans)
  qed
qed (simp add: settles_def)

lemma log_updates_same: "same_txns s (fold (\<lambda>b s. case b_log_id b of None \<Rightarrow> s
          | Some i \<Rightarrow> update_consume_log i (f b) (g b) s) bs s)"
proof (induction bs arbitrary: s)
  case (Cons b bs)
  have "same_txns s (case b_log_id b of None \<Rightarrow> s | Some i \<Rightarrow> update_consume_log i (f b) (g b) s)"
    by (simp add: update_consume_log_same split: option.splits)
  from same_txns_trans [OF this Cons] show ?case by simp
qed simp

lemma auto_confirm_handler_settles:
  "auto_confirm_handler tid s = (r, s') \<Longrightarrow> settles s s'"
  unfolding auto_confirm_handler_def
  by (erule bindE_result)
     (auto dest!: auto_confirm_expired_settles intro: settles_trans [OF _ same_txns_settles [OF log_updates_same]])

subsection \<open>The phases settle\<close>

lemma find_transaction_result:
  assumes "find_transaction tid req existing s = (r, s')"
  shows "same_txns s s'"
    and "r = Inr b \<Longrightarrow> b_status b = pending_status \<and> (if existing = None then b \<in> set (txns s) else existing = Some b)"
proof -
  from assms show "same_txns s s'"
    by (auto simp: find_transaction_def Let_def elim!: bindE_result split: if_splits option.splits
        dest: get_token_transaction_same)
  assume "r = Inr b"
  with assms show "b_status b = pending_status \<and> (if existing = None then b \<in> set (txns s) else existing = Some b)"
    by (auto simp: find_transaction_def Let_def elim!: bindE_result split: if_splits option.splits
        dest: get_token_transaction_same(2))
qed

lemma finish_settles:
  assumes "update_token_transaction (b_id b) us u = (q, v)" and "same_txns s u"
    and "txns_ok s \<Longrightarrow> b \<in> set (txns s)" and "b_status b = pending_status" and "same_txns v w"
  shows "settles s w"
proof -
  have "settles u v"
    by (rule update_row_settles [OF assms(1)])
       (use assms(2-4) same_txns_ok [OF assms(2)] in \<open>auto simp: same_txns_def\<close>)
  then show ?thesis
    by (rule settles_trans [OF same_txns_settles [OF assms(2)]
          settles_trans [OF _ same_txns_settles [OF assms(5)]]])
qed

lemma settle_transaction_settles:
  assumes e: "settle_transaction tid uid req b q s = (r, s')"
    and b: "txns_ok s \<Longrightarrow> b \<in> set (txns s)" "b_status b = pending_status"
  shows "settles s s'"
proof -
  let ?d = "i64 (q - b_pre_quota b)"
  obtain r1 u where u: "(if ?d \<noteq> 0 then lift_e (post_consume_token_quota tid ?d s) else (Inr (), s)) = (r1, u)"
    by fastforce
  then have su: "same_txns s u"
    by (auto simp: lift_e_def split: if_splits prod.splits sum.splits dest: quota_same_txns(4))
  obtain r2 v where v: "update_token_transaction (b_id b) (confirm_columns (clock s) q req) u = (r2, v)"
    by fastforce
  note fin = finish_settles [OF v su b]
  show ?thesis
  proof (cases r1)
    case (Inl x)
    with e u su show ?thesis by (auto simp: settle_transaction_def Let_def intro: same_txns_settles)
  next
    case r1: (Inr x)
    show ?thesis
    proof (cases r2)
      case (Inl y)
      with e u r1 v have "s' = (if ?d \<noteq> 0 then snd (post_consume_token_quota tid (i64 (- ?d)) v) else v)"
        by (simp add: settle_transaction_def Let_def)
      then show ?thesis by (auto intro!: fin quota_same_txns(2))
    next
      case (Inr y)
      define w where "w = (case b_log_id b of None \<Rightarrow> v
          | Some i \<Rightarrow> update_consume_log i (clamp_quota_to_int q) (positive_elapsed req) v)"
      have vw: "same_txns v w" by (simp add: w_def update_consume_log_same split: option.splits)
      obtain r3 z where z: "get_token_by_ids tid uid w = (r3, z)" by fastforce
      from e u r1 v Inr z have "s' = z"
        by (cases r3) (simp_all add: settle_transaction_def Let_def w_def [symmetric])
      with z have "same_txns w s'" by (auto dest: get_token_by_ids_same)
      with vw show ?thesis by (blast intro: fin same_txns_trans)
    qed
  qed
qed

lemma process_post_settles:
  assumes "process_post_consume tid uid req existing s = (r, s')"
    and "\<And>b. existing = Some b \<Longrightarrow> txns_ok s \<Longrightarrow> b \<in> set (txns s)"
  shows "settles s s'"
  using assms(1) unfolding process_post_consume_def
proof (cases rule: bindE_result)
  case (left e)
  then show ?thesis by (auto dest: find_transaction_result(1) intro: same_txns_settles)
next
  case (right b u)
  note su = find_transaction_result(1) [OF right(1)]
  from find_transaction_result(2) [OF right(1) refl]
  have b: "b_status b = pending_status" "txns_ok u \<Longrightarrow> b \<in> set (txns u)"
    using assms(2) su same_txns_ok [OF su] by (auto simp: same_txns_def split: if_splits)
  show ?thesis
  proof (cases "post_final_quota req")
    case (Inl e)
    with right su show ?thesis by (auto intro: same_txns_settles)
  next
    case (Inr q)
    with right have "settle_transaction tid uid req b q u = (r, s')" by simp
    from settle_transaction_settles [OF this b(2,1)] same_txns_settles [OF su]
    show ?thesis by (blast intro: settles_trans)
  qed
qed

lemma refund_transaction_settles:
  assumes e: "refund_transaction tid uid b s = (r, s')"
    and b: "txns_ok s \<Longrightarrow> b \<in> set (txns s)" "b_status b = pending_status"
  shows "settles s s'"
proof -
  obtain r1 u where u: "lift_e (post_consume_token_quota tid (i64 (- b_pre_quota b)) s) = (r1, u)"
    by fastforce
  then have su: "same_txns s u"
    by (auto simp: lift_e_def split: prod.splits sum.splits dest: quota_same_txns(4))
  obtain r2 v where v: "update_token_transaction (b_id b) (cancel_columns (clock u)) u = (r2, v)"
    by fastforce
  note fin = finish_settles [OF v su b]
  show ?thesis
  proof (cases r1)
    case (Inl x)
    with e u su show ?thesis by (auto simp: refund_transaction_def Let_def intro: same_txns_settles)
  next
    case r1: (Inr x)
    show ?thesis
    proof (cases r2)
      case (Inl y)
      with e u r1 v have "s' = snd (post_consume_token_quota tid (b_pre_quota b) v)"
        by (simp add: refund_transaction_def Let_def)
      then show ?thesis by (auto intro!: fin quota_same_txns(2))
    next
      case (Inr y)
      define w where "w = (case b_log_id b of None \<Rightarrow> v
          | Some i \<Rightarrow> update_consume_log i 0 (b_elapsed_time_ms b) v)"
      have vw: "same_txns v w" by (simp add: w_def update_consume_log_same split: option.splits)
      obtain r3 z where z: "get_token_by_ids tid uid w = (r3, z)" by fastforce
      from e u r1 v Inr z have "s' = z"
        by (cases r3) (simp_all add: refund_transaction_def Let_def w_def [symmetric])
      with z have "same_txns w s'" by (auto dest: get_token_by_ids_same)
      with vw show ?thesis by (blast intro: fin same_txns_trans)
    qed
  qed
qed

lemma process_cancel_settles:
  assumes "process_cancel_consume tid uid req s = (r, s')"
  shows "settles s s'"
  using assms unfolding process_cancel_consume_def
proof (cases rule: bindE_result)
  case (left e)
  then show ?thesis by (auto dest: find_transaction_result(1) intro: same_txns_settles)
next
  case (right b u)
  note su = find_transaction_result(1) [OF right(1)]
  from find_transaction_result(2) [OF right(1) refl] su
  have "b_status b = pending_status" "b \<in> set (txns u)" by (auto simp: same_txns_def)
  from refund_transaction_settles [OF right(2)] this same_txns_settles [OF su]
  show ?thesis by (blast intro: settles_trans)
qed

lemma create_txn_settles:
  assumes "create_token_transaction b s = (r, s')"
  shows "settles s s'" and "r = Inr c \<Longrightarrow> c \<in> set (txns s') \<and> b_status c = b_status b"
proof -
  from assms show "settles s s'"
    by (auto simp: create_token_transaction_def settles_def txns_ok_def split: if_splits
        elim!: stmt_result) (force | simp)+
  assume "r = Inr c"
  with assms show "c \<in> set (txns s') \<and> b_status c = b_status b"
    by (auto simp: create_token_transaction_def split: if_splits elim!: stmt_result)
qed

lemma process_pre_settles:
  assumes e: "process_pre_consume tid tok uid req s = (r, s')"
  shows "settles s s'" and "r = Inr (b, t') \<Longrightarrow> b \<in> set (txns s') \<and> b_status b = pending_status"
proof -
  have "settles s s' \<and> (\<forall>b t'. r = Inr (b, t') \<longrightarrow> b \<in> set (txns s') \<and> b_status b = pending_status)"
  proof (cases "add_used_quota req = 0 \<or> (\<exists>x. quota_to_int64 (add_used_quota req) = Inl x)")
    case True
    then have "\<exists>x. process_pre_consume tid tok uid req s = (Inl x, s)"
      by (cases "add_used_quota req = 0") (auto simp: process_pre_consume_def)
    with e show ?thesis by auto
  next
    case False
    then obtain q where q: "quota_to_int64 (add_used_quota req) = Inr q" "add_used_quota req \<noteq> 0"
      by (cases "quota_to_int64 (add_used_quota req)") auto
    obtain r1 u where u: "generate_transaction_id tid s = (r1, u)" by fastforce
    then have su: "same_txns s u" by (simp add: generate_transaction_id_def try_transaction_ids_same)
    show ?thesis
    proof (cases r1)
      case (Inl x)
      with e q u su show ?thesis by (auto simp: process_pre_consume_def intro: same_txns_settles)
    next
      case r1: (Inr x)
      obtain r2 v where v: "lift_e (pre_consume_token_quota tid q u) = (r2, v)" by fastforce
      then have "same_txns u v"
        by (auto simp: lift_e_def split: prod.splits sum.splits dest: quota_same_txns(3))
      with su have sv: "same_txns s v" by (rule same_txns_trans)
      show ?thesis
      proof (cases r2)
        case (Inl y)
        with e q u r1 v sv show ?thesis
          by (auto simp: process_pre_consume_def Let_def intro: same_txns_settles)
      next
        case r2: (Inr y)
        obtain i w where w: "record_consume_log \<lparr>l_user_id = uid, l_model_name = add_reason req,
              l_token_name = t_name tok, l_quota = clamp_quota_to_int q, l_elapsed_time = 0\<rparr> v = (i, w)"
          by fastforce
        from same_txns_trans [OF sv record_consume_log_same [OF this]] have sw: "same_txns s w" .
        define nb where "nb = \<lparr>b_id = 0, b_transaction_id = x, b_token_id = tid,
              b_user_id = uid, b_status = pending_status, b_pre_quota = q, b_final_quota = None,
              b_reason = add_reason req, b_expires_at = i64 (clock u + normalize_timeout_seconds
                (billing_default_timeout u) (billing_max_timeout u) (timeout_seconds req)),
              b_confirmed_at = None, b_canceled_at = None, b_auto_confirmed = False, b_log_id = Some i,
              b_elapsed_time_ms = positive_elapsed req\<rparr>"
        obtain r3 z where z: "create_token_transaction nb w = (r3, z)" by fastforce
        from settles_trans [OF same_txns_settles [OF sw] create_txn_settles(1) [OF z]]
        have sz: "settles s z" .
        note pre = process_pre_consume_def [of tid tok uid req s] e q u r1 v r2 w z
        show ?thesis
        proof (cases r3)
          case (Inl a)
          with pre have r: "r = Inl a"
            and s': "s' = (let s = snd (post_consume_token_quota tid (- q) z)
              in if i > 0 then update_consume_log i 0 None s else s)"
            by (simp_all add: Let_def nb_def)
          have "same_txns z s'"
            by (auto simp: s' Let_def intro: quota_same_txns(2)
                same_txns_trans [OF quota_same_txns(2) update_consume_log_same])
          with sz r show ?thesis by (blast intro: settles_trans same_txns_settles)
        next
          case (Inr c)
          obtain r4 y where y: "get_token_by_ids tid uid z = (r4, y)" by fastforce
          with pre Inr have "s' = y" "r = (case r4 of Inl a \<Rightarrow> Inl a | Inr t \<Rightarrow> Inr (c, t))"
            by (cases r4; simp add: Let_def nb_def)+
          with y have "same_txns z s'" "\<forall>b t'. r = Inr (b, t') \<longrightarrow> b = c"
            by (auto dest: get_token_by_ids_same split: sum.splits)
          moreover from this(1) sz have "settles s s'" by (blast intro: settles_trans same_txns_settles)
          ultimately show ?thesis using create_txn_settles(2) [OF z Inr]
            by (auto simp: same_txns_def nb_def)
        qed
      qed
    qed
  qed
  then show "settles s s'" and "r = Inr (b, t') \<Longrightarrow> b \<in> set (txns s') \<and> b_status b = pending_status"
    by blast+
qed

lemma process_immediate_settles:
  assumes "process_immediate_consume tid tok uid req s = (r, s')"
  shows "settles s s'"
proof (cases "add_used_quota req = 0")
  case False
  define s1 where "s1 = (if (case transaction_id req of None \<Rightarrow> [] | Some i \<Rightarrow> trim_space i) = []
    then snd (get_uuid s) else s)"
  have "same_txns s s1" by (simp add: s1_def get_uuid_def same_txns_def)
  then have a: "settles s s1" by (rule same_txns_settles)
  obtain r1 u where u: "process_pre_consume tid tok uid req s1 = (r1, u)" by fastforce
  from process_pre_settles(1) [OF u] a have b: "settles s u" by (blast intro: settles_trans)
  show ?thesis
  proof (cases r1)
    case (Inl e)
    with assms u b False show ?thesis
      by (simp add: process_immediate_consume_def Let_def s1_def)
  next
    case (Inr p)
    obtain x t where p: "p = (x, t)" by fastforce
    from assms u False Inr p have "process_post_consume tid uid (req\<lparr>transaction_id := Some (b_transaction_id x),
          phase := Some ''post'', final_used_quota := Some (add_used_quota req)\<rparr>) (Some x) u = (r, s')"
      by (simp add: process_immediate_consume_def Let_def s1_def)
    then have "settles u s'"
      by (rule process_post_settles) (use process_pre_settles(2) [OF u] Inr p in auto)
    with b show ?thesis by (rule settles_trans)
  qed
qed (use assms in \<open>simp add: process_immediate_consume_def\<close>)

lemma consume_body_settles:
  assumes e: "consume_body uid tid body u = (r, s')"
  shows "settles u s'"
proof (cases body)
  case None
  with e show ?thesis by (simp add: consume_body_def)
next
  case (Some req0)
  define req where "req = req0\<lparr>add_reason := trim_space (add_reason req0)\<rparr>"
  show ?thesis
  proof (cases "add_reason req = []")
    case True
    with e Some show ?thesis by (simp add: consume_body_def req_def)
  next
    case False
    obtain r1 v where v: "get_token_by_ids tid uid u = (r1, v)" by fastforce
    then have uv: "settles u v" by (intro same_txns_settles get_token_by_ids_same)
    show ?thesis
    proof (cases r1)
      case (Inl x)
      with e Some False v uv show ?thesis by (auto simp: consume_body_def req_def Let_def)
    next
      case (Inr tok)
      from e Some False v Inr have "s' = v \<or> (\<exists>q. process_pre_consume tid tok uid req v = (q, s')) \<or>
          (\<exists>q. process_post_consume tid uid req None v = (q, s')) \<or>
          (\<exists>q. process_cancel_consume tid uid req v = (q, s')) \<or>
          (\<exists>q. process_immediate_consume tid tok uid req v = (q, s'))"
        by (auto simp: consume_body_def req_def Let_def split: sum.splits if_splits)
      then have "settles v s'"
        by (auto dest: process_pre_settles(1) process_post_settles process_cancel_settles
            process_immediate_settles)
      with uv show ?thesis by (rule settles_trans)
    qed
  qed
qed

lemma consume_token_settles:
  assumes "consume_token uid tid body s = (r, s')"
  shows "settles s s'"
  using assms unfolding consume_token_def
proof (cases rule: bindE_result)
  case (left e)
  then show ?thesis by (auto dest: auto_confirm_handler_settles)
next
  case (right x u)
  from settles_trans [OF auto_confirm_handler_settles [OF right(1)] consume_body_settles [OF right(2)]]
  show ?thesis .
qed

text \<open>A token's requests and the passing of time between them.\<close>

datatype bill_event = Tick int | Consume "consume_req option"

fun bill_step :: "int \<Rightarrow> int \<Rightarrow> bill_event \<Rightarrow> 'a bill_world_scheme \<Rightarrow> 'a bill_world_scheme" where
  "bill_step uid tid (Tick n) s = s\<lparr>clock := clock s + n\<rparr>"
| "bill_step uid tid (Consume body) s = snd (consume_token uid tid body s)"

lemma bill_step_settles: "settles s (bill_step uid tid e s)"
proof (cases e)
  case (Tick n)
  then show ?thesis by (auto intro!: same_txns_settles simp: same_txns_def)
next
  case (Consume body)
  obtain r s' where "consume_token uid tid body s = (r, s')" by fastforce
  with consume_token_settles [OF this] Consume show ?thesis by simp
qed

lemma bill_steps_settle: "settles s (fold (bill_step uid tid) es s)"
proof (induction es arbitrary: s)
  case (Cons e es)
  from settles_trans [OF bill_step_settles Cons] show ?case by simp
qed simp

subsection \<open>Holds and balances\<close>

text \<open>What a transaction has taken from its token, and what all of a token's have.\<close>

definition charged :: "txn_row \<Rightarrow> int" where
  "charged b = (case b_final_quota b of None \<Rightarrow> b_pre_quota b | Some q \<Rightarrow> q)"

definition held :: "int \<Rightarrow> 'a bill_world_scheme \<Rightarrow> int" where
  "held tid s = (\<Sum>b\<leftarrow>txns s. if b_token_id b = tid then charged b else 0)"

definition row_ok :: "txn_row \<Rightarrow> bool" where
  "row_ok b \<longleftrightarrow> 0 \<le> b_pre_quota b \<and> b_pre_quota b < 2 ^ 63 \<and>
     (b_status b = pending_status \<longrightarrow> b_final_quota b = None)"

text \<open>The limited token \<open>tid\<close> and its transactions account for \<open>v\<close> in all.\<close>

definition accounts_for :: "int \<Rightarrow> int \<Rightarrow> 'a bill_world_scheme \<Rightarrow> bool" where
  "accounts_for tid v s \<longleftrightarrow> calm s \<and> txns_ok s \<and> (\<forall>b \<in> set (txns s). row_ok b) \<and>
     limited_at s tid (v - held tid s)"

lemma same_txns_held: "same_txns s t \<Longrightarrow> held tid t = held tid s"
  by (simp add: same_txns_def held_def)

lemma accounts_for_same:
  assumes "accounts_for tid v s" and "same_txns s t" and "calm t" and "tokens t = tokens s"
  shows "accounts_for tid v t"
  using assms same_txns_held [OF assms(2), of tid] same_txns_ok [OF assms(2)]
  by (simp add: accounts_for_def same_txns_def limited_at_def)

lemma calm_outcomes: "calm s \<Longrightarrow> outcomes s = []"
  by (simp add: calm_def)

lemma get_token_transaction_calm:
  "calm s \<Longrightarrow> get_token_transaction tid x s =
     (case find (\<lambda>b. b_token_id b = tid \<and> b_transaction_id b = x) (txns s) of
        None \<Rightarrow> Inl (ModelErr RecordNotFound) | Some b \<Rightarrow> Inr b, s)"
  by (simp add: get_token_transaction_def stmt_ok calm_outcomes split: option.splits)

lemma get_token_by_ids_calm: "calm s \<Longrightarrow> snd (get_token_by_ids tid uid s) = s"
  by (simp add: get_token_by_ids_def stmt_ok calm_outcomes split: option.splits)

lemma update_consume_log_calm:
  "calm s \<Longrightarrow> calm (update_consume_log i q e s) \<and> tokens (update_consume_log i q e s) = tokens s"
  by (simp add: update_consume_log_def stmt_ok calm_def)

lemma record_consume_log_calm:
  "calm s \<Longrightarrow> record_consume_log l s = (i, s') \<Longrightarrow> calm s' \<and> tokens s' = tokens s"
  by (auto simp: record_consume_log_def stmt_ok calm_def split: if_splits)

lemma accounts_for_log:
  "accounts_for tid v s \<Longrightarrow> accounts_for tid v (update_consume_log i q e s)"
  using update_consume_log_calm [of s i q e]
  by (intro accounts_for_same [OF _ update_consume_log_same]) (auto simp: accounts_for_def)

lemma accounts_for_logs:
  "accounts_for tid v s \<Longrightarrow> accounts_for tid v (fold (\<lambda>b s. case b_log_id b of None \<Rightarrow> s
          | Some i \<Rightarrow> update_consume_log i (f b) (g b) s) bs s)"
  by (induction bs arbitrary: s) (auto simp: accounts_for_log split: option.splits)

text \<open>Writing columns of a pending row changes what is held by what the row's charge changes.\<close>

lemma update_calm_txns:
  assumes "calm s" and "i \<noteq> 0" and "us \<noteq> []" and "\<forall>u \<in> set us. fst u \<in> set txn_update_fields"
  shows "\<exists>s'. update_token_transaction i us s = (Inr (), s') \<and> calm s' \<and> tokens s' = tokens s \<and>
    next_txn_id s' = next_txn_id s \<and>
    txns s' = map (\<lambda>b. if b_id b = i then fold set_column us b else b) (txns s)"
  using assms by (auto simp: update_token_transaction_def stmt_ok calm_def)

lemma held_update:
  assumes "txns_ok s" and "b \<in> set (txns s)" and "b_token_id (f b) = b_token_id b"
    and "txns t = map (\<lambda>c. if b_id c = b_id b then f c else c) (txns s)"
  shows "held tid t = held tid s + (if b_token_id b = tid then charged (f b) - charged b else 0)"
proof -
  let ?g = "\<lambda>b. if b_token_id b = tid then charged b else 0"
  have "distinct (map b_id (txns s))" using assms(1) by (simp add: txns_ok_def)
  from sum_list_update_key [OF this assms(2), of ?g f] assms(3) show ?thesis
    by (simp add: held_def assms(4))
qed

lemma update_accounts:
  assumes "calm s" and ok: "txns_ok s" "\<forall>b \<in> set (txns s). row_ok b" and b: "b \<in> set (txns s)" "b_token_id b = tid"
    and us: "us \<noteq> []" "\<forall>u \<in> set us. fst u \<in> set txn_update_fields"
    and row: "b_token_id (fold set_column us b) = tid" "row_ok (fold set_column us b)"
      "charged (fold set_column us b) = c"
    and l: "limited_at s tid (v - held tid s - (c - charged b))"
  obtains s' where "update_token_transaction (b_id b) us s = (Inr (), s')" and "accounts_for tid v s'"
    and "txns s' = map (\<lambda>c. if b_id c = b_id b then fold set_column us c else c) (txns s)"
proof -
  from ok(1) b(1) have "b_id b \<noteq> 0" by (auto simp: txns_ok_def)
  from update_calm_txns [OF assms(1) this us] obtain s' where
    s': "update_token_transaction (b_id b) us s = (Inr (), s')" "calm s'" "tokens s' = tokens s"
      "next_txn_id s' = next_txn_id s"
      "txns s' = map (\<lambda>c. if b_id c = b_id b then fold set_column us c else c) (txns s)" by blast
  have "v - held tid s - (c - charged b) = v - held tid s'"
    using held_update [OF ok(1) b(1) _ s'(5), of tid] row b(2) by simp
  with l have "limited_at s' tid (v - held tid s')" using s'(3) by (simp add: limited_at_def)
  moreover have "row_ok d" if "d \<in> set (txns s')" for d
  proof -
    from that s'(5) obtain e where e: "e \<in> set (txns s)"
      "d = (if b_id e = b_id b then fold set_column us e else e)" by auto
    with txns_ok_id [OF ok(1) e(1) b(1)] row(2) ok(2) show ?thesis by (cases "b_id e = b_id b") auto
  qed
  ultimately have "accounts_for tid v s'"
    using s'(2) update_txn_map_ok [OF ok(1) s'(5,4)] by (simp add: accounts_for_def)
  with s' that show thesis by blast
qed

lemma accounts_forD:
  assumes "accounts_for tid v s"
  shows "calm s" and "txns_ok s" and "\<forall>b \<in> set (txns s). row_ok b" and "limited_at s tid (v - held tid s)"
    and "tid \<noteq> 0"
  using assms by (auto simp: accounts_for_def limited_at_def)

lemma auto_confirm_each_accounts:
  assumes "accounts_for tid v s" and "distinct (map b_id bs)"
    and "\<And>b. b \<in> set bs \<Longrightarrow> b \<in> set (txns s) \<and> b_status b = pending_status \<and> b_token_id b = tid"
  shows "\<exists>s'. auto_confirm_each now bs s = (Inr (), s') \<and> accounts_for tid v s'"
  using assms
proof (induction bs arbitrary: s)
  case (Cons b bs)
  note a = accounts_forD [OF Cons.prems(1)]
  from Cons.prems(3) [of b] have b: "b \<in> set (txns s)" "b_status b = pending_status" "b_token_id b = tid"
    by simp_all
  with a(3) have r: "row_ok b" by blast
  with b have c: "charged b = b_pre_quota b" by (simp add: row_ok_def charged_def)
  let ?us = "auto_confirm_columns now (b_pre_quota b)"
  obtain u where u: "update_token_transaction (b_id b) ?us s = (Inr (), u)" "accounts_for tid v u"
    and tx: "txns u = map (\<lambda>c. if b_id c = b_id b then fold set_column ?us c else c) (txns s)"
    by (rule update_accounts [OF a(1-3) b(1,3), where us = ?us and c = "b_pre_quota b" and v = v])
       (use r a(4) c b(3) in \<open>simp_all add: auto_confirm_columns_def txn_update_fields_def row_ok_def
         charged_def status_defs\<close>)
  have "c \<in> set (txns u) \<and> b_status c = pending_status \<and> b_token_id c = tid" if c: "c \<in> set bs" for c
  proof -
    have "b_id c \<noteq> b_id b" using c Cons.prems(2) by (auto simp: image_iff)
    with Cons.prems(3) [of c] c show ?thesis by (auto simp: tx image_iff intro!: bexI [of _ c])
  qed
  from Cons.IH [OF u(2) _ this] Cons.prems(2) u(1) show ?case by simp
qed auto

lemma auto_confirm_accounts:
  assumes "accounts_for tid v s"
  shows "\<exists>s'. auto_confirm_handler tid s = (Inr (), s') \<and> accounts_for tid v s'"
proof -
  note a = accounts_forD [OF assms]
  let ?bs = "filter (overdue tid (clock s)) (txns s)"
  have "\<exists>s'. auto_confirm_each (clock s) ?bs s = (Inr (), s') \<and> accounts_for tid v s'"
    by (rule auto_confirm_each_accounts [OF assms])
       (use a(2) in \<open>auto simp: txns_ok_def overdue_def distinct_map_filter_id\<close>)
  then obtain s' where "auto_confirm_each (clock s) ?bs s = (Inr (), s')" "accounts_for tid v s'" by blast
  then show ?thesis
    using a(1) by (simp add: auto_confirm_handler_def auto_confirm_expired_def stmt_ok calm_outcomes
        accounts_for_logs)
qed

text \<open>Settling and refunding a pending row of the token.\<close>

lemma post_consume_accounts:
  assumes "accounts_for tid v s" and "in_i64 q" and "in_i64 (- q)"
    and "post_consume_token_quota tid q s = (r, s')"
  shows "calm s' \<and> same_txns s s' \<and> limited_at s' tid (v - held tid s - (if r = Inr () then q else 0))"
  using post_consume_limited [OF accounts_forD(1) [OF assms(1)] accounts_forD(4) [OF assms(1)] assms(2-4)]
    quota_same_txns(4) [OF assms(4)]
  by (simp split: if_splits)

lemma accounts_for_failed:
  assumes "accounts_for tid v s" and "calm s'" and "same_txns s s'" and "limited_at s' tid (v - held tid s)"
  shows "accounts_for tid v s'"
  using assms same_txns_held [OF assms(3), of tid] same_txns_ok [OF assms(3)]
  by (auto simp: accounts_for_def same_txns_def)

lemma row_update_after:
  assumes a: "accounts_for tid v s" and su: "same_txns s u" "calm u"
    and l: "limited_at u tid (v - held tid s - d)" and b: "b \<in> set (txns s)" "b_token_id b = tid"
    and us: "us \<noteq> []" "\<forall>x \<in> set us. fst x \<in> set txn_update_fields"
    and row: "b_token_id (fold set_column us b) = tid" "row_ok (fold set_column us b)"
      "charged (fold set_column us b) = charged b + d"
  shows "\<exists>w. update_token_transaction (b_id b) us u = (Inr (), w) \<and> accounts_for tid v w"
proof -
  note a' = accounts_forD [OF a]
  have t: "txns u = txns s" using su by (simp add: same_txns_def)
  have b': "b \<in> set (txns u)" using b t by simp
  have ok: "txns_ok u" "\<forall>b \<in> set (txns u). row_ok b" using a'(2,3) t same_txns_ok [OF su(1)] by auto
  have l': "limited_at u tid (v - held tid u - (charged b + d - charged b))"
    using l same_txns_held [OF su(1), of tid] by simp
  from update_accounts [OF su(2) ok b' b(2) us row l'] show ?thesis by blast
qed

lemma in_i64_quota: "0 \<le> a \<Longrightarrow> a < 2 ^ 63 \<Longrightarrow> 0 \<le> b \<Longrightarrow> b < 2 ^ 63 \<Longrightarrow>
    in_i64 (a - b) \<and> in_i64 (- (a - b)) \<and> in_i64 (- a) \<and> in_i64 a"
  by (simp add: in_i64_def)

lemma settle_accounts:
  assumes a: "accounts_for tid v s" and b: "b \<in> set (txns s)" "b_status b = pending_status" "b_token_id b = tid"
    and q: "0 \<le> q" "q < 2 ^ 63" and e: "settle_transaction tid uid req b q s = (r, s')"
  shows "accounts_for tid v s'"
proof -
  note a' = accounts_forD [OF a]
  from a'(3) b have r: "row_ok b" by blast
  with b have c: "charged b = b_pre_quota b" by (simp add: row_ok_def charged_def)
  define d where "d = q - b_pre_quota b"
  have i: "in_i64 d" "in_i64 (- d)" "i64 (q - b_pre_quota b) = d" "i64 (- d) = - d"
    using r in_i64_quota [OF q, of "b_pre_quota b"] by (simp_all add: d_def row_ok_def)
  obtain r1 u where u: "(if d \<noteq> 0 then lift_e (post_consume_token_quota tid d s) else (Inr (), s)) = (r1, u)"
    by fastforce
  have su: "same_txns s u \<and> calm u \<and> limited_at u tid (v - held tid s - (if r1 = Inr () then d else 0))"
  proof (cases "d = 0")
    case True
    with u a' show ?thesis by auto
  next
    case False
    obtain r0 w where p: "post_consume_token_quota tid d s = (r0, w)" by fastforce
    from post_consume_accounts [OF a i(1,2) p] p u False show ?thesis
      by (auto simp: lift_e_def split: sum.splits)
  qed
  show ?thesis
  proof (cases r1)
    case (Inl x)
    with e u i have "s' = u" by (simp add: settle_transaction_def Let_def)
    with su Inl show ?thesis by (auto intro: accounts_for_failed [OF a])
  next
    case (Inr x)
    with su have su': "same_txns s u" "calm u" "limited_at u tid (v - held tid s - d)" by auto
    let ?us = "confirm_columns (clock s) q req"
    have "\<exists>w. update_token_transaction (b_id b) ?us u = (Inr (), w) \<and> accounts_for tid v w"
      by (rule row_update_after [OF a su' b(1,3)])
         (use r c b(3) q in \<open>auto simp: confirm_columns_def txn_update_fields_def row_ok_def charged_def
           status_defs d_def split: option.splits\<close>)
    then obtain w where w: "update_token_transaction (b_id b) ?us u = (Inr (), w)" "accounts_for tid v w" by blast
    define z where "z = (case b_log_id b of None \<Rightarrow> w
        | Some i \<Rightarrow> update_consume_log i (clamp_quota_to_int q) (positive_elapsed req) w)"
    have z: "accounts_for tid v z" using w(2) by (simp add: z_def accounts_for_log split: option.splits)
    obtain r3 y where y: "get_token_by_ids tid uid z = (r3, y)" by fastforce
    with get_token_by_ids_calm [OF accounts_forD(1) [OF z], of tid uid] have "y = z" by simp
    moreover from e u Inr w y i have "s' = y"
      by (cases r3) (simp_all add: settle_transaction_def Let_def z_def [symmetric])
    ultimately show ?thesis using z by simp
  qed
qed

lemma refund_accounts:
  assumes a: "accounts_for tid v s" and b: "b \<in> set (txns s)" "b_status b = pending_status" "b_token_id b = tid"
    and e: "refund_transaction tid uid b s = (r, s')"
  shows "accounts_for tid v s'"
proof -
  note a' = accounts_forD [OF a]
  from a'(3) b have r: "row_ok b" by blast
  with b have c: "charged b = b_pre_quota b" by (simp add: row_ok_def charged_def)
  define d where "d = - b_pre_quota b"
  have i: "in_i64 d" "in_i64 (- d)" "i64 (- b_pre_quota b) = d"
    using r by (simp_all add: d_def row_ok_def in_i64_def)
  obtain r0 u where p: "post_consume_token_quota tid d s = (r0, u)" by fastforce
  note su = post_consume_accounts [OF a i(1,2) p]
  show ?thesis
  proof (cases r0)
    case (Inl x)
    with e p i have "s' = u" by (simp add: refund_transaction_def lift_e_def Let_def)
    with su Inl show ?thesis by (auto intro: accounts_for_failed [OF a])
  next
    case (Inr x)
    with su have su': "same_txns s u" "calm u" "limited_at u tid (v - held tid s - d)" by auto
    let ?us = "cancel_columns (clock u)"
    have "\<exists>w. update_token_transaction (b_id b) ?us u = (Inr (), w) \<and> accounts_for tid v w"
      by (rule row_update_after [OF a su' b(1,3)])
         (use r c b(3) in \<open>auto simp: cancel_columns_def txn_update_fields_def row_ok_def charged_def
           status_defs d_def\<close>)
    then obtain w where w: "update_token_transaction (b_id b) ?us u = (Inr (), w)" "accounts_for tid v w" by blast
    define z where "z = (case b_log_id b of None \<Rightarrow> w | Some i \<Rightarrow> update_consume_log i 0 (b_elapsed_time_ms b) w)"
    have z: "accounts_for tid v z" using w(2) by (simp add: z_def accounts_for_log split: option.splits)
    obtain r3 y where y: "get_token_by_ids tid uid z = (r3, y)" by fastforce
    with get_token_by_ids_calm [OF accounts_forD(1) [OF z], of tid uid] have "y = z" by simp
    moreover from e p Inr w y i have "s' = y"
      by (cases r3) (simp_all add: refund_transaction_def lift_e_def Let_def z_def [symmetric])
    ultimately show ?thesis using z by simp
  qed
qed

lemma find_transaction_calm:
  assumes "calm s" and "find_transaction tid req existing s = (r, s')"
  shows "s' = s" and "r = Inr b \<Longrightarrow> b_status b = pending_status \<and>
    (if existing = None then b \<in> set (txns s) \<and> b_token_id b = tid else existing = Some b)"
  using assms
  by (auto simp: find_transaction_def Let_def get_token_transaction_calm find_Some_iff
      elim!: bindE_result split: if_splits option.splits)

lemma find_transaction_row:
  assumes "accounts_for tid v s" and "find_transaction tid req existing s = (Inr b, s')"
    and "\<And>b. existing = Some b \<Longrightarrow> b \<in> set (txns s) \<and> b_token_id b = tid"
  shows "b \<in> set (txns s) \<and> b_status b = pending_status \<and> b_token_id b = tid"
  using find_transaction_calm(2) [OF accounts_forD(1) [OF assms(1)] assms(2) refl] assms(3)
  by (auto split: if_splits)

definition req_ok :: "consume_req \<Rightarrow> bool" where
  "req_ok req \<longleftrightarrow> 0 \<le> add_used_quota req \<and> (\<forall>q. final_used_quota req = Some q \<longrightarrow> 0 \<le> q)"

lemma post_accounts:
  assumes a: "accounts_for tid v s" and r: "req_ok req"
    and ex: "\<And>b. existing = Some b \<Longrightarrow> b \<in> set (txns s) \<and> b_token_id b = tid"
    and e: "process_post_consume tid uid req existing s = (x, s')"
  shows "accounts_for tid v s'"
proof -
  obtain f u where f: "find_transaction tid req existing s = (f, u)" by fastforce
  then have u: "u = s" by (rule find_transaction_calm(1) [OF accounts_forD(1) [OF a]])
  show ?thesis
  proof (cases f)
    case (Inl y)
    with e f u a show ?thesis by (simp add: process_post_consume_def)
  next
    case (Inr b)
    from find_transaction_row [OF a f [unfolded Inr] ex]
    have b: "b \<in> set (txns s)" "b_status b = pending_status" "b_token_id b = tid" by auto
    show ?thesis
    proof (cases "post_final_quota req")
      case (Inl y)
      with e f u a Inr show ?thesis by (simp add: process_post_consume_def \<open>f = Inr b\<close>)
    next
      case (Inr q)
      with r have q: "0 \<le> q" "q < 2 ^ 63"
        by (auto simp: post_final_quota_def quota_to_int64_def req_ok_def split: option.splits if_splits)
      from e f u Inr \<open>f = Inr b\<close> have "settle_transaction tid uid req b q s = (x, s')"
        by (simp add: process_post_consume_def)
      then show ?thesis by (rule settle_accounts [OF a b q])
    qed
  qed
qed

lemma cancel_accounts:
  assumes a: "accounts_for tid v s" and e: "process_cancel_consume tid uid req s = (x, s')"
  shows "accounts_for tid v s'"
proof -
  obtain f u where f: "find_transaction tid req None s = (f, u)" by fastforce
  then have u: "u = s" by (rule find_transaction_calm(1) [OF accounts_forD(1) [OF a]])
  show ?thesis
  proof (cases f)
    case (Inl y)
    with e f u a show ?thesis by (simp add: process_cancel_consume_def)
  next
    case (Inr b)
    from find_transaction_row [OF a f [unfolded Inr]]
    have b: "b \<in> set (txns s)" "b_status b = pending_status" "b_token_id b = tid" by auto
    from e f u Inr have "refund_transaction tid uid b s = (x, s')" by (simp add: process_cancel_consume_def)
    then show ?thesis by (rule refund_accounts [OF a b])
  qed
qed

lemma try_transaction_ids_calm:
  "calm s \<Longrightarrow> try_transaction_ids n tid s = (r, s') \<Longrightarrow> calm s' \<and> tokens s' = tokens s"
proof (induction n arbitrary: s)
  case (Suc n)
  have "calm (s\<lparr>next_uuid := Suc (next_uuid s)\<rparr>)" using Suc.prems(1) by (simp add: calm_def)
  with Suc.prems Suc.IH [OF this] show ?case
    by (auto simp: get_uuid_def get_token_transaction_calm calm_def split: option.splits)
qed simp

lemma create_calm:
  assumes "calm s" and "create_token_transaction b s = (r, s')"
  shows "(\<exists>e. r = Inl e) \<and> s' = s \<or>
    r = Inr (b\<lparr>b_id := next_txn_id s\<rparr>) \<and>
    s' = s\<lparr>txns := txns s @ [b\<lparr>b_id := next_txn_id s\<rparr>], next_txn_id := next_txn_id s + 1\<rparr>"
  using assms by (auto simp: create_token_transaction_def stmt_ok calm_outcomes split: if_splits)

lemma pre_accounts:
  assumes a: "accounts_for tid v s" and r: "req_ok req"
    and e: "process_pre_consume tid tok uid req s = (x, s')"
  shows "accounts_for tid v s'"
    and "x = Inr (b, t') \<Longrightarrow> b \<in> set (txns s') \<and> b_token_id b = tid"
proof -
  have "accounts_for tid v s' \<and> (\<forall>b t'. x = Inr (b, t') \<longrightarrow> b \<in> set (txns s') \<and> b_token_id b = tid)"
  proof (cases "add_used_quota req = 0 \<or> (\<exists>x. quota_to_int64 (add_used_quota req) = Inl x)")
    case True
    then have "\<exists>x. process_pre_consume tid tok uid req s = (Inl x, s)"
      by (cases "add_used_quota req = 0") (auto simp: process_pre_consume_def)
    with e a show ?thesis by auto
  next
    case False
    then obtain q where q: "quota_to_int64 (add_used_quota req) = Inr q" "add_used_quota req \<noteq> 0"
      by (cases "quota_to_int64 (add_used_quota req)") auto
    with r have q0: "0 < q" "q < 2 ^ 63" by (auto simp: quota_to_int64_def req_ok_def split: if_splits)
    obtain r1 u where u: "generate_transaction_id tid s = (r1, u)" by fastforce
    have au: "accounts_for tid v u"
      using u try_transaction_ids_calm [OF accounts_forD(1) [OF a], of 5 tid]
        try_transaction_ids_same [of 5 tid s]
      by (auto simp: generate_transaction_id_def intro: accounts_for_same [OF a])
    show ?thesis
    proof (cases r1)
      case (Inl y)
      with e q u au show ?thesis by (auto simp: process_pre_consume_def)
    next
      case r1: (Inr xid)
      obtain p w where p: "pre_consume_token_quota tid q u = (p, w)" by fastforce
      from pre_consume_limited [OF accounts_forD(1) [OF au] accounts_forD(4) [OF au] q0(1) p]
        quota_same_txns(3) [OF p]
      have w: "calm w" "same_txns u w"
        "limited_at w tid (v - held tid u - (if p = Inr () then q else 0))" by (auto split: if_splits)
      show ?thesis
      proof (cases p)
        case (Inl y)
        with w have "accounts_for tid v w" by (intro accounts_for_failed [OF au]) auto
        with e q u r1 p Inl show ?thesis by (auto simp: process_pre_consume_def lift_e_def Let_def)
      next
        case pr: (Inr y)
        obtain i z where z: "record_consume_log \<lparr>l_user_id = uid, l_model_name = add_reason req,
              l_token_name = t_name tok, l_quota = clamp_quota_to_int q, l_elapsed_time = 0\<rparr> w = (i, z)"
          by fastforce
        from record_consume_log_calm [OF w(1) z] record_consume_log_same [OF z] w(2,3) pr
        have z': "calm z" "same_txns u z" "limited_at z tid (v - held tid u - q)"
          by (auto simp: limited_at_def intro: same_txns_trans)
        define nb where "nb = \<lparr>b_id = 0, b_transaction_id = xid, b_token_id = tid,
              b_user_id = uid, b_status = pending_status, b_pre_quota = q, b_final_quota = None,
              b_reason = add_reason req, b_expires_at = i64 (clock u + normalize_timeout_seconds
                (billing_default_timeout u) (billing_max_timeout u) (timeout_seconds req)),
              b_confirmed_at = None, b_canceled_at = None, b_auto_confirmed = False, b_log_id = Some i,
              b_elapsed_time_ms = positive_elapsed req\<rparr>"
        obtain r3 y3 where y3: "create_token_transaction nb z = (r3, y3)" by fastforce
        note pre = process_pre_consume_def [of tid tok uid req s] e q u r1 p pr z y3
        from create_calm [OF z'(1) y3] show ?thesis
        proof (elim disjE conjE exE, goal_cases)
          case (1 er)
          obtain r4 y4 where y4: "post_consume_token_quota tid (- q) y3 = (r4, y4)" by fastforce
          have "in_i64 (- q)" "in_i64 (- (- q))" using q0 by (simp_all add: in_i64_def)
          with 1 z' y4 have "r4 = Inr ()"
            by (intro post_consume_credits [of y3 tid "v - held tid u - q" "- q"]) (use q0 in auto)
          moreover have "calm y3" "limited_at y3 tid (v - held tid u - q)" using 1 z' by auto
          note post_consume_limited [OF this \<open>in_i64 (- q)\<close> \<open>in_i64 (- (- q))\<close> y4]
          ultimately have y4': "calm y4" "limited_at y4 tid (v - held tid u - q - - q)" by auto
          from y4'(2) have "limited_at y4 tid (v - held tid u)" by simp
          moreover have "same_txns u y4"
            using z'(2) 1 quota_same_txns(4) [OF y4] by (auto intro: same_txns_trans)
          ultimately have a4: "accounts_for tid v y4" using y4' by (auto intro: accounts_for_failed [OF au])
          from pre 1 y4 have "x = Inl er" "s' = (if i > 0 then update_consume_log i 0 None y4 else y4)"
            by (simp_all add: Let_def nb_def lift_e_def)
          with a4 show ?case by (auto simp: accounts_for_log)
        next
          case 2
          have h: "held tid y3 = held tid z + q"
            by (simp add: 2 held_def nb_def charged_def)
          have "txns_ok z" "\<forall>b \<in> set (txns z). row_ok b"
            using accounts_forD(2,3) [OF au] z'(2) same_txns_ok [OF z'(2)] by (auto simp: same_txns_def)
          then have ok: "txns_ok y3" "\<forall>b \<in> set (txns y3). row_ok b"
            using q0 by (auto simp: 2 txns_ok_def row_ok_def nb_def)
          have "limited_at y3 tid (v - held tid u - q)" using z'(3) by (simp add: 2 limited_at_def)
          with ok h z'(1) same_txns_held [OF z'(2), of tid] have a3: "accounts_for tid v y3"
            by (simp add: accounts_for_def 2 calm_def diff_diff_eq)
          obtain r4 y4 where y4: "get_token_by_ids tid uid y3 = (r4, y4)" by fastforce
          with get_token_by_ids_calm [OF accounts_forD(1) [OF a3], of tid uid] have "y4 = y3" by simp
          moreover from pre 2 y4 have "s' = y4"
            "x = (case r4 of Inl e \<Rightarrow> Inl e | Inr t \<Rightarrow> Inr (nb\<lparr>b_id := next_txn_id z\<rparr>, t))"
            by (cases r4; simp add: Let_def nb_def lift_e_def)+
          ultimately show ?case using a3 by (auto simp: 2 nb_def split: sum.splits)
        qed
      qed
    qed
  qed
  then show "accounts_for tid v s'"
    and "x = Inr (b, t') \<Longrightarrow> b \<in> set (txns s') \<and> b_token_id b = tid" by blast+
qed

lemma immediate_accounts:
  assumes a: "accounts_for tid v s" and r: "req_ok req"
    and e: "process_immediate_consume tid tok uid req s = (x, s')"
  shows "accounts_for tid v s'"
proof (cases "add_used_quota req = 0")
  case False
  define s1 where "s1 = (if (case transaction_id req of None \<Rightarrow> [] | Some i \<Rightarrow> trim_space i) = []
    then snd (get_uuid s) else s)"
  have a1: "accounts_for tid v s1"
    using accounts_forD(1) [OF a]
    by (intro accounts_for_same [OF a]) (auto simp: s1_def get_uuid_def same_txns_def calm_def)
  obtain r1 u where u: "process_pre_consume tid tok uid req s1 = (r1, u)" by fastforce
  note au = pre_accounts(1) [OF a1 r u]
  show ?thesis
  proof (cases r1)
    case (Inl y)
    with e u au False show ?thesis
      by (simp add: process_immediate_consume_def Let_def s1_def)
  next
    case (Inr p)
    obtain b t where p: "p = (b, t)" by fastforce
    let ?req = "req\<lparr>transaction_id := Some (b_transaction_id b), phase := Some ''post'',
        final_used_quota := Some (add_used_quota req)\<rparr>"
    from e u False Inr p have "process_post_consume tid uid ?req (Some b) u = (x, s')"
      by (simp add: process_immediate_consume_def Let_def s1_def)
    moreover have "req_ok ?req" using r by (simp add: req_ok_def)
    ultimately show ?thesis
      using pre_accounts(2) [OF a1 r u, of b t] Inr p by (intro post_accounts [OF au]) auto
  qed
qed (use assms in \<open>simp add: process_immediate_consume_def\<close>)

lemma consume_body_accounts:
  assumes au: "accounts_for tid v u" and r: "\<And>req. body = Some req \<Longrightarrow> req_ok req"
    and e: "consume_body uid tid body u = (x, s')"
  shows "accounts_for tid v s'"
proof (cases body)
  case None
  with e au show ?thesis by (simp add: consume_body_def)
next
  case (Some req0)
  define req where "req = req0\<lparr>add_reason := trim_space (add_reason req0)\<rparr>"
  have rk: "req_ok req" using r [OF Some] by (simp add: req_def req_ok_def)
  show ?thesis
  proof (cases "add_reason req = []")
    case True
    with e au Some show ?thesis by (simp add: consume_body_def req_def)
  next
    case False
    obtain r1 w where w: "get_token_by_ids tid uid u = (r1, w)" by fastforce
    with get_token_by_ids_calm [OF accounts_forD(1) [OF au], of tid uid] have wu: "w = u" by simp
    show ?thesis
    proof (cases r1)
      case (Inl y)
      with e au Some False w wu show ?thesis by (auto simp: consume_body_def req_def Let_def)
    next
      case (Inr tok)
      from e Some False w wu Inr have "s' = u \<or> process_pre_consume tid tok uid req u = (x, s') \<or>
          process_post_consume tid uid req None u = (x, s') \<or>
          process_cancel_consume tid uid req u = (x, s') \<or>
          process_immediate_consume tid tok uid req u = (x, s')"
        by (auto simp: consume_body_def req_def Let_def split: sum.splits if_splits)
      then show ?thesis
        using au rk by (auto intro: pre_accounts(1) post_accounts cancel_accounts immediate_accounts)
    qed
  qed
qed

lemma consume_token_accounts:
  assumes a: "accounts_for tid v s" and r: "\<And>req. body = Some req \<Longrightarrow> req_ok req"
    and e: "consume_token uid tid body s = (x, s')"
  shows "accounts_for tid v s'"
proof -
  from auto_confirm_accounts [OF a] obtain u where u: "auto_confirm_handler tid s = (Inr (), u)"
    and au: "accounts_for tid v u" by blast
  with e have "consume_body uid tid body u = (x, s')" by (simp add: consume_token_def)
  then show ?thesis using consume_body_accounts [OF au] r by blast
qed

definition event_ok :: "bill_event \<Rightarrow> bool" where
  "event_ok e \<longleftrightarrow> (case e of Consume (Some req) \<Rightarrow> req_ok req | _ \<Rightarrow> True)"

lemma bill_steps_account:
  "accounts_for tid v s \<Longrightarrow> (\<forall>e \<in> set es. event_ok e) \<Longrightarrow> accounts_for tid v (fold (bill_step uid tid) es s)"
proof (induction es arbitrary: s)
  case (Cons e es)
  have "accounts_for tid v (bill_step uid tid e s)"
  proof (cases e)
    case (Tick n)
    with Cons.prems(1) show ?thesis
      by (simp add: accounts_for_def calm_def txns_ok_def held_def limited_at_def)
  next
    case (Consume body)
    with Cons.prems show ?thesis
      by (cases "consume_token uid tid body s")
         (auto simp: event_ok_def intro: consume_token_accounts split: option.splits)
  qed
  from Cons.IH [OF this] Cons.prems(2) show ?case by simp
qed simp

subsection \<open>Overdue holds\<close>

lemma auto_confirm_each_confirms:
  assumes "auto_confirm_each now bs s = (Inr (), s')" and "txns_ok s" and "distinct (map b_id bs)"
    and "\<And>b. b \<in> set bs \<Longrightarrow> b \<in> set (txns s) \<and> b_status b = pending_status"
    and "b \<in> set bs"
  shows "fold set_column (auto_confirm_columns now (b_pre_quota b)) b \<in> set (txns s')"
  using assms
proof (induction bs arbitrary: s)
  case (Cons c bs)
  let ?us = "auto_confirm_columns now (b_pre_quota c)"
  from Cons.prems(1) obtain u where u: "update_token_transaction (b_id c) ?us s = (Inr (), u)"
    and rest: "auto_confirm_each now bs u = (Inr (), s')" by (auto elim: bindE_InrE)
  from Cons.prems(4) [of c] have c: "c \<in> set (txns s)" "b_status c = pending_status" by auto
  have "b_id c \<noteq> 0" using c Cons.prems(2) by (auto simp: txns_ok_def)
  with u have tx: "txns u = map (\<lambda>b. if b_id b = b_id c then fold set_column ?us b else b) (txns s)"
    by (auto simp: update_token_transaction_def auto_confirm_columns_def txn_update_fields_def
        split: if_splits elim!: stmt_result)
  from update_row_settles [OF u _ c(2)] c(1) Cons.prems(2) have ok: "txns_ok u"
    by (auto simp: settles_def)
  have in_u: "d \<in> set (txns u) \<and> b_status d = pending_status" if d: "d \<in> set bs" for d
  proof -
    have "b_id d \<noteq> b_id c" using d Cons.prems(3) by (auto simp: image_iff)
    with Cons.prems(4) [of d] d show ?thesis by (auto simp: tx image_iff intro!: bexI [of _ d])
  qed
  have d: "distinct (map b_id bs)" using Cons.prems(3) by simp
  show ?case
  proof (cases "b = c")
    case True
    have "settles u s'" by (rule auto_confirm_each_settles [OF rest d in_u])
    moreover have "fold set_column ?us c \<in> set (txns u)" using c(1) by (auto simp: tx)
    moreover have "b_status (fold set_column ?us c) \<noteq> pending_status"
      by (simp add: auto_confirm_columns_def status_defs)
    ultimately show ?thesis using ok True by (auto simp: settles_def)
  next
    case False
    with Cons.prems(5) have "b \<in> set bs" by simp
    from Cons.IH [OF rest ok d in_u this] show ?thesis .
  qed
qed simp

subsection \<open>Properties\<close>

definition example_bill :: bill_world where
  "example_bill = \<lparr>users = [1 \<mapsto> example_user], tokens = [5 \<mapsto> example_token],
     channel_used_quota = Map.empty, token_key_index = Map.empty, token_cache = Map.empty,
     batch_stores = (\<lambda>_. Map.empty), reminders = [], clock = 1000, using_sqlite = False,
     redis_enabled = False, batch_update_enabled = False, quota_remind_threshold = 10,
     outcomes = [], wait_cancelled = (\<lambda>_. False), txns = [], next_txn_id = 1, logs = Map.empty,
     next_log_id = 1, uuid_stream = (\<lambda>n. ''u'' @ itoa (int n)), next_uuid = 0,
     log_consume_enabled = True, billing_default_timeout = 600, billing_max_timeout = 3600\<rparr>"

definition example_hold :: txn_row where
  "example_hold = \<lparr>b_id = 1, b_transaction_id = ''x'', b_token_id = 5, b_user_id = 1,
     b_status = pending_status, b_pre_quota = 20, b_final_quota = None, b_reason = ''job'',
     b_expires_at = 1600, b_confirmed_at = None, b_canceled_at = None, b_auto_confirmed = False,
     b_log_id = None, b_elapsed_time_ms = None\<rparr>"

definition example_consume :: "string \<Rightarrow> int \<Rightarrow> consume_req" where
  "example_consume ph q = \<lparr>add_used_quota = q, add_reason = ''job'', elapsed_time_ms = None,
     phase = Some ph, transaction_id = Some ''x'', final_used_quota = None, timeout_seconds = None\<rparr>"





text \<open>
  C10. An overdue hold is confirmed by the next request for its token, whatever that request
  is: it ends up auto-confirmed at the amount it held.
\<close>

theorem overdue_hold_confirmed:
  assumes "calm s" and "txns_ok s" and "\<forall>b \<in> set (txns s). row_ok b" and "limited_at s tid r"
    and "b \<in> set (txns s)" and "overdue tid (clock s) b"
  shows "\<exists>b' \<in> set (txns (snd (consume_token uid tid body s))). b_id b' = b_id b \<and>
    b_status b' = auto_confirmed_status \<and> b_final_quota b' = Some (b_pre_quota b) \<and> b_auto_confirmed b'"
proof -
  let ?bs = "filter (overdue tid (clock s)) (txns s)"
  let ?b' = "fold set_column (auto_confirm_columns (clock s) (b_pre_quota b)) b"
  have a: "accounts_for tid (r + held tid s) s" using assms(1-4) by (simp add: accounts_for_def)
  have d: "distinct (map b_id ?bs)" using assms(2) by (simp add: txns_ok_def distinct_map_filter_id)
  have "\<exists>u. auto_confirm_each (clock s) ?bs s = (Inr (), u) \<and> accounts_for tid (r + held tid s) u"
    by (rule auto_confirm_each_accounts [OF a d]) (auto simp: overdue_def)
  then obtain u where u: "auto_confirm_each (clock s) ?bs s = (Inr (), u)" "txns_ok u"
    using accounts_forD(2) by blast
  have "?b' \<in> set (txns u)"
    by (rule auto_confirm_each_confirms [OF u(1) assms(2) d]) (use assms(5,6) in \<open>auto simp: overdue_def\<close>)
  moreover obtain w where w: "auto_confirm_handler tid s = (Inr (), w)" and uw: "same_txns u w"
    using u(1) assms(1)
    by (simp add: auto_confirm_handler_def auto_confirm_expired_def stmt_ok calm_outcomes log_updates_same)
  ultimately have b': "?b' \<in> set (txns w)" "txns_ok w"
    using same_txns_ok [OF uw] u(2) by (simp_all add: same_txns_def)
  have st: "b_status ?b' = auto_confirmed_status" "b_final_quota ?b' = Some (b_pre_quota b)" "b_auto_confirmed ?b'"
    by (simp_all add: auto_confirm_columns_def)
  obtain x y where y: "consume_body uid tid body w = (x, y)" by fastforce
  with w have "settles w (snd (consume_token uid tid body s))"
    using consume_body_settles [OF y] by (simp add: consume_token_def)
  with b' st show ?thesis
    by (intro bexI [of _ ?b']) (auto simp: settles_def status_defs)
qed

theorem overdue_hold_confirmed_witness:
  "\<exists>b' \<in> set (txns (snd (consume_token 1 5 None (example_bill\<lparr>txns := [example_hold], next_txn_id := 2,
      clock := 2000\<rparr>)))). b_id b' = b_id example_hold \<and> b_status b' = auto_confirmed_status \<and>
      b_final_quota b' = Some (b_pre_quota example_hold) \<and> b_auto_confirmed b'"
  by (rule overdue_hold_confirmed)
     (simp_all add: calm_def example_bill_def txns_ok_def limited_at_def example_token_def row_ok_def
       example_hold_def overdue_def status_defs)

text \<open>
  A hold on the whole balance can be neither cancelled nor finalised: \<open>ConsumeToken\<close> refuses
  every phase while nothing is left on the token, so the quota stays taken until the hold times
  out, and is then charged in full.
\<close>

theorem full_hold_stuck:
  assumes "calm s" and "limited_at s tid 0" and "tokens s tid = Some t" and "t_user_id t = uid" and "uid \<noteq> 0"
    and "t_status t = token_status_enabled" and "t_expired_time t = -1"
    and "\<And>b. b \<in> set (txns s) \<Longrightarrow> \<not> overdue tid (clock s) b"
    and "trim_space (add_reason req) \<noteq> []"
  shows "consume_token uid tid (Some req) s = (Inl Exhausted, s)"
proof -
  have f: "filter (overdue tid (clock s)) (txns s) = []" using assms(8) by (simp add: filter_empty_conv)
  with assms(1) have "auto_confirm_handler tid s = (Inr (), s)"
    by (simp add: auto_confirm_handler_def auto_confirm_expired_def stmt_ok calm_outcomes)
  moreover have "get_token_by_ids tid uid s = (Inr t, s)"
    using assms(1-5) by (simp add: get_token_by_ids_def stmt_ok calm_outcomes limited_at_def)
  moreover have "validate_token_for_consumption (clock s) t = Inl Exhausted"
    using assms(2,3,6,7) by (simp add: validate_token_for_consumption_def limited_at_def)
  ultimately show ?thesis
    using assms(9) by (simp add: consume_token_def consume_body_def Let_def)
qed

theorem full_hold_stuck_witness:
  "consume_token 1 5 (Some (example_consume ''cancel'' 0)) (example_bill\<lparr>
     tokens := [5 \<mapsto> example_token\<lparr>t_remain_quota := 0\<rparr>], txns := [example_hold\<lparr>b_pre_quota := 50\<rparr>]\<rparr>) =
   (Inl Exhausted, example_bill\<lparr>tokens := [5 \<mapsto> example_token\<lparr>t_remain_quota := 0\<rparr>],
     txns := [example_hold\<lparr>b_pre_quota := 50\<rparr>]\<rparr>)"
  by (rule full_hold_stuck [where t = "example_token\<lparr>t_remain_quota := 0\<rparr>"])
     (simp_all add: calm_def example_bill_def limited_at_def example_token_def token_status_enabled_def
       overdue_def example_hold_def status_defs example_consume_def trim_space_def is_space_def)

text \<open>
  Two cancellations of one hold that overlap refund it twice: the status is checked when the
  row is read and not again when it is written. Here both read the hold of 20 on a token with
  30 left, and 70 are left in the end.
\<close>

theorem cancel_race_refunds_twice:
  "let s = example_bill\<lparr>tokens := [5 \<mapsto> example_token\<lparr>t_remain_quota := 30\<rparr>], txns := [example_hold],
         next_txn_id := 2\<rparr>;
       (r1, s1) = find_transaction 5 (example_consume ''cancel'' 0) None s;
       (r2, s2) = find_transaction 5 (example_consume ''cancel'' 0) None s1;
       (_, s3) = refund_transaction 5 1 (projr r1) s2;
       (_, s4) = refund_transaction 5 1 (projr r2) s3
   in r1 = Inr example_hold \<and> r2 = Inr example_hold \<and>
      map_option t_remain_quota (tokens s4 5) = Some 70"
  by code_simp

end
