(* ===== verification/Topups.thy ===== *)
theory Topups
  imports Accounts
begin

text \<open>
  Ways to add quota to a user once: redemption codes (\<open>Redeem\<close>, \<open>model/redemption.go\<close>) and
  recharge requests that an administrator approves or rejects (\<open>model/recharge_request.go\<close>,
  \<open>controller/recharge.go\<close>).

  \<open>one_shot\<close> is the contract both have when served one at a time: a grant is given at most
  once. The reading and the writing half of each operation are definitions of their own, so
  that overlapping calls can be written down as sequences of halves.
\<close>

record redemption_row =
  d_user_id :: int
  d_status :: int
  d_name :: string
  d_quota :: int
  d_redeemed_time :: int

record recharge_row =
  g_user_id :: int
  g_amount :: int
  g_quota :: int
  g_status :: int
  g_remark :: string
  g_admin_remark :: string
  g_created_time :: int
  g_reviewed_time :: int
  g_reviewer_id :: int

record topup_world = world +
  redemptions :: "string \<rightharpoonup> redemption_row"   \<comment> \<open>by the unique code\<close>
  recharges :: "int \<rightharpoonup> recharge_row"
  next_recharge_id :: int
  grant_logs :: "(int \<times> string) list"

datatype topup_error = TopupDbError | NoCode | InvalidUser | InvalidCode | CodeUsed
  | BadAmount | NoRequest | RequestNotPending | BadForm

definition redemption_enabled :: int where "redemption_enabled = 1"
definition redemption_used :: int where "redemption_used = 3"
definition recharge_pending :: int where "recharge_pending = 1"
definition recharge_approved :: int where "recharge_approved = 2"
definition recharge_rejected :: int where "recharge_rejected = 3"

lemmas topup_status_defs = redemption_enabled_def redemption_used_def recharge_pending_def
  recharge_approved_def recharge_rejected_def

definition record_log :: "int \<Rightarrow> string \<Rightarrow> 'a topup_world_scheme \<Rightarrow> 'a topup_world_scheme" where
  "record_log uid txt s = snd (stmt () (\<lambda>s. ((), s\<lparr>grant_logs := grant_logs s @ [(uid, txt)]\<rparr>)) s)"

definition credit_user ::
  "int \<Rightarrow> int \<Rightarrow> 'a topup_world_scheme \<Rightarrow> (topup_error + unit) \<times> 'a topup_world_scheme" where
  "credit_user uid q s = stmt TopupDbError (\<lambda>s. ((), snd (user_credit uid q s))) s"

subsection \<open>Redemption codes\<close>

definition redeem_check ::
  "string \<Rightarrow> 'a topup_world_scheme \<Rightarrow> (topup_error + redemption_row) \<times> 'a topup_world_scheme" where
  "redeem_check key s =
     bindE (stmt InvalidCode (\<lambda>s. (redemptions s key, s)) s) (\<lambda>r s.
       case r of None \<Rightarrow> (Inl InvalidCode, s)
       | Some d \<Rightarrow> if d_status d \<noteq> redemption_enabled then (Inl CodeUsed, s) else (Inr d, s))"

definition redeem_apply ::
  "string \<Rightarrow> int \<Rightarrow> redemption_row \<Rightarrow> 'a topup_world_scheme \<Rightarrow> (topup_error + int) \<times> 'a topup_world_scheme" where
  "redeem_apply key uid d s =
     bindE (credit_user uid (d_quota d) s) (\<lambda>_ s.
     stmt TopupDbError (\<lambda>s. (d_quota d, s\<lparr>redemptions := (redemptions s)(key \<mapsto>
       d\<lparr>d_redeemed_time := clock s, d_status := redemption_used\<rparr>)\<rparr>)) s)"

definition redeem ::
  "string \<Rightarrow> int \<Rightarrow> 'a topup_world_scheme \<Rightarrow> (topup_error + int) \<times> 'a topup_world_scheme" where
  "redeem key uid s =
     (if key = [] then (Inl NoCode, s)
      else if uid = 0 then (Inl InvalidUser, s)
      else bindE (in_tx TopupDbError (\<lambda>s. bindE (redeem_check key s) (\<lambda>d s. redeem_apply key uid d s)) s)
             (\<lambda>q s. (Inr q, record_log uid ''redeemed'' s)))"

subsection \<open>Recharge requests\<close>

definition create_recharge_request ::
  "int \<Rightarrow> int \<Rightarrow> string \<Rightarrow> 'a topup_world_scheme \<Rightarrow> (topup_error + int) \<times> 'a topup_world_scheme" where
  "create_recharge_request uid amount remark s =
     (if amount \<le> 0 then (Inl BadAmount, s)
      else bindE (stmt TopupDbError (\<lambda>s. (next_recharge_id s, s\<lparr>recharges := (recharges s)(next_recharge_id s \<mapsto>
          \<lparr>g_user_id = uid, g_amount = amount, g_quota = 0, g_status = recharge_pending, g_remark = remark,
           g_admin_remark = [], g_created_time = clock s, g_reviewed_time = 0, g_reviewer_id = 0\<rparr>),
          next_recharge_id := next_recharge_id s + 1\<rparr>)) s)
        (\<lambda>i s. (Inr i, record_log uid ''submitted'' s)))"

definition get_recharge_request ::
  "int \<Rightarrow> 'a topup_world_scheme \<Rightarrow> (topup_error + recharge_row) \<times> 'a topup_world_scheme" where
  "get_recharge_request i s =
     (if i = 0 then (Inl NoRequest, s)
      else bindE (stmt TopupDbError (\<lambda>s. (recharges s i, s)) s) (\<lambda>r s.
        case r of None \<Rightarrow> (Inl NoRequest, s) | Some g \<Rightarrow> (Inr g, s)))"

text \<open>The check both decisions start with, outside any transaction.\<close>

definition review_check ::
  "int \<Rightarrow> 'a topup_world_scheme \<Rightarrow> (topup_error + recharge_row) \<times> 'a topup_world_scheme" where
  "review_check i s =
     bindE (get_recharge_request i s) (\<lambda>g s.
       if g_status g \<noteq> recharge_pending then (Inl RequestNotPending, s) else (Inr g, s))"

definition set_review ::
  "int \<Rightarrow> (int \<Rightarrow> recharge_row \<Rightarrow> recharge_row) \<Rightarrow> 'a topup_world_scheme \<Rightarrow>
   (topup_error + unit) \<times> 'a topup_world_scheme" where
  "set_review i f s = stmt TopupDbError (\<lambda>s. ((),
     s\<lparr>recharges := (recharges s)(i := map_option (f (clock s)) (recharges s i))\<rparr>)) s"

definition approve_apply ::
  "int \<Rightarrow> int \<Rightarrow> string \<Rightarrow> recharge_row \<Rightarrow> 'a topup_world_scheme \<Rightarrow> (topup_error + unit) \<times> 'a topup_world_scheme" where
  "approve_apply i reviewer remark g s =
     bindE (in_tx TopupDbError (\<lambda>s.
        bindE (credit_user (g_user_id g) (g_amount g) s) (\<lambda>_ s.
        set_review i (\<lambda>now r. r\<lparr>g_status := recharge_approved, g_quota := g_amount g,
          g_admin_remark := remark, g_reviewed_time := now, g_reviewer_id := reviewer\<rparr>) s)) s)
      (\<lambda>_ s. (Inr (), record_log (g_user_id g) ''approved'' s))"

definition approve_recharge_request ::
  "int \<Rightarrow> int \<Rightarrow> string \<Rightarrow> 'a topup_world_scheme \<Rightarrow> (topup_error + unit) \<times> 'a topup_world_scheme" where
  "approve_recharge_request i reviewer remark s =
     bindE (review_check i s) (\<lambda>g s. approve_apply i reviewer remark g s)"

definition reject_apply ::
  "int \<Rightarrow> int \<Rightarrow> string \<Rightarrow> recharge_row \<Rightarrow> 'a topup_world_scheme \<Rightarrow> (topup_error + unit) \<times> 'a topup_world_scheme" where
  "reject_apply i reviewer remark g s =
     bindE (set_review i (\<lambda>now r. r\<lparr>g_status := recharge_rejected, g_admin_remark := remark,
          g_reviewed_time := now, g_reviewer_id := reviewer\<rparr>) s)
      (\<lambda>_ s. (Inr (), record_log (g_user_id g) ''rejected'' s))"

definition reject_recharge_request ::
  "int \<Rightarrow> int \<Rightarrow> string \<Rightarrow> 'a topup_world_scheme \<Rightarrow> (topup_error + unit) \<times> 'a topup_world_scheme" where
  "reject_recharge_request i reviewer remark s =
     bindE (review_check i s) (\<lambda>g s. reject_apply i reviewer remark g s)"

text \<open>The handlers: the path id is \<open>None\<close> when it is not a number.\<close>

definition approve_handler ::
  "int option \<Rightarrow> int \<Rightarrow> string \<Rightarrow> 'a topup_world_scheme \<Rightarrow> (topup_error + unit) \<times> 'a topup_world_scheme" where
  "approve_handler pid reviewer remark s =
     (case pid of None \<Rightarrow> (Inl BadForm, s)
      | Some i \<Rightarrow> if i = 0 then (Inl BadForm, s) else approve_recharge_request i reviewer remark s)"

definition reject_handler ::
  "int option \<Rightarrow> int \<Rightarrow> string \<Rightarrow> 'a topup_world_scheme \<Rightarrow> (topup_error + unit) \<times> 'a topup_world_scheme" where
  "reject_handler pid reviewer remark s =
     (case pid of None \<Rightarrow> (Inl BadForm, s)
      | Some i \<Rightarrow> if i = 0 \<or> remark = [] then (Inl BadForm, s)
          else reject_recharge_request i reviewer remark s)"

subsection \<open>The contract of a grant that is given once\<close>

fun attempts_of :: "('a \<Rightarrow> 's \<Rightarrow> ('e + 'r) \<times> 's) \<Rightarrow> 'a list \<Rightarrow> 's \<Rightarrow> ('a \<times> ('e + 'r)) list \<times> 's" where
  "attempts_of f [] s = ([], s)"
| "attempts_of f (a # as) s =
     (case f a s of (r, s') \<Rightarrow> (case attempts_of f as s' of (rs, s'') \<Rightarrow> ((a, r) # rs, s'')))"

definition successes :: "('a \<Rightarrow> 'k) \<Rightarrow> 'k \<Rightarrow> ('a \<times> ('e + 'r)) list \<Rightarrow> ('a \<times> ('e + 'r)) list" where
  "successes key_of k rs = filter (\<lambda>(a, r). key_of a = k \<and> \<not> isl r) rs"

locale one_shot =
  fixes open_grant :: "'k \<Rightarrow> 's \<Rightarrow> bool"
    and attempt :: "'a \<Rightarrow> 's \<Rightarrow> ('e + 'r) \<times> 's"
    and key_of :: "'a \<Rightarrow> 'k"
  assumes success_closes: "attempt a s = (Inr r, s') \<Longrightarrow> open_grant (key_of a) s \<and> \<not> open_grant (key_of a) s'"
    and never_reopens: "attempt a s = (q, s') \<Longrightarrow> open_grant k s' \<Longrightarrow> open_grant k s"
begin

lemma none_when_closed: "\<not> open_grant k s \<Longrightarrow> successes key_of k (fst (attempts_of attempt as s)) = []"
proof (induction as arbitrary: s)
  case (Cons a as)
  obtain r s' where e: "attempt a s = (r, s')" by fastforce
  have "\<not> open_grant k s'" using never_reopens [OF e] Cons.prems by blast
  moreover have "key_of a = k \<Longrightarrow> isl r"
    using success_closes [of a s _ s'] e Cons.prems by (cases r) auto
  ultimately show ?case
    using Cons.IH [of s'] e by (auto simp: successes_def split: prod.splits)
qed (simp add: successes_def)

lemma at_most_once: "length (successes key_of k (fst (attempts_of attempt as s))) \<le> 1"
proof (induction as arbitrary: s)
  case (Cons a as)
  obtain r s' where e: "attempt a s = (r, s')" by fastforce
  show ?case
  proof (cases "key_of a = k \<and> \<not> isl r")
    case True
    then obtain q where "r = Inr q" by (cases r) auto
    with success_closes [of a s q s'] e True have "\<not> open_grant k s'" by blast
    from none_when_closed [OF this, of as] e True show ?thesis
      by (cases "attempts_of attempt as s'") (simp add: successes_def)
  next
    case False
    with Cons.IH [of s'] e show ?thesis
      by (auto simp: successes_def split: prod.splits)
  qed
qed (simp add: successes_def)

end

subsection \<open>Results of the halves\<close>

definition topups :: "'a topup_world_scheme \<Rightarrow>
    (string \<rightharpoonup> redemption_row) \<times> (int \<rightharpoonup> recharge_row) \<times> (int \<rightharpoonup> user_row)" where
  "topups s = (redemptions s, recharges s, users s)"

lemma topups_outcomes [simp]: "topups (s\<lparr>outcomes := rs\<rparr>) = topups s"
  by (simp add: topups_def)

lemma record_log_topups [simp]: "topups (record_log uid x s) = topups s"
proof -
  obtain r s' where e: "stmt () (\<lambda>s. ((), s\<lparr>grant_logs := grant_logs s @ [(uid, x)]\<rparr>)) s = (r, s')"
    by fastforce
  then show ?thesis by (elim stmt_result) (auto simp: record_log_def e topups_def)
qed

definition credited_users :: "int \<Rightarrow> int \<Rightarrow> (int \<rightharpoonup> user_row) \<Rightarrow> int \<rightharpoonup> user_row" where
  "credited_users uid q us = (case us uid of None \<Rightarrow> us
     | Some u \<Rightarrow> us(uid \<mapsto> u\<lparr>u_quota := u_quota u + q\<rparr>))"

lemma credit_user_result:
  assumes "credit_user uid q s = (r, s')"
  obtains (failed) e where "r = Inl e" and "topups s' = topups s"
  | (done_) "r = Inr ()" and "topups s' = (redemptions s, recharges s, credited_users uid q (users s))"
  using assms
  by (auto simp: credit_user_def topups_def user_credit_def credited_users_def split: option.splits
      elim!: stmt_result)

lemma redeem_check_result:
  assumes "redeem_check key s = (r, s')"
  obtains (failed) e where "r = Inl e" and "topups s' = topups s"
  | (done_) d where "r = Inr d" and "topups s' = topups s" and "redemptions s key = Some d"
      and "d_status d = redemption_enabled"
  using assms
  by (auto simp: redeem_check_def topups_def elim!: bindE_result stmt_result split: option.splits if_splits)

lemma redeem_apply_result:
  assumes "redeem_apply key uid d s = (Inr q, s')"
  obtains now where "q = d_quota d" and "topups s' = ((redemptions s)(key \<mapsto>
    d\<lparr>d_redeemed_time := now, d_status := redemption_used\<rparr>), recharges s,
    credited_users uid (d_quota d) (users s))"
proof -
  from assms obtain u where u: "credit_user uid (d_quota d) s = (Inr (), u)"
    and a: "stmt TopupDbError (\<lambda>s. (d_quota d, s\<lparr>redemptions := (redemptions s)(key \<mapsto>
       d\<lparr>d_redeemed_time := clock s, d_status := redemption_used\<rparr>)\<rparr>)) u = (Inr q, s')"
    by (auto simp: redeem_apply_def elim!: bindE_InrE)
  from u have "topups u = (redemptions s, recharges s, credited_users uid (d_quota d) (users s))"
    by (auto elim: credit_user_result)
  with a that [of "clock u"] show thesis by (auto simp: topups_def elim!: stmt_result)
qed

lemma in_tx_topups:
  assumes "in_tx e body s = (r, s')"
  obtains (failed) e' where "r = Inl e'" and "topups s' = topups s"
  | (done_) a t where "r = Inr a" and "body s = (Inr a, t)" and "topups s' = topups t"
  using assms by (elim in_tx_result) (auto simp: same_data_def topups_def)

lemma redeem_result:
  assumes "redeem key uid s = (r, s')"
  obtains (failed) e where "r = Inl e" and "topups s' = topups s"
  | (done_) d now where "r = Inr (d_quota d)" and "redemptions s key = Some d"
      and "d_status d = redemption_enabled"
      and "topups s' = ((redemptions s)(key \<mapsto>
        d\<lparr>d_redeemed_time := now, d_status := redemption_used\<rparr>), recharges s,
        credited_users uid (d_quota d) (users s))"
proof (cases "key = [] \<or> uid = 0")
  case True
  with assms failed show thesis by (auto simp: redeem_def split: if_splits)
next
  case False
  with assms have "bindE (in_tx TopupDbError (\<lambda>s. bindE (redeem_check key s)
      (\<lambda>d s. redeem_apply key uid d s)) s) (\<lambda>q s. (Inr q, record_log uid ''redeemed'' s)) = (r, s')"
    by (simp add: redeem_def)
  then show thesis
  proof (cases rule: bindE_result)
    case (left e)
    then show thesis using failed by (auto elim: in_tx_topups)
  next
    case (right q w)
    then obtain t where t: "bindE (redeem_check key s) (\<lambda>d s. redeem_apply key uid d s) = (Inr q, t)"
      and w: "topups w = topups t" by (auto elim: in_tx_topups)
    from t obtain d u where d: "redeem_check key s = (Inr d, u)" and a: "redeem_apply key uid d u = (Inr q, t)"
      by (auto elim: bindE_InrE)
    from d have ds: "topups u = topups s" "redemptions s key = Some d" "d_status d = redemption_enabled"
      by (auto elim: redeem_check_result)
    from a obtain now where "q = d_quota d" "topups t = ((redemptions u)(key \<mapsto>
        d\<lparr>d_redeemed_time := now, d_status := redemption_used\<rparr>), recharges u,
        credited_users uid (d_quota d) (users u))" by (rule redeem_apply_result)
    moreover from right(2) have "r = Inr q" "topups s' = topups w" by auto
    ultimately show thesis using w ds by (intro done_ [of d now]) (auto simp: topups_def)
  qed
qed

subsection \<open>Both provide the contract\<close>

definition code_open :: "string \<Rightarrow> 'a topup_world_scheme \<Rightarrow> bool" where
  "code_open key s \<longleftrightarrow> (\<exists>d. redemptions s key = Some d \<and> d_status d = redemption_enabled)"

definition redeem_attempt :: "string \<times> int \<Rightarrow> 'a topup_world_scheme \<Rightarrow> (topup_error + int) \<times> 'a topup_world_scheme" where
  "redeem_attempt a s = redeem (fst a) (snd a) s"

interpretation codes: one_shot code_open redeem_attempt fst
proof (unfold_locales, goal_cases)
  case (1 a s r s')
  from 1 [unfolded redeem_attempt_def] show ?case
    by (cases rule: redeem_result) (auto simp: code_open_def topups_def topup_status_defs)
next
  case (2 a s q s' k)
  from 2(1) [unfolded redeem_attempt_def] 2(2) show ?case
    by (cases rule: redeem_result)
       (auto simp: code_open_def topups_def topup_status_defs split: if_splits)
qed

definition request_open :: "int \<Rightarrow> 'a topup_world_scheme \<Rightarrow> bool" where
  "request_open i s \<longleftrightarrow> (\<exists>g. recharges s i = Some g \<and> g_status g = recharge_pending)"

datatype review = Approve "int option" int string | Reject "int option" int string

fun reviewed :: "review \<Rightarrow> int" where
  "reviewed (Approve pid _ _) = (case pid of None \<Rightarrow> 0 | Some i \<Rightarrow> i)"
| "reviewed (Reject pid _ _) = (case pid of None \<Rightarrow> 0 | Some i \<Rightarrow> i)"

fun decide_request :: "review \<Rightarrow> 'a topup_world_scheme \<Rightarrow> (topup_error + unit) \<times> 'a topup_world_scheme" where
  "decide_request (Approve pid rev_id remark) s = approve_handler pid rev_id remark s"
| "decide_request (Reject pid rev_id remark) s = reject_handler pid rev_id remark s"

lemma review_check_result:
  assumes "review_check i s = (r, s')"
  obtains (failed) e where "r = Inl e" and "topups s' = topups s"
  | (done_) g where "r = Inr g" and "topups s' = topups s" and "recharges s i = Some g"
      and "g_status g = recharge_pending" and "i \<noteq> 0"
  using assms
  by (auto simp: review_check_def get_recharge_request_def topups_def elim!: bindE_result stmt_result
      split: option.splits if_splits)

lemma set_review_result:
  assumes "set_review i f s = (r, s')"
  obtains (failed) e where "r = Inl e" and "topups s' = topups s"
  | (done_) now where "r = Inr ()" and
      "topups s' = (redemptions s, (recharges s)(i := map_option (f now) (recharges s i)), users s)"
  using assms by (auto simp: set_review_def topups_def elim!: stmt_result)

lemma approve_result:
  assumes "approve_recharge_request i rev_id remark s = (r, s')"
  obtains (failed) e where "r = Inl e" and "topups s' = topups s"
  | (done_) g g' where "r = Inr ()" and "recharges s i = Some g" and "g_status g = recharge_pending"
      and "g_status g' = recharge_approved" and "g_user_id g' = g_user_id g" and "g_quota g' = g_amount g"
      and "topups s' = (redemptions s, (recharges s)(i \<mapsto> g'), credited_users (g_user_id g) (g_amount g) (users s))"
  using assms unfolding approve_recharge_request_def
proof (cases rule: bindE_result)
  case (left e)
  then show thesis using failed by (auto elim: review_check_result)
next
  case (right g u)
  from right(1) have g: "topups u = topups s" "recharges s i = Some g" "g_status g = recharge_pending"
    by (auto elim: review_check_result)
  from right(2) show thesis unfolding approve_apply_def
  proof (cases rule: bindE_result)
    case (left e)
    then show thesis using failed g by (auto elim!: in_tx_topups)
  next
    case (right x w)
    then obtain t where t: "bindE (credit_user (g_user_id g) (g_amount g) u) (\<lambda>_ s.
        set_review i (\<lambda>now r. r\<lparr>g_status := recharge_approved, g_quota := g_amount g,
          g_admin_remark := remark, g_reviewed_time := now, g_reviewer_id := rev_id\<rparr>) s) = (Inr x, t)"
      and w: "topups w = topups t" by (auto elim: in_tx_topups)
    from t obtain v where v: "credit_user (g_user_id g) (g_amount g) u = (Inr (), v)"
      and a: "set_review i (\<lambda>now r. r\<lparr>g_status := recharge_approved, g_quota := g_amount g,
          g_admin_remark := remark, g_reviewed_time := now, g_reviewer_id := rev_id\<rparr>) v = (Inr x, t)"
      by (auto elim: bindE_InrE)
    from v have tv: "topups v = (redemptions u, recharges u, credited_users (g_user_id g) (g_amount g) (users u))"
      by (auto elim: credit_user_result)
    from a obtain now where "topups t = (redemptions v, (recharges v)(i := map_option (\<lambda>r. r\<lparr>g_status := recharge_approved,
        g_quota := g_amount g, g_admin_remark := remark, g_reviewed_time := now, g_reviewer_id := rev_id\<rparr>)
        (recharges v i)), users v)" by (auto elim: set_review_result)
    moreover from right(2) have "r = Inr ()" "topups s' = topups w" by auto
    ultimately show thesis using w tv g
      by (intro done_ [of g "g\<lparr>g_status := recharge_approved, g_quota := g_amount g,
            g_admin_remark := remark, g_reviewed_time := now, g_reviewer_id := rev_id\<rparr>"])
         (auto simp: topups_def)
  qed
qed

lemma reject_result:
  assumes "reject_recharge_request i rev_id remark s = (r, s')"
  obtains (failed) e where "r = Inl e" and "topups s' = topups s"
  | (done_) g g' where "r = Inr ()" and "recharges s i = Some g" and "g_status g = recharge_pending"
      and "g_status g' = recharge_rejected" and "topups s' = (redemptions s, (recharges s)(i \<mapsto> g'), users s)"
  using assms unfolding reject_recharge_request_def
proof (cases rule: bindE_result)
  case (left e)
  then show thesis using failed by (auto elim: review_check_result)
next
  case (right g u)
  from right(1) have g: "topups u = topups s" "recharges s i = Some g" "g_status g = recharge_pending"
    by (auto elim: review_check_result)
  from right(2) show thesis unfolding reject_apply_def
  proof (cases rule: bindE_result)
    case (left e)
    then show thesis using failed g by (auto elim!: set_review_result)
  next
    case (right x w)
    then obtain now where "topups w = (redemptions u, (recharges u)(i := map_option (\<lambda>r. r\<lparr>g_status :=
        recharge_rejected, g_admin_remark := remark, g_reviewed_time := now, g_reviewer_id := rev_id\<rparr>)
        (recharges u i)), users u)" by (auto elim: set_review_result)
    moreover from right(2) have "r = Inr ()" "topups s' = topups w" by auto
    ultimately show thesis using g
      by (intro done_ [of g "g\<lparr>g_status := recharge_rejected, g_admin_remark := remark,
            g_reviewed_time := now, g_reviewer_id := rev_id\<rparr>"]) (auto simp: topups_def)
  qed
qed

lemma decide_result:
  assumes "decide_request d s = (r, s')"
  obtains (failed) e where "r = Inl e" and "topups s' = topups s"
  | (done_) g g' where "r = Inr ()" and "recharges s (reviewed d) = Some g" and "g_status g = recharge_pending"
      and "g_status g' \<noteq> recharge_pending" and "recharges s' = (recharges s)(reviewed d \<mapsto> g')"
proof (cases d)
  case (Approve pid rev_id remark)
  show thesis
  proof (cases "pid = None \<or> pid = Some 0")
    case True
    with assms Approve failed show thesis by (auto simp: approve_handler_def)
  next
    case False
    with assms Approve have "approve_recharge_request (reviewed d) rev_id remark s = (r, s')"
      by (auto simp: approve_handler_def split: option.splits)
    then show thesis
    proof (cases rule: approve_result)
      case (failed e)
      then show thesis by (rule \<open>\<And>e. r = Inl e \<Longrightarrow> topups s' = topups s \<Longrightarrow> thesis\<close>)
    next
      case d: (done_ g g')
      then have "recharges s' = (recharges s)(reviewed d \<mapsto> g')" "g_status g' \<noteq> recharge_pending"
        by (simp_all add: topups_def topup_status_defs)
      with d(1-3) show thesis by (intro done_)
    qed
  qed
next
  case (Reject pid rev_id remark)
  show thesis
  proof (cases "pid = None \<or> pid = Some 0 \<or> remark = []")
    case True
    with assms Reject failed show thesis by (auto simp: reject_handler_def split: option.splits)
  next
    case False
    with assms Reject have "reject_recharge_request (reviewed d) rev_id remark s = (r, s')"
      by (auto simp: reject_handler_def split: option.splits)
    then show thesis
    proof (cases rule: reject_result)
      case (failed e)
      then show thesis by (rule \<open>\<And>e. r = Inl e \<Longrightarrow> topups s' = topups s \<Longrightarrow> thesis\<close>)
    next
      case d: (done_ g g')
      then have "recharges s' = (recharges s)(reviewed d \<mapsto> g')" "g_status g' \<noteq> recharge_pending"
        by (simp_all add: topups_def topup_status_defs)
      with d(1-3) show thesis by (intro done_)
    qed
  qed
qed

interpretation requests: one_shot request_open decide_request reviewed
proof (unfold_locales, goal_cases)
  case (1 a s r s')
  then show ?case by (cases rule: decide_result) (auto simp: request_open_def)
next
  case (2 a s q s' k)
  from 2(1) 2(2) show ?case
    by (cases rule: decide_result) (auto simp: request_open_def topups_def split: if_splits)
qed

subsection \<open>Properties\<close>

definition example_code :: redemption_row where
  "example_code = \<lparr>d_user_id = 0, d_status = 1, d_name = ''gift'', d_quota = 30, d_redeemed_time = 0\<rparr>"

definition example_recharge :: recharge_row where
  "example_recharge = \<lparr>g_user_id = 1, g_amount = 40, g_quota = 0, g_status = 1, g_remark = [],
     g_admin_remark = [], g_created_time = 0, g_reviewed_time = 0, g_reviewer_id = 0\<rparr>"

definition example_topups :: topup_world where
  "example_topups = \<lparr>users = [1 \<mapsto> example_user], tokens = Map.empty,
     channel_used_quota = Map.empty, token_key_index = Map.empty, token_cache = Map.empty,
     batch_stores = (\<lambda>_. Map.empty), reminders = [], clock = 1000, using_sqlite = False,
     redis_enabled = False, batch_update_enabled = False, quota_remind_threshold = 10,
     outcomes = [], wait_cancelled = (\<lambda>_. False), redemptions = [''code'' \<mapsto> example_code],
     recharges = [9 \<mapsto> example_recharge], next_recharge_id = 10, grant_logs = []\<rparr>"



text \<open>
  Two approvals of one request that overlap credit it twice: the pending check is made
  before the transaction and not repeated in it.
\<close>

theorem approve_race_credits_twice:
  "let (r1, s1) = review_check 9 example_topups;
       (r2, s2) = review_check 9 s1;
       (a1, s3) = approve_apply 9 2 ''ok'' (projr r1) s2;
       (a2, s4) = approve_apply 9 3 ''ok'' (projr r2) s3
   in a1 = Inr () \<and> a2 = Inr () \<and> map_option u_quota (users s4 1) = Some (100 + 2 * 40)"
  by code_simp

end
