(* ===== verification/Spec2Isabelle.thy ===== *)
theory Spec2Isabelle
  imports RetryCosts Auth RedisLimit Pools ExternalBilling Topups
begin

text \<open>
  A verification library for the access control, routing and billing of uniapi, a gateway that relays requests to language
  models and charges its users for them.

  \<^bold>\<open>The program.\<close> A request is authenticated by its token (\<open>middleware/auth.go\<close>), routed to a channel
  (\<open>middleware/distributor.go\<close>), passes the rate limits (\<open>middleware/rate-limit.go\<close>), is priced from the prices
  of its channel, of the channel's adaptor and of the global table (\<open>relay/pricing\<close>), reserves an
  estimate on its token and user (\<open>model/token.go\<close>, \<open>model/user.go\<close>), and is settled for the cost computed
  from the reported usage (\<open>relay/quota\<close>). Changes of the balances may be collected by the batch updater
  (\<open>model/utils.go\<close>). Users get quota from budget pools (\<open>model/pool.go\<close>), redemption codes and recharge
  requests; external services charge a token through \<open>ConsumeToken\<close> (\<open>controller/token.go\<close>).

  \<^bold>\<open>The theories.\<close>
  \<^item> \<open>Prelude\<close>: 64-bit integers, calls that can fail, ASCII strings, decimal numerals, Go maps as lists of
    entries and the loops that check or build them.
  \<^item> \<open>RateLimit\<close>, \<open>RedisLimit\<close>: \<open>common/rate-limit.go\<close> and both branches of \<open>middleware/rate-limit.go\<close>. The
    limiter never grants more than its limit in any window; the look-ahead of the distributor and the
    Redis variant agree with it.
  \<^item> \<open>Store\<close>: the tables and the cache as a record \<open>world\<close>, a SQL statement as a function on it, the
    outcomes of the external calls as a list chosen by the environment, and the retry of
    \<open>model/sqlite_retry.go\<close> (at most six attempts, the bound of the source).
  \<^item> \<open>Accounts\<close>: quota operations on users and tokens. No sequence of reservations and settlements
    overdraws an account, under any failures; the locale \<open>ledger\<close> is the contract of both tables.
  \<^item> \<open>BatchUpdater\<close>: the batched variants, which after a flush leave the tables the immediate ones leave.
  \<^item> \<open>Pools\<close>: \<open>model/pool.go\<close> and \<open>controller/pool.go\<close>, with the balance of each pool's books.
  \<^item> \<open>ExternalBilling\<close>: \<open>ConsumeToken\<close> with its phases (hold, settle, cancel, immediate, automatic
    confirmation) over \<open>model/token_transaction.go\<close>. Five identifiers are tried for a new transaction, as
    in the source.
  \<^item> \<open>Topups\<close>: redemption codes and recharge requests, both instances of the locale \<open>one_shot\<close>.
  \<^item> \<open>Float64\<close>: Go's \<open>float64\<close> as rationals rounded to binary64, the locale \<open>float_rounding\<close> for what the
    prices rely on (monotone, exact on 53-bit integers).
  \<^item> \<open>PricingConfig\<close>: the price table of a channel (\<open>model/channel.go\<close>), its normalisation and validation.
    Every stored table is valid, and storing what was read changes nothing.
  \<^item> \<open>Pricing\<close>: \<open>relay/adaptor/interface.go\<close>, \<open>relay/pricing\<close>: the global pricing manager as a state with
    its reachable states, the layered lookups as overriding maps, the tier loop as a filter.
  \<^item> \<open>QuotaCompute\<close>: \<open>relay/quota\<close>: the cost of a usage, its token buckets, minimum charge and monotony.

  \<^item> \<open>Tooling\<close>: \<open>relay/tooling/tools.go\<close>: which built-in tools a channel allows, at what price, and what
    the invocations of an answer cost.
  \<^item> \<open>MediaCharges\<close>: the checks and prices of images (\<open>relay/controller/image.go\<close>) and the charges for
    images, audio and video in an answer.
  \<^item> \<open>SteadyPrices\<close>: the price of a request does not depend on whether the price manager was initialised
    before (predicate \<open>steady\<close>).
  \<^item> \<open>RelayState\<close>: the balance cache, the consume logs, the request costs, settlement with its log and the
    refund rules; \<open>paid\<close> says what a request has taken from its accounts so far.
  \<^item> \<open>StreamTracker\<close>: \<open>relay/streaming/tracker.go\<close>: charging while an answer is streamed.
  \<^item> \<open>RelayBilling\<close>: the billing of \<open>relay/controller/text.go\<close> from the estimate to the settlement. The
    transport and the answer of the upstream service are parameters.
  \<^item> \<open>Channels\<close>, \<open>ChannelChoice\<close>: \<open>model/ability.go\<close> and the channels of \<open>model/channel.go\<close> and
    \<open>model/cache.go\<close>: their changes, the cache, and the random selection by priority from cache and database.
  \<^item> \<open>RelayRetry\<close>: \<open>controller/relay.go\<close> and \<open>monitor\<close>: what an error does to its channel, the success window of
    a channel, the retry loop. The locale \<open>excluding_source\<close> is what the loop needs of a selection.
  \<^item> \<open>RetryCosts\<close>: the retry loop with text requests as attempts: what a retried request pays.
  \<^item> \<open>Routing\<close>: relay modes, channel types and endpoints (\<open>relay/relaymode\<close>, \<open>relay/channeltype\<close>), what a channel
    supports, and the detection of image input (\<open>middleware/utils.go\<close>).
  \<^item> \<open>Sticky\<close>: \<open>model/sticky_session.go\<close>: bindings of sessions and responses to channels. The locale
    \<open>binding_backend\<close> is the contract of the memory and the Redis variant.
  \<^item> \<open>Distributor\<close>: \<open>middleware/distributor.go\<close>. The state read by the handler is a sequence of moments; the fuel of
    its loops is the number of channels and one more, which is proved enough. The locale \<open>tiered_source\<close> extends
    \<open>excluding_source\<close> by the order of the priorities.
  \<^item> \<open>Subnets\<close>: \<open>common/network/ip.go\<close> with the parsers of Go's package \<open>net\<close>, on bytes.
  \<^item> \<open>Auth\<close>: \<open>middleware/auth.go\<close> with the validation of tokens, composed with the distributor: the
    models a restricted token can reach.

  \<^bold>\<open>Correspondence.\<close> A Go function keeps its name in snake case; \<open>_now\<close> marks the lower-case function that
  goes to the database, \<open>_handler\<close> the HTTP handler of the same name. A returned error is the left part
  of a sum, a panic \<open>None\<close>. Concurrency appears as the order of the steps: two requests that race are
  modelled by interleaving the statements of their handlers.

  \<^bold>\<open>Not modelled.\<close> The adaptors of the upstream services and their tables, the HTTP layer and the
  parsing of JSON, login and sessions, the other columns and the listings of the tables, migrations,
  logging, tracing, mail, the front end and the tools. Overflow of \<open>int64\<close> is modelled where the code computes with client-supplied amounts
  (external billing), not in the token counts of \<open>QuotaCompute\<close>. Strings are bytes; case folding is
  that of ASCII.
\<close>

end
